(* ===== verification/Omni_Prelude.thy ===== *)
theory Omni_Prelude
  imports Main "HOL-Library.Word"
begin

section \<open>Shared vocabulary of the omnicore development\<close>

text \<open>
  This theory holds what every component theory uses.

  \<^item> The type of a Go panic carried as a value: a computation that may panic returns
    \<open>gopanic + 'a\<close>, with \<open>Inl\<close> for the panic.
  \<^item> \<open>update_first\<close>, the loop \<^verbatim>\<open>for i, e := range list { if P(e) { list[i] = f(e); return } }\<close>
    that the change tracker, the id write-back, the stamp requests and the cache share,
    with the lemmas that locate what it touched.
  \<^item> \<open>run_steps\<close>, a fold over a list of operations, and the locale of inductive invariants
    of such runs.
  \<^item> The collections \<open>go_simps\<close> (unfolding of small operations) and \<open>inv_intros\<close>
    (preservation of invariants) that component proofs extend.
\<close>

named_theorems go_simps
named_theorems inv_intros

subsection \<open>Panics as values\<close>

text \<open>A Go panic is identified by the text that the source passes to \<^verbatim>\<open>panic\<close>.\<close>

type_synonym gopanic = string

definition bind_panic :: "gopanic + 'a \<Rightarrow> ('a \<Rightarrow> gopanic + 'b) \<Rightarrow> gopanic + 'b" where
  "bind_panic m f = (case m of Inl p \<Rightarrow> Inl p | Inr x \<Rightarrow> f x)"

lemma bind_panic_simps [simp]:
  "bind_panic (Inl p) f = Inl p"
  "bind_panic (Inr x) f = f x"
  by (simp_all add: bind_panic_def)

lemma bind_panic_eq_Inr [simp]:
  "bind_panic m f = Inr y \<longleftrightarrow> (\<exists>x. m = Inr x \<and> f x = Inr y)"
  by (cases m) simp_all

lemma bind_panic_eq_Inl:
  "bind_panic m f = Inl p \<longleftrightarrow> m = Inl p \<or> (\<exists>x. m = Inr x \<and> f x = Inl p)"
  by (cases m) simp_all

subsection \<open>The first-match update loop\<close>

text \<open>\<open>None\<close> is the loop running to its end without a match.\<close>

fun update_first :: "('a \<Rightarrow> bool) \<Rightarrow> ('a \<Rightarrow> 'a) \<Rightarrow> 'a list \<Rightarrow> 'a list option" where
  "update_first P f [] = None"
| "update_first P f (x # xs) =
     (if P x then Some (f x # xs) else map_option (Cons x) (update_first P f xs))"

lemma update_first_None [simp]:
  "update_first P f xs = None \<longleftrightarrow> (\<forall>x\<in>set xs. \<not> P x)"
  by (induction xs) auto

lemma update_first_SomeE:
  assumes "update_first P f xs = Some ys"
  obtains pre x post where "xs = pre @ x # post" and "ys = pre @ f x # post"
    and "P x" and "\<forall>y\<in>set pre. \<not> P y"
  using assms
proof (induction xs arbitrary: ys thesis)
  case Nil
  then show ?case by simp
next
  case (Cons a xs)
  show ?case
  proof (cases "P a")
    case True
    with Cons.prems(2) have "ys = [] @ f a # xs" by simp
    with True show ?thesis using Cons.prems(1) [of "[]" a xs] by simp
  next
    case False
    with Cons.prems(2) obtain zs where zs: "update_first P f xs = Some zs" "ys = a # zs"
      by auto
    obtain pre x post where "xs = pre @ x # post" "zs = pre @ f x # post" "P x"
      "\<forall>y\<in>set pre. \<not> P y"
      using Cons.IH [OF _ zs(1)] by blast
    with False zs(2) show ?thesis using Cons.prems(1) [of "a # pre" x post] by simp
  qed
qed

lemma update_first_append:
  assumes "P x" and "\<forall>y\<in>set pre. \<not> P y"
  shows "update_first P f (pre @ x # post) = Some (pre @ f x # post)"
  using assms by (induction pre) auto

lemma update_first_length:
  "update_first P f xs = Some ys \<Longrightarrow> length ys = length xs"
  by (erule update_first_SomeE) simp

lemma update_first_map:
  assumes "update_first P f xs = Some ys" and "\<And>x. P x \<Longrightarrow> g (f x) = g x"
  shows "map g ys = map g xs"
  using assms(1) by (rule update_first_SomeE) (simp add: assms(2))

lemma update_first_set:
  assumes "update_first P f xs = Some ys" and "y \<in> set ys"
  shows "y \<in> set xs \<or> (\<exists>x\<in>set xs. P x \<and> y = f x)"
  using assms(1) by (rule update_first_SomeE) (use assms(2) in auto)

subsection \<open>Lists cut at a separator\<close>

lemma sep_first:
  "a @ s # xs = b @ s # ys \<Longrightarrow> s \<notin> set a \<Longrightarrow> s \<notin> set b \<Longrightarrow> a = b \<and> xs = ys"
proof (induction a arbitrary: b)
  case Nil
  then show ?case by (cases b) auto
next
  case (Cons c a)
  then show ?case by (cases b) auto
qed

lemma sep_last:
  assumes "xs @ s # a = ys @ s # b" and "s \<notin> set a" and "s \<notin> set b"
  shows "xs = ys \<and> a = b"
proof -
  have "rev a @ s # rev xs = rev b @ s # rev ys" using arg_cong [OF assms(1), of rev] by simp
  from sep_first [OF this] show ?thesis using assms(2,3) by simp
qed

subsection \<open>Runs of operations and their invariants\<close>

fun run_steps :: "('s \<Rightarrow> 'o \<Rightarrow> 's) \<Rightarrow> 's \<Rightarrow> 'o list \<Rightarrow> 's" where
  "run_steps step s [] = s"
| "run_steps step s (c # cs) = run_steps step (step s c) cs"

lemma run_steps_append:
  "run_steps step s (cs @ ds) = run_steps step (run_steps step s cs) ds"
  by (induction cs arbitrary: s) simp_all

text \<open>
  A predicate that every operation keeps holds after every sequence of operations. Each
  component interprets this locale on its own step function and its own invariant.
\<close>

locale step_invariant =
  fixes step :: "'s \<Rightarrow> 'o \<Rightarrow> 's" and inv :: "'s \<Rightarrow> bool"
  assumes step_keeps: "inv s \<Longrightarrow> inv (step s c)"
begin

lemma run_keeps: "inv s \<Longrightarrow> inv (run_steps step s cs)"
  by (induction cs arbitrary: s) (simp_all add: step_keeps)

end

end
