(* ===== verification/Wire_Names.thy ===== *)
theory Wire_Names
  imports Omni_Prelude
begin

section \<open>Wire names: camel casing, dotted paths, decimal rendering\<close>

text \<open>
  Model of \<^verbatim>\<open>src/domain/wire_names.go\<close> and of the rendering half of
  \<^verbatim>\<open>src/domain/notification.go\<close> (\<open>itoa\<close>, \<open>PathSegment\<close>, \<open>renderPath\<close>).

  A Go string is the list of its bytes. The code converts to runes and back, and tests and
  rewrites ASCII letters only; on the UTF-8 encoding of a Go identifier or struct tag no
  byte of a multi-byte rune is an ASCII letter, so working bytewise computes the same string.
\<close>

subsection \<open>Casing one segment\<close>

definition isUpperRune :: "char \<Rightarrow> bool" where
  "isUpperRune r \<longleftrightarrow> (65::nat) \<le> of_char r \<and> of_char r \<le> (90::nat)"

definition toLowerRune :: "char \<Rightarrow> char" where
  "toLowerRune r = (if isUpperRune r then char_of (of_char r + (32::nat)) else r)"

text \<open>The length of the leading run of uppercase runes (the counting loop of the source).\<close>

fun upperRun :: "string \<Rightarrow> nat" where
  "upperRun [] = 0"
| "upperRun (r # rs) = (if isUpperRune r then Suc (upperRun rs) else 0)"

definition toLowerCamel :: "string \<Rightarrow> string" where
  "toLowerCamel s =
     (case s of
        [] \<Rightarrow> s
      | r0 # rest \<Rightarrow>
          if \<not> isUpperRune r0 then s
          else let n = upperRun s in
            if n = 1 then toLowerRune r0 # rest
            else if n = length s then map toLowerRune s
            else map toLowerRune (take (n - 1) s) @ drop (n - 1) s)"

subsection \<open>Casing a dotted path\<close>

text \<open>\<^verbatim>\<open>strings.Split(s, ".")\<close> and \<^verbatim>\<open>strings.Join(segs, ".")\<close>.\<close>

fun splitDots :: "string \<Rightarrow> string list" where
  "splitDots [] = [[]]"
| "splitDots (c # cs) =
     (if c = CHR ''.'' then [] # splitDots cs
      else (case splitDots cs of [] \<Rightarrow> [[c]] | seg # segs \<Rightarrow> (c # seg) # segs))"

fun joinDots :: "string list \<Rightarrow> string" where
  "joinDots [] = []"
| "joinDots [s] = s"
| "joinDots (s # t # ss) = s @ CHR ''.'' # joinDots (t # ss)"

definition WireFieldPath :: "string \<Rightarrow> string" where
  "WireFieldPath goPath =
     (if CHR ''.'' \<notin> set goPath then toLowerCamel goPath
      else joinDots (map toLowerCamel (splitDots goPath)))"

subsection \<open>Decimal rendering of an int\<close>

text \<open>
  Go's \<^verbatim>\<open>int\<close> is 64 bits wide: negation wraps, so \<open>neg64\<close> maps the least value to itself.
  The digit loop fills the buffer from its end; the recursion below returns the filled part.
\<close>

definition neg64 :: "int \<Rightarrow> int" where
  "neg64 i = (if i = - (2 ^ 63) then i else - i)"

definition digitChar :: "int \<Rightarrow> char" where
  "digitChar d = char_of (48 + nat d)"

function itoaDigits :: "int \<Rightarrow> string \<Rightarrow> string" where
  "itoaDigits i buf =
     (if i > 0 then itoaDigits (i div 10) (digitChar (i mod 10) # buf) else buf)"
  by pat_completeness auto
termination
  by (relation "measure (\<lambda>(i, buf). nat i)") auto

declare itoaDigits.simps [simp del]

definition itoa :: "int \<Rightarrow> string" where
  "itoa i =
     (if i = 0 then ''0''
      else let neg = i < 0; j = (if neg then neg64 i else i); buf = itoaDigits j []
           in if neg then CHR ''-'' # buf else buf)"

subsection \<open>Structured paths\<close>

record PathSegment =
  Name :: string
  Wire :: string
  Index :: "int option"

definition IndexSegment :: "int \<Rightarrow> PathSegment" where
  "IndexSegment i = \<lparr>Name = '''', Wire = '''', Index = Some i\<rparr>"

definition NameSegment :: "string \<Rightarrow> PathSegment" where
  "NameSegment n = \<lparr>Name = n, Wire = '''', Index = None\<rparr>"

text \<open>The loop of \<open>renderPath\<close>; the flag is \<open>wroteAny\<close>.\<close>

fun renderFrom :: "bool \<Rightarrow> PathSegment list \<Rightarrow> string" where
  "renderFrom wroteAny [] = []"
| "renderFrom wroteAny (seg # path) =
     (case Index seg of
        Some i \<Rightarrow> CHR ''['' # itoa i @ CHR '']'' # renderFrom True path
      | None \<Rightarrow>
          if Name seg = '''' \<and> Wire seg = '''' then renderFrom wroteAny path
          else (if wroteAny then ''.'' else '''')
               @ (if Wire seg \<noteq> '''' then Wire seg else toLowerCamel (Name seg))
               @ renderFrom True path)"

definition renderPath :: "PathSegment list \<Rightarrow> string" where
  "renderPath path = (if path = [] then '''' else renderFrom False path)"

subsection \<open>Lemmas: casing\<close>

lemma of_char_toLowerRune:
  "isUpperRune r \<Longrightarrow> (of_char (toLowerRune r) :: nat) = of_char r + 32"
  by (simp add: toLowerRune_def isUpperRune_def)

lemma toLowerRune_not_upper [simp]: "\<not> isUpperRune (toLowerRune r)"
  by (cases "isUpperRune r") (simp_all add: isUpperRune_def toLowerRune_def)

lemma toLowerRune_id: "\<not> isUpperRune r \<Longrightarrow> toLowerRune r = r"
  by (simp add: toLowerRune_def)

lemma toLowerRune_dot [simp]: "toLowerRune r = CHR ''.'' \<longleftrightarrow> r = CHR ''.''"
proof (cases "isUpperRune r")
  case True
  then have "(of_char (toLowerRune r) :: nat) \<noteq> of_char CHR ''.''"
    by (simp add: of_char_toLowerRune isUpperRune_def)
  moreover from True have "r \<noteq> CHR ''.''" by (auto simp: isUpperRune_def)
  ultimately show ?thesis by metis
next
  case False
  then show ?thesis by (simp add: toLowerRune_id)
qed

lemma upperRun_le: "upperRun s \<le> length s"
  by (induction s) auto

lemma toLowerCamel_cases:
  obtains (lower) "toLowerCamel s = s" "s = [] \<or> \<not> isUpperRune (hd s)"
  | (upper) k where "0 < k" "k \<le> length s" "isUpperRune (hd s)"
      "toLowerCamel s = map toLowerRune (take k s) @ drop k s"
proof (cases s)
  case Nil
  then show thesis by (intro lower) (simp_all add: toLowerCamel_def)
next
  case (Cons r rest)
  show thesis
  proof (cases "isUpperRune r")
    case False
    with Cons show thesis by (intro lower) (simp_all add: toLowerCamel_def)
  next
    case True
    define n where "n = upperRun s"
    have n: "0 < n" "n \<le> length s" using True Cons upperRun_le [of s] by (auto simp: n_def)
    show thesis
    proof (cases "n = 1 \<or> n = length s")
      case True
      then show thesis
        using \<open>isUpperRune r\<close> Cons n
        by (intro upper [of n]) (auto simp: toLowerCamel_def n_def Let_def)
    next
      case False
      with \<open>isUpperRune r\<close> Cons n show thesis
        by (intro upper [of "n - 1"]) (auto simp: toLowerCamel_def n_def Let_def)
    qed
  qed
qed

lemma toLowerCamel_hd:
  "toLowerCamel s \<noteq> [] \<Longrightarrow> \<not> isUpperRune (hd (toLowerCamel s))"
  by (rule toLowerCamel_cases [of s]) (auto simp: hd_append hd_map)

lemma toLowerCamel_fix: "s = [] \<or> \<not> isUpperRune (hd s) \<Longrightarrow> toLowerCamel s = s"
  by (cases s) (auto simp: toLowerCamel_def)

lemma toLowerCamel_idem [simp]: "toLowerCamel (toLowerCamel s) = toLowerCamel s"
  using toLowerCamel_hd [of s] by (intro toLowerCamel_fix) blast

lemma toLowerCamel_length [simp]: "length (toLowerCamel s) = length s"
  by (rule toLowerCamel_cases [of s]) auto

lemma toLowerCamel_eq_Nil [simp]: "toLowerCamel s = [] \<longleftrightarrow> s = []"
  by (metis length_0_conv toLowerCamel_length)

lemma dot_in_toLowerRune [simp]:
  "CHR ''.'' \<in> toLowerRune ` S \<longleftrightarrow> CHR ''.'' \<in> S"
  by (auto simp: image_iff eq_commute [of "CHR ''.''"])

lemma toLowerCamel_dotfree [simp]:
  "CHR ''.'' \<in> set (toLowerCamel s) \<longleftrightarrow> CHR ''.'' \<in> set s"
proof (rule toLowerCamel_cases [of s])
  fix k assume "toLowerCamel s = map toLowerRune (take k s) @ drop k s"
  moreover have "set s = set (take k s) \<union> set (drop k s)"
    by (metis append_take_drop_id set_append)
  ultimately show ?thesis by simp
qed simp

subsection \<open>Lemmas: dotted paths\<close>

lemma splitDots_nonempty [simp]: "splitDots s \<noteq> []"
  by (cases s) (auto split: list.splits)

lemma splitDots_dotfree: "seg \<in> set (splitDots s) \<Longrightarrow> CHR ''.'' \<notin> set seg"
  by (induction s arbitrary: seg) (auto split: if_splits list.splits)

lemma splitDots_single: "CHR ''.'' \<notin> set s \<Longrightarrow> splitDots s = [s]"
  by (induction s) auto

lemma splitDots_append:
  "CHR ''.'' \<notin> set seg \<Longrightarrow> splitDots (seg @ CHR ''.'' # rest) = seg # splitDots rest"
  by (induction seg) auto

lemma splitDots_joinDots:
  "segs \<noteq> [] \<Longrightarrow> \<forall>seg\<in>set segs. CHR ''.'' \<notin> set seg \<Longrightarrow> splitDots (joinDots segs) = segs"
  by (induction segs rule: joinDots.induct) (simp_all add: splitDots_single splitDots_append)

lemma joinDots_splitDots: "joinDots (splitDots s) = s"
proof (induction s)
  case (Cons c cs)
  then show ?case
    by (cases "splitDots cs" rule: joinDots.cases) auto
qed simp

lemma WireFieldPath_segments: "WireFieldPath s = joinDots (map toLowerCamel (splitDots s))"
  by (simp add: WireFieldPath_def splitDots_single)

lemma splitDots_WireFieldPath:
  "splitDots (WireFieldPath s) = map toLowerCamel (splitDots s)"
  unfolding WireFieldPath_segments
  by (rule splitDots_joinDots) (auto dest: splitDots_dotfree)

subsection \<open>Lemmas: decimal rendering\<close>

text \<open>The reference reader: digits most significant first, with an optional sign.\<close>

definition digitVal :: "char \<Rightarrow> int" where
  "digitVal c = int (of_char c) - 48"

definition readDigits :: "string \<Rightarrow> int" where
  "readDigits s = foldl (\<lambda>n c. 10 * n + digitVal c) 0 s"

definition readInt :: "string \<Rightarrow> int" where
  "readInt s = (case s of CHR ''-'' # ds \<Rightarrow> - readDigits ds | _ \<Rightarrow> readDigits s)"

lemma of_char_digitChar:
  "0 \<le> d \<Longrightarrow> d < 10 \<Longrightarrow> (of_char (digitChar d) :: nat) = 48 + nat d"
  by (simp add: digitChar_def)

lemma digitVal_digitChar [simp]: "0 \<le> d \<Longrightarrow> d < 10 \<Longrightarrow> digitVal (digitChar d) = d"
  by (simp add: digitVal_def of_char_digitChar)

lemma digitChar_not_minus: "0 \<le> d \<Longrightarrow> d < 10 \<Longrightarrow> digitChar d \<noteq> CHR ''-''"
  using of_char_digitChar [of d] by auto

lemma foldl_itoaDigits:
  "0 \<le> i \<Longrightarrow>
   foldl (\<lambda>n c. 10 * n + digitVal c) 0 (itoaDigits i buf) =
   foldl (\<lambda>n c. 10 * n + digitVal c) i buf"
proof (induction i buf rule: itoaDigits.induct)
  case (1 i buf)
  show ?case
  proof (cases "i > 0")
    case True
    then have "itoaDigits i buf = itoaDigits (i div 10) (digitChar (i mod 10) # buf)"
      by (simp add: itoaDigits.simps [of i buf])
    with True 1 show ?thesis by simp
  next
    case False
    with "1.prems" show ?thesis by (simp add: itoaDigits.simps)
  qed
qed

lemma set_itoaDigits:
  "c \<in> set (itoaDigits i buf) \<Longrightarrow> c \<in> set buf \<or> (\<exists>d. 0 \<le> d \<and> d < 10 \<and> c = digitChar d)"
proof (induction i buf rule: itoaDigits.induct)
  case (1 i buf)
  show ?case
  proof (cases "i > 0")
    case True
    then have "itoaDigits i buf = itoaDigits (i div 10) (digitChar (i mod 10) # buf)"
      by (simp add: itoaDigits.simps [of i buf])
    with 1 True have "c \<in> set (digitChar (i mod 10) # buf) \<or>
        (\<exists>d. 0 \<le> d \<and> d < 10 \<and> c = digitChar d)" by simp
    moreover have "0 \<le> i mod 10" "i mod 10 < 10" by simp_all
    ultimately show ?thesis by (metis set_ConsD)
  next
    case False
    with "1.prems" show ?thesis by (simp add: itoaDigits.simps)
  qed
qed

lemma length_itoaDigits:
  "0 \<le> i \<Longrightarrow> i < 10 ^ k \<Longrightarrow> length (itoaDigits i buf) \<le> length buf + k"
proof (induction k arbitrary: i buf)
  case 0
  then show ?case by (simp add: itoaDigits.simps)
next
  case (Suc k)
  show ?case
  proof (cases "i > 0")
    case True
    from Suc.prems have "i div 10 < 10 ^ k" by simp
    with Suc.IH [of "i div 10" "digitChar (i mod 10) # buf"] True show ?thesis
      by (simp add: itoaDigits.simps [of i buf])
  next
    case False
    then show ?thesis by (simp add: itoaDigits.simps)
  qed
qed

lemma readDigits_itoaDigits: "0 \<le> i \<Longrightarrow> readDigits (itoaDigits i []) = i"
  by (simp add: readDigits_def foldl_itoaDigits)

lemma readInt_nominus:
  assumes "CHR ''-'' \<notin> set s"
  shows "readInt s = readDigits s"
proof (cases s)
  case (Cons c cs)
  with assms have "c \<noteq> CHR ''-''" by auto
  with Cons show ?thesis by (auto simp: readInt_def split: char.splits bool.splits)
qed (simp add: readInt_def)

lemma minus_notin_itoaDigits: "CHR ''-'' \<notin> set (itoaDigits i [])"
  using set_itoaDigits [of "CHR ''-''" i "[]"] digitChar_not_minus by fastforce

subsection \<open>Lemmas: rendering paths\<close>

text \<open>\<open>wrote\<close> is the value of \<open>wroteAny\<close> after the loop has consumed a prefix.\<close>

definition blankSegment :: "PathSegment \<Rightarrow> bool" where
  "blankSegment seg \<longleftrightarrow> Index seg = None \<and> Name seg = [] \<and> Wire seg = []"

definition wrote :: "bool \<Rightarrow> PathSegment list \<Rightarrow> bool" where
  "wrote b p \<longleftrightarrow> b \<or> (\<exists>seg\<in>set p. \<not> blankSegment seg)"

lemma renderFrom_append:
  "renderFrom b (p @ q) = renderFrom b p @ renderFrom (wrote b p) q"
proof (induction p arbitrary: b)
  case (Cons seg p)
  have "wrote b (seg # p) = wrote (b \<or> \<not> blankSegment seg) p" by (auto simp: wrote_def)
  with Cons show ?case by (auto simp: blankSegment_def split: option.splits)
qed (simp add: wrote_def)

lemma renderPath_renderFrom: "renderPath p = renderFrom False p"
  by (simp add: renderPath_def)

end
