(* ===== verification/Notification.thy ===== *)
theory Notification
  imports Wire_Names
begin

section \<open>Notifications, messages and notification contexts\<close>

text \<open>
  Model of \<^verbatim>\<open>src/domain/notification.go\<close>, \<^verbatim>\<open>notification_semantic.go\<close>,
  \<^verbatim>\<open>notification_core.go\<close>, \<^verbatim>\<open>notification_vars.go\<close> (\<open>MessageVars\<close>) and
  \<^verbatim>\<open>exception.go\<close>.

  The interface value \<^verbatim>\<open>Notification\<close> is the record of what the framework reads from it:
  its key (the Go type name), its semantic and the translation variables of its tags. A
  \<^verbatim>\<open>reflect.Type\<close> is its name with its label plan, the memoised result of
  \<^verbatim>\<open>loadLabelPlan\<close>, which is all that a context reads from its \<^verbatim>\<open>entityType\<close>.

  \<^verbatim>\<open>Scoped\<close> always attaches a view to the root of the chain with the merged prefix, so a
  \<^verbatim>\<open>*NotificationContext\<close> is either the root, which owns the messages, or a view of it. The
  model passes the root state explicitly and a pointer is a \<open>ctxView\<close>; a nil pointer is
  \<open>None\<close>.
\<close>

subsection \<open>Semantics\<close>

text \<open>
  The enumeration is an \<^verbatim>\<open>int\<close>; \<open>SemanticOther\<close> stands for a value that is none of the
  declared constants.
\<close>

datatype NotificationSemantic =
    SemanticValidation
  | SemanticNotFound
  | SemanticConflict
  | SemanticForbidden
  | SemanticUnauthorized
  | SemanticUnavailable
  | SemanticSchema
  | SemanticInternal
  | SemanticMethodNotAllowed
  | SemanticPayloadTooLarge
  | SemanticGatewayTimeout
  | SemanticStateConflict
  | SemanticRequestTimeout
  | SemanticGone
  | SemanticPreconditionFailed
  | SemanticUnsupportedMediaType
  | SemanticTooManyRequests
  | SemanticNotImplemented
  | SemanticBadGateway
  | SemanticPaymentRequired
  | SemanticNotAcceptable
  | SemanticRangeNotSatisfiable
  | SemanticLocked
  | SemanticPreconditionRequired
  | SemanticUnavailableForLegalReasons
  | SemanticInsufficientStorage
  | SemanticRequestHeaderFieldsTooLarge
  | SemanticOther int

fun semanticString :: "NotificationSemantic \<Rightarrow> string" where
  "semanticString SemanticNotFound = ''NotFound''"
| "semanticString SemanticConflict = ''Conflict''"
| "semanticString SemanticForbidden = ''Forbidden''"
| "semanticString SemanticUnauthorized = ''Unauthorized''"
| "semanticString SemanticUnavailable = ''Unavailable''"
| "semanticString SemanticSchema = ''Schema''"
| "semanticString SemanticInternal = ''Internal''"
| "semanticString SemanticMethodNotAllowed = ''MethodNotAllowed''"
| "semanticString SemanticPayloadTooLarge = ''PayloadTooLarge''"
| "semanticString SemanticGatewayTimeout = ''GatewayTimeout''"
| "semanticString SemanticStateConflict = ''StateConflict''"
| "semanticString SemanticRequestTimeout = ''RequestTimeout''"
| "semanticString SemanticGone = ''Gone''"
| "semanticString SemanticPreconditionFailed = ''PreconditionFailed''"
| "semanticString SemanticUnsupportedMediaType = ''UnsupportedMediaType''"
| "semanticString SemanticTooManyRequests = ''TooManyRequests''"
| "semanticString SemanticNotImplemented = ''NotImplemented''"
| "semanticString SemanticBadGateway = ''BadGateway''"
| "semanticString SemanticPaymentRequired = ''PaymentRequired''"
| "semanticString SemanticNotAcceptable = ''NotAcceptable''"
| "semanticString SemanticRangeNotSatisfiable = ''RangeNotSatisfiable''"
| "semanticString SemanticLocked = ''Locked''"
| "semanticString SemanticPreconditionRequired = ''PreconditionRequired''"
| "semanticString SemanticUnavailableForLegalReasons = ''UnavailableForLegalReasons''"
| "semanticString SemanticInsufficientStorage = ''InsufficientStorage''"
| "semanticString SemanticRequestHeaderFieldsTooLarge = ''RequestHeaderFieldsTooLarge''"
| "semanticString _ = ''Validation''"

subsection \<open>Notifications\<close>

record Notification =
  NotificationKey :: string
  Semantic :: NotificationSemantic
  tagVars :: "string \<rightharpoonup> string"

text \<open>The semantic overrides of the kernel notifications; every other type keeps the default.\<close>

definition kernelSemantic :: "string \<Rightarrow> NotificationSemantic" where
  "kernelSemantic key =
     (if key = ''RecordNotFoundNotification'' then SemanticNotFound
      else if key = ''MalformedIDNotification'' then SemanticSchema
      else if key = ''UnknownIDAddressNotification'' then SemanticNotFound
      else if key = ''InvalidFilterValueNotification'' then SemanticSchema
      else if key = ''EntityIsNotActiveNotification'' then SemanticStateConflict
      else if key = ''ConcurrentModificationNotification'' then SemanticStateConflict
      else if key = ''EntityAlreadyAddedNotification'' then SemanticConflict
      else if key = ''InsertNotAllowedNotification'' then SemanticForbidden
      else if key = ''UpdateNotAllowedNotification'' then SemanticForbidden
      else if key = ''DeleteNotAllowedNotification'' then SemanticForbidden
      else if key = ''ArchiveNotAllowedNotification'' then SemanticForbidden
      else if key = ''UnarchiveNotAllowedNotification'' then SemanticForbidden
      else if key = ''SchemaViolationNotification'' then SemanticSchema
      else if key = ''LimitExceededNotification'' then SemanticSchema
      else SemanticValidation)"

definition kernelNotification :: "string \<Rightarrow> Notification" where
  "kernelNotification key =
     \<lparr>NotificationKey = key, Semantic = kernelSemantic key, tagVars = Map.empty\<rparr>"

text \<open>\<open>RequiredFieldNotification\<close> carries an optional per-instance override.\<close>

definition RequiredFieldNotification :: "NotificationSemantic option \<Rightarrow> Notification" where
  "RequiredFieldNotification semanticOverride =
     \<lparr>NotificationKey = ''RequiredFieldNotification'',
      Semantic = (case semanticOverride of Some s \<Rightarrow> s | None \<Rightarrow> SemanticValidation),
      tagVars = Map.empty\<rparr>"

definition WithSemantic :: "NotificationSemantic \<Rightarrow> Notification" where
  "WithSemantic s = RequiredFieldNotification (Some s)"

subsection \<open>Messages\<close>

record NotificationMessage =
  Path :: "PathSegment list"
  Override :: string
  FieldValue :: string
  FuncName :: string
  Err :: "string option"
  MsgNotification :: Notification
  Vars :: "string \<rightharpoonup> string"
  LabelKey :: string

text \<open>The composite literal \<^verbatim>\<open>NotificationMessage{Notification: n}\<close>: every other field zero.\<close>

definition message_of :: "Notification \<Rightarrow> NotificationMessage" where
  "message_of n =
     \<lparr>Path = [], Override = [], FieldValue = [], FuncName = [], Err = None,
      MsgNotification = n, Vars = Map.empty, LabelKey = []\<rparr>"

definition ResolveFieldName :: "NotificationMessage \<Rightarrow> string" where
  "ResolveFieldName m = (if Override m \<noteq> [] then Override m else renderPath (Path m))"

text \<open>Per-emit variables win over the tag-derived ones; both empty is \<open>nil\<close>.\<close>

definition MessageVars :: "NotificationMessage \<Rightarrow> (string \<rightharpoonup> string) option" where
  "MessageVars msg =
     (let notifVars = tagVars (MsgNotification msg) in
      if notifVars = Map.empty \<and> Vars msg = Map.empty then None
      else Some (notifVars ++ Vars msg))"

subsection \<open>Echoed values\<close>

text \<open>
  What \<open>formatFieldValue\<close> distinguishes of a Go value: nil, a string, a pointer, a pointer
  whose type renders itself (\<^verbatim>\<open>fmt.Stringer\<close> or \<^verbatim>\<open>error\<close>), and any other value by its
  \<^verbatim>\<open>fmt.Sprint\<close> rendering.
\<close>

datatype goValue =
    VNil
  | VString string
  | VPointer "goValue option"
  | VSelfRendering "string option"
  | VOther string

fun sprintValue :: "goValue \<Rightarrow> string" where
  "sprintValue VNil = ''<nil>''"
| "sprintValue (VString s) = s"
| "sprintValue (VPointer None) = []"
| "sprintValue (VPointer (Some v)) = sprintValue v"
| "sprintValue (VSelfRendering None) = []"
| "sprintValue (VSelfRendering (Some s)) = s"
| "sprintValue (VOther s) = s"

definition formatFieldValue :: "goValue \<Rightarrow> string" where
  "formatFieldValue v = (case v of VNil \<Rightarrow> [] | _ \<Rightarrow> sprintValue v)"

subsection \<open>Types and their naming vocabulary\<close>

record fieldMeta =
  label :: string
  wire :: string

record goType =
  goTypeName :: string
  labelPlan :: "string \<Rightarrow> fieldMeta"

definition resolveLabelKey :: "goType option \<Rightarrow> string \<Rightarrow> string" where
  "resolveLabelKey t fieldName =
     (case t of None \<Rightarrow> []
      | Some rt \<Rightarrow> if fieldName = [] then [] else label (labelPlan rt fieldName))"

definition resolveNotifyAs :: "goType option \<Rightarrow> string \<Rightarrow> string" where
  "resolveNotifyAs t fieldName =
     (case t of None \<Rightarrow> []
      | Some rt \<Rightarrow> if fieldName = [] then [] else wire (labelPlan rt fieldName))"

subsection \<open>Contexts\<close>

record NotificationContext =
  ctxName :: string
  messages :: "NotificationMessage list"
  contextVars :: "(string \<rightharpoonup> string) option"
  entityType :: "goType option"

datatype ctxView = RootCtx | ScopedCtx (viewPrefix: "PathSegment list") (viewType: "goType option")

definition NewNotificationContext :: "string \<Rightarrow> NotificationContext" where
  "NewNotificationContext name =
     \<lparr>ctxName = name, messages = [], contextVars = None, entityType = None\<rparr>"

definition Messages :: "NotificationContext \<Rightarrow> NotificationMessage list" where
  "Messages root = messages root"

definition HasErrors :: "NotificationContext \<Rightarrow> bool" where
  "HasErrors root \<longleftrightarrow> messages root \<noteq> []"

definition Clear :: "NotificationContext \<Rightarrow> NotificationContext" where
  "Clear root = root\<lparr>messages := []\<rparr>"

definition appendMessage :: "NotificationMessage \<Rightarrow> NotificationContext \<Rightarrow> NotificationContext" where
  "appendMessage msg root = root\<lparr>messages := messages root @ [msg]\<rparr>"

fun AddNotificationMessage ::
  "ctxView option \<Rightarrow> NotificationMessage \<Rightarrow> NotificationContext \<Rightarrow> NotificationContext" where
  "AddNotificationMessage None msg root = root"
| "AddNotificationMessage (Some RootCtx) msg root = appendMessage msg root"
| "AddNotificationMessage (Some (ScopedCtx prefix t)) msg root =
     appendMessage
       (if prefix \<noteq> [] \<and> Path msg \<noteq> [] then msg\<lparr>Path := prefix @ Path msg\<rparr> else msg) root"

text \<open>The type whose vocabulary a view resolves names against.\<close>

fun viewEntityType :: "ctxView \<Rightarrow> NotificationContext \<Rightarrow> goType option" where
  "viewEntityType RootCtx root = entityType root"
| "viewEntityType (ScopedCtx prefix t) root = t"

definition AddNotificationNamed ::
  "ctxView option \<Rightarrow> string \<Rightarrow> Notification \<Rightarrow> goValue option \<Rightarrow>
   NotificationContext \<Rightarrow> NotificationContext" where
  "AddNotificationNamed c name n value root =
     (let t = (case c of None \<Rightarrow> None | Some v \<Rightarrow> viewEntityType v root);
          msg = (message_of n)\<lparr>
            Path := [\<lparr>Name = name, Wire = resolveNotifyAs t name, Index = None\<rparr>],
            LabelKey := resolveLabelKey t name,
            FieldValue := (case value of None \<Rightarrow> [] | Some v \<Rightarrow> formatFieldValue v)\<rparr>
      in AddNotificationMessage c msg root)"

definition Scoped :: "PathSegment list \<Rightarrow> ctxView \<Rightarrow> ctxView" where
  "Scoped segments c =
     (if segments = [] then c
      else ScopedCtx ((case c of RootCtx \<Rightarrow> [] | ScopedCtx prefix t \<Rightarrow> prefix) @ segments) None)"

text \<open>\<open>scopedForType\<close> is only called with at least one segment, the first of which is named.\<close>

definition scopedForType ::
  "goType option \<Rightarrow> PathSegment \<Rightarrow> PathSegment list \<Rightarrow> ctxView \<Rightarrow> ctxView" where
  "scopedForType t seg segments c =
     (case Scoped (seg # segments) c of
        RootCtx \<Rightarrow> RootCtx
      | ScopedCtx prefix _ \<Rightarrow> ScopedCtx prefix t)"

definition ChangeFieldName ::
  "string \<Rightarrow> string \<Rightarrow> NotificationContext \<Rightarrow> NotificationContext" where
  "ChangeFieldName oldName newName root =
     root\<lparr>messages := map (\<lambda>m. if ResolveFieldName m = oldName then m\<lparr>Override := newName\<rparr> else m)
                          (messages root)\<rparr>"

text \<open>The inner loop of \<open>applyGoFieldAlias\<close>, over the path from its last segment backwards.\<close>

fun aliasLeafRev :: "string \<Rightarrow> string \<Rightarrow> PathSegment list \<Rightarrow> PathSegment list" where
  "aliasLeafRev goName wireName [] = []"
| "aliasLeafRev goName wireName (seg # segs) =
     (case Index seg of
        Some _ \<Rightarrow> seg # aliasLeafRev goName wireName segs
      | None \<Rightarrow> (if Name seg = goName then seg\<lparr>Wire := wireName\<rparr> else seg) # segs)"

definition aliasMessage :: "string \<Rightarrow> string \<Rightarrow> NotificationMessage \<Rightarrow> NotificationMessage" where
  "aliasMessage goName wireName m =
     m\<lparr>Path := rev (aliasLeafRev goName wireName (rev (Path m)))\<rparr>"

definition applyGoFieldAlias ::
  "string \<Rightarrow> string \<Rightarrow> NotificationContext \<Rightarrow> NotificationContext" where
  "applyGoFieldAlias goName wireName root =
     root\<lparr>messages := map (aliasMessage goName wireName) (messages root)\<rparr>"

text \<open>Only single-segment named emissions are backfilled; a label already resolved is kept.\<close>

definition resolvePending :: "goType option \<Rightarrow> NotificationMessage \<Rightarrow> NotificationMessage" where
  "resolvePending t msg =
     (case Path msg of
        [seg] \<Rightarrow>
          if Name seg = [] then msg
          else msg\<lparr>LabelKey := (if LabelKey msg = [] then resolveLabelKey t (Name seg) else LabelKey msg),
                   Path := [if Wire seg = [] then seg\<lparr>Wire := resolveNotifyAs t (Name seg)\<rparr> else seg]\<rparr>
      | _ \<Rightarrow> msg)"

definition resolvePendingLabels :: "NotificationContext \<Rightarrow> NotificationContext" where
  "resolvePendingLabels root =
     (if entityType root = None then root
      else root\<lparr>messages := map (resolvePending (entityType root)) (messages root)\<rparr>)"

definition SetVars :: "(string \<rightharpoonup> string) \<Rightarrow> NotificationContext \<Rightarrow> NotificationContext" where
  "SetVars vars root =
     root\<lparr>contextVars := (if vars = Map.empty then None else Some vars)\<rparr>"

definition Copy :: "string option \<Rightarrow> NotificationContext \<Rightarrow> NotificationContext" where
  "Copy newContext root =
     \<lparr>ctxName = (case newContext of
          Some n \<Rightarrow> if n \<noteq> [] then n else ctxName root | None \<Rightarrow> ctxName root),
      messages = messages root, contextVars = None, entityType = None\<rparr>"

subsection \<open>Domain errors and results\<close>

type_synonym DomainError = "NotificationContext list"

definition DomainError_HasErrors :: "DomainError \<Rightarrow> bool" where
  "DomainError_HasErrors contexts \<longleftrightarrow> list_ex HasErrors contexts"

definition NewDomainErrorWith :: "string \<Rightarrow> NotificationMessage \<Rightarrow> DomainError" where
  "NewDomainErrorWith contextName msg =
     [AddNotificationMessage (Some RootCtx) msg (NewNotificationContext contextName)]"

definition SingleNotificationError :: "string \<Rightarrow> string \<Rightarrow> Notification \<Rightarrow> DomainError" where
  "SingleNotificationError contextName fieldName n =
     NewDomainErrorWith contextName ((message_of n)\<lparr>Override := fieldName\<rparr>)"

definition NotFoundError :: "string \<Rightarrow> string \<Rightarrow> string \<Rightarrow> DomainError" where
  "NotFoundError contextName fieldName fieldValue =
     NewDomainErrorWith contextName
       ((message_of (kernelNotification ''RecordNotFoundNotification''))
          \<lparr>Override := fieldName, FieldValue := fieldValue\<rparr>)"

definition FieldErrorWithCause ::
  "string \<Rightarrow> string \<Rightarrow> string \<Rightarrow> Notification \<Rightarrow> DomainError" where
  "FieldErrorWithCause contextName fieldName cause n =
     NewDomainErrorWith contextName ((message_of n)\<lparr>Override := fieldName, Err := Some cause\<rparr>)"

subsection \<open>Emission as an interface\<close>

text \<open>
  Every place that accepts messages promises the same law: emitting appends exactly one
  message, placed the way that place places messages. What the rules engine needs of a
  context is proved here once.
\<close>

locale message_sink =
  fixes emit :: "NotificationMessage \<Rightarrow> 's \<Rightarrow> 's"
    and stored :: "'s \<Rightarrow> NotificationMessage list"
    and place :: "NotificationMessage \<Rightarrow> NotificationMessage"
  assumes stored_emit: "stored (emit m s) = stored s @ [place m]"
begin

lemma stored_emit_all: "stored (fold emit ms s) = stored s @ map place ms"
  by (induction ms arbitrary: s) (simp_all add: stored_emit)

lemma emit_has_errors: "stored (emit m s) \<noteq> []"
  by (simp add: stored_emit)

lemma emit_all_has_errors: "stored (fold emit ms s) = [] \<longleftrightarrow> stored s = [] \<and> ms = []"
  by (simp add: stored_emit_all)

end

definition placeIn :: "ctxView \<Rightarrow> NotificationMessage \<Rightarrow> NotificationMessage" where
  "placeIn v m =
     (case v of RootCtx \<Rightarrow> m
      | ScopedCtx prefix t \<Rightarrow> if prefix \<noteq> [] \<and> Path m \<noteq> [] then m\<lparr>Path := prefix @ Path m\<rparr> else m)"

lemma messages_AddNotificationMessage [simp]:
  "messages (AddNotificationMessage (Some v) m root) = messages root @ [placeIn v m]"
  by (cases v) (simp_all add: placeIn_def appendMessage_def)

interpretation view_sink: message_sink "AddNotificationMessage (Some v)" messages "placeIn v"
  for v
  by unfold_locales simp

lemma AddNotificationMessage_frame [simp]:
  "ctxName (AddNotificationMessage c m root) = ctxName root"
  "contextVars (AddNotificationMessage c m root) = contextVars root"
  "entityType (AddNotificationMessage c m root) = entityType root"
  by (cases "(c, m, root)" rule: AddNotificationMessage.cases; simp add: appendMessage_def)+

lemma AddNotificationNamed_messages:
  "\<exists>m. AddNotificationNamed (Some v) name n value root = AddNotificationMessage (Some v) m root
       \<and> MsgNotification m = n \<and> map Name (Path m) = [name]"
  by (auto simp: AddNotificationNamed_def message_of_def Let_def)

subsection \<open>Nested scopes\<close>

fun scopes :: "PathSegment list list \<Rightarrow> ctxView \<Rightarrow> ctxView" where
  "scopes [] c = c"
| "scopes (segs # rest) c = scopes rest (Scoped segs c)"

lemma Scoped_prefix:
  "(case Scoped segs c of RootCtx \<Rightarrow> [] | ScopedCtx p t \<Rightarrow> p) =
   (case c of RootCtx \<Rightarrow> [] | ScopedCtx p t \<Rightarrow> p) @ segs"
  by (cases c) (simp_all add: Scoped_def)

lemma scopes_prefix:
  "(case scopes ss c of RootCtx \<Rightarrow> [] | ScopedCtx p t \<Rightarrow> p) =
   (case c of RootCtx \<Rightarrow> [] | ScopedCtx p t \<Rightarrow> p) @ concat ss"
  by (induction ss arbitrary: c) (simp_all add: Scoped_prefix)

lemma placeIn_prefix:
  "placeIn v m = (if Path m = [] then m
     else m\<lparr>Path := (case v of RootCtx \<Rightarrow> [] | ScopedCtx p t \<Rightarrow> p) @ Path m\<rparr>)"
  by (cases v) (simp_all add: placeIn_def)

subsection \<open>Aliases\<close>

lemma aliasLeafRev_commute:
  "a \<noteq> b \<Longrightarrow>
   aliasLeafRev a u (aliasLeafRev b w p) = aliasLeafRev b w (aliasLeafRev a u p)"
  by (induction p) (auto split: option.splits)

lemma aliasMessage_commute:
  "a \<noteq> b \<Longrightarrow> aliasMessage a u (aliasMessage b w m) = aliasMessage b w (aliasMessage a u m)"
  by (simp add: aliasMessage_def aliasLeafRev_commute)

lemma applyGoFieldAlias_commute:
  "a \<noteq> b \<Longrightarrow>
   applyGoFieldAlias a u (applyGoFieldAlias b w c) = applyGoFieldAlias b w (applyGoFieldAlias a u c)"
  by (simp add: applyGoFieldAlias_def aliasMessage_commute comp_def)

lemma applyGoFieldAlias_messages_Nil [simp]:
  "messages (applyGoFieldAlias a u c) = [] \<longleftrightarrow> messages c = []"
  by (simp add: applyGoFieldAlias_def)

lemma aliasMessage_frame [simp]:
  "Override (aliasMessage a u m) = Override m"
  "MsgNotification (aliasMessage a u m) = MsgNotification m"
  "FieldValue (aliasMessage a u m) = FieldValue m"
  "LabelKey (aliasMessage a u m) = LabelKey m"
  by (simp_all add: aliasMessage_def)

end
