(* ===== verification/Entity_Model.thy ===== *)
theory Entity_Model
  imports Notification
begin

section \<open>Entities: managed columns, aggregate children, the entity state\<close>

text \<open>
  Model of \<^verbatim>\<open>src/domain/id.go\<close>, \<^verbatim>\<open>managed.go\<close>, \<^verbatim>\<open>mode.go\<close>,
  \<^verbatim>\<open>aggregate_status.go\<close>, \<^verbatim>\<open>aggregate_item.go\<close>, \<^verbatim>\<open>aggregate_identity.go\<close>,
  \<^verbatim>\<open>aggregate_collection.go\<close>, and of the state and the small methods of \<^verbatim>\<open>BaseEntity\<close> in
  \<^verbatim>\<open>entity_base.go\<close>.

  The embedding \<^verbatim>\<open>BaseEntity\<close> in \<^verbatim>\<open>AggregateRoot\<close> in a consumer's struct is a chain of
  record extensions: \<open>BaseEntity\<close>, \<open>AggregateRoot\<close> (adds the tracked children) and
  \<open>Entity\<close> (adds the consumer's own fields, of any type \<open>'d\<close>). Instants are integers
  (nanoseconds). Parsing of UUIDs (\<^verbatim>\<open>github.com/google/uuid\<close>) and the Unicode tables
  beyond ASCII are parameters.
\<close>

subsection \<open>Identity\<close>

text \<open>An \<open>ID\<close> wraps a string; \<open>parseUUID s\<close> is the error text of \<^verbatim>\<open>uuid.Parse\<close>, if any.\<close>

type_synonym ID = string

definition ID_IsEmpty :: "ID \<Rightarrow> bool" where
  "ID_IsEmpty i \<longleftrightarrow> i = []"

definition IsUUID :: "(string \<Rightarrow> string option) \<Rightarrow> ID \<Rightarrow> bool" where
  "IsUUID parseUUID i \<longleftrightarrow> parseUUID i = None"

definition ID_IsValid ::
  "(string \<Rightarrow> string option) \<Rightarrow> ID \<Rightarrow> string \<Rightarrow> ctxView option \<Rightarrow> NotificationContext \<Rightarrow>
   bool \<times> NotificationContext" where
  "ID_IsValid parseUUID i fieldName ctx root =
     (case parseUUID i of
        Some err \<Rightarrow>
          (False, AddNotificationMessage ctx
             ((message_of (kernelNotification ''InvalidIDUUIDNotification''))
                \<lparr>Path := [NameSegment fieldName], FieldValue := i, Err := Some err\<rparr>) root)
      | None \<Rightarrow> (True, root))"

subsection \<open>Managed columns and stamp requests\<close>

datatype StampOp = StampFill | StampToNull | StampToEmpty

record StampRequest =
  Field :: string
  Op :: StampOp

record Managed =
  mid :: "ID option"
  revision :: int
  createdAt :: "int option"
  updatedAt :: "int option"
  archivedAt :: "int option"
  stamps :: "StampRequest list"

definition newManaged :: Managed where
  "newManaged = \<lparr>mid = None, revision = 0, createdAt = None, updatedAt = None,
                 archivedAt = None, stamps = []\<rparr>"

definition stampAs :: "string \<Rightarrow> StampOp \<Rightarrow> Managed \<Rightarrow> Managed" where
  "stampAs goField op m =
     (case update_first (\<lambda>s. Field s = goField) (\<lambda>s. s\<lparr>Op := op\<rparr>) (stamps m) of
        Some ss \<Rightarrow> m\<lparr>stamps := ss\<rparr>
      | None \<Rightarrow> m\<lparr>stamps := stamps m @ [\<lparr>Field = goField, Op = op\<rparr>]\<rparr>)"

definition Stamp :: "string \<Rightarrow> Managed \<Rightarrow> Managed" where
  "Stamp goField = stampAs goField StampFill"

definition StampNull :: "string \<Rightarrow> Managed \<Rightarrow> Managed" where
  "StampNull goField = stampAs goField StampToNull"

definition StampEmpty :: "string \<Rightarrow> Managed \<Rightarrow> Managed" where
  "StampEmpty goField = stampAs goField StampToEmpty"

definition Managed_GetID :: "Managed \<Rightarrow> ID" where
  "Managed_GetID m = (case mid m of None \<Rightarrow> [] | Some i \<Rightarrow> i)"

definition SetID :: "ID \<Rightarrow> Managed \<Rightarrow> Managed" where
  "SetID i m = m\<lparr>mid := Some i\<rparr>"

definition ClearID :: "Managed \<Rightarrow> Managed" where
  "ClearID m = m\<lparr>mid := None\<rparr>"

definition setManagedColumns ::
  "int \<Rightarrow> int option \<Rightarrow> int option \<Rightarrow> int option \<Rightarrow> Managed \<Rightarrow> Managed" where
  "setManagedColumns r c u a m =
     m\<lparr>revision := r, createdAt := c, updatedAt := u, archivedAt := a\<rparr>"

definition StampFields :: "StampRequest list \<Rightarrow> string list" where
  "StampFields reqs = map Field reqs"

subsection \<open>Modes\<close>

datatype EntityMode =
  ModeUnknown | ModeDisplay | ModeInsert | ModeUpdate | ModeDelete | ModeArchive | ModeUnarchive

fun modeString :: "EntityMode \<Rightarrow> string" where
  "modeString ModeDisplay = ''DISPLAY''"
| "modeString ModeInsert = ''INSERT''"
| "modeString ModeUpdate = ''UPDATE''"
| "modeString ModeDelete = ''DELETE''"
| "modeString ModeArchive = ''ARCHIVE''"
| "modeString ModeUnarchive = ''UNARCHIVE''"
| "modeString ModeUnknown = ''UNKNOWN''"

definition modeIsValid :: "EntityMode \<Rightarrow> bool" where
  "modeIsValid m \<longleftrightarrow> m \<noteq> ModeUnknown"

subsection \<open>Child statuses and the operation they resolve to\<close>

datatype AggregateItemStatus =
  StatusUnknown | StatusConstructor | StatusAdded | StatusChanged | StatusRemoved

datatype AggregateItemOp = OpNoop | OpInsert | OpUpdate | OpDelete

definition OperationOf :: "AggregateItemStatus \<Rightarrow> AggregateItemStatus \<Rightarrow> AggregateItemOp" where
  "OperationOf original current =
     (if original \<noteq> StatusConstructor then
        (if current \<noteq> StatusRemoved then OpInsert else OpNoop)
      else (case current of
              StatusAdded \<Rightarrow> OpUpdate
            | StatusChanged \<Rightarrow> OpUpdate
            | StatusRemoved \<Rightarrow> OpDelete
            | _ \<Rightarrow> OpNoop))"

record 'a AggregateItem =
  Item :: 'a
  OriginalStatus :: AggregateItemStatus
  CurrentStatus :: AggregateItemStatus

definition NewAggregateItem :: "'a \<Rightarrow> AggregateItemStatus \<Rightarrow> 'a AggregateItem" where
  "NewAggregateItem x status = \<lparr>Item = x, OriginalStatus = status, CurrentStatus = status\<rparr>"

definition FilterByStatus :: "'a AggregateItem list \<Rightarrow> AggregateItemStatus \<Rightarrow> 'a list" where
  "FilterByStatus items status = map Item (filter (\<lambda>it. CurrentStatus it = status) items)"

definition GetCurrentItems :: "'a AggregateItem list \<Rightarrow> 'a list" where
  "GetCurrentItems items = map Item (filter (\<lambda>it. CurrentStatus it \<noteq> StatusRemoved) items)"

definition filterByOp :: "'a AggregateItem list \<Rightarrow> AggregateItemOp \<Rightarrow> 'a list" where
  "filterByOp items op =
     map Item (filter (\<lambda>it. OperationOf (OriginalStatus it) (CurrentStatus it) = op) items)"

definition GetAddedItems :: "'a AggregateItem list \<Rightarrow> 'a list" where
  "GetAddedItems items = filterByOp items OpInsert"

definition GetChangedItems :: "'a AggregateItem list \<Rightarrow> 'a list" where
  "GetChangedItems items = filterByOp items OpUpdate"

definition GetRemovedItems :: "'a AggregateItem list \<Rightarrow> 'a list" where
  "GetRemovedItems items = filterByOp items OpDelete"

subsection \<open>Aggregate value objects\<close>

text \<open>
  A child travels as an interface value: its Go type name, whether the interface holds a
  struct by value (the convention) or a pointer, the embedded carrier, and its own fields in
  declaration order with their visibility. Every child embeds \<^verbatim>\<open>domain.Managed\<close>, the contract
  the source relies on in \<^verbatim>\<open>withItemID\<close>.
\<close>

record 'v structField =
  fieldName :: string
  fieldExported :: bool
  fieldVal :: 'v

record 'v avo =
  avoClass :: string
  avoStruct :: bool
  avoManaged :: Managed
  avoFields :: "'v structField list"

definition avo_GetID :: "'v avo \<Rightarrow> ID" where
  "avo_GetID a = Managed_GetID (avoManaged a)"

text \<open>
  The field loop of \<open>IsSameByBusinessFields\<close>. Two values of one Go type have the same
  field list up to the values, so the loop over the field index walks both lists together.
\<close>

fun sameFields :: "'v structField list \<Rightarrow> 'v structField list \<Rightarrow> bool" where
  "sameFields [] [] = True"
| "sameFields (f # fs) (g # gs) =
     (fieldName f = fieldName g \<and> fieldExported f = fieldExported g \<and>
      (fieldExported f \<longrightarrow> fieldVal f = fieldVal g) \<and> sameFields fs gs)"
| "sameFields _ _ = False"

definition IsSameByBusinessFields :: "'v avo \<Rightarrow> 'v avo \<Rightarrow> bool" where
  "IsSameByBusinessFields a b =
     (if avoClass a \<noteq> avoClass b \<or> avoStruct a \<noteq> avoStruct b then False
      else if \<not> avoStruct a then a = b
      else sameFields (avoFields a) (avoFields b))"

text \<open>
  \<open>withItemMutation\<close>: the copy, handed to a mutation that reports whether it could act.
\<close>

definition withItemMutation :: "('v avo \<Rightarrow> 'v avo option) \<Rightarrow> 'v avo \<Rightarrow> 'v avo option" where
  "withItemMutation mutate a = (if \<not> avoStruct a then None else mutate a)"

definition withItemID :: "ID \<Rightarrow> 'v avo \<Rightarrow> 'v avo option" where
  "withItemID i = withItemMutation (\<lambda>a. Some (a\<lparr>avoManaged := SetID i (avoManaged a)\<rparr>))"

subsection \<open>Collection names\<close>

text \<open>
  Ranging over a Go string decodes UTF-8; a malformed byte is the rune \<open>65533\<close> of width one.
\<close>

definition contByte :: "nat \<Rightarrow> nat \<Rightarrow> nat \<Rightarrow> bool" where
  "contByte lo hi b \<longleftrightarrow> lo \<le> b \<and> b \<le> hi"

fun decodeRunes :: "nat list \<Rightarrow> nat list" where
  "decodeRunes [] = []"
| "decodeRunes (b # bs) =
     (if b < 128 then b # decodeRunes bs
      else (case bs of
        b1 # r1 \<Rightarrow>
          if 194 \<le> b \<and> b \<le> 223 \<and> contByte 128 191 b1
          then ((b - 192) * 64 + (b1 - 128)) # decodeRunes r1
          else (case r1 of
            b2 # r2 \<Rightarrow>
              if 224 \<le> b \<and> b \<le> 239 \<and>
                 contByte (if b = 224 then 160 else 128) (if b = 237 then 159 else 191) b1 \<and>
                 contByte 128 191 b2
              then ((b - 224) * 4096 + (b1 - 128) * 64 + (b2 - 128)) # decodeRunes r2
              else (case r2 of
                b3 # r3 \<Rightarrow>
                  if 240 \<le> b \<and> b \<le> 244 \<and>
                     contByte (if b = 240 then 144 else 128) (if b = 244 then 143 else 191) b1 \<and>
                     contByte 128 191 b2 \<and> contByte 128 191 b3
                  then ((b - 240) * 262144 + (b1 - 128) * 4096 + (b2 - 128) * 64 + (b3 - 128))
                       # decodeRunes r3
                  else 65533 # decodeRunes bs
              | [] \<Rightarrow> 65533 # decodeRunes bs)
          | [] \<Rightarrow> 65533 # decodeRunes bs)
      | [] \<Rightarrow> [65533]))"

text \<open>
  \<^verbatim>\<open>unicode.IsLetter(r) || unicode.IsDigit(r)\<close>: exact on ASCII, the parameter \<open>wide\<close> above it.
\<close>

definition isLetterOrDigit :: "(nat \<Rightarrow> bool) \<Rightarrow> nat \<Rightarrow> bool" where
  "isLetterOrDigit wide r \<longleftrightarrow>
     (if r < 128 then (48 \<le> r \<and> r \<le> 57) \<or> (65 \<le> r \<and> r \<le> 90) \<or> (97 \<le> r \<and> r \<le> 122) else wide r)"

definition validateCollectionName :: "(nat \<Rightarrow> bool) \<Rightarrow> string \<Rightarrow> string option" where
  "validateCollectionName wide name =
     (case decodeRunes (map of_char name) of
        [] \<Rightarrow> Some ''the name is empty''
      | r # rs \<Rightarrow>
          if r < 65 \<or> 90 < r then Some ''it must start with an ASCII uppercase letter (A-Z)''
          else if \<exists>c\<in>set rs. \<not> isLetterOrDigit wide c then Some ''not a letter or a digit''
          else None)"

text \<open>
  What the framework is given about the consumer's child types: the collection name each
  declares, the Unicode tables, and the identity the type declares.
\<close>

record 'v avoEnv =
  declaredName :: "string \<Rightarrow> string"
  wideAlnum :: "nat \<Rightarrow> bool"
  IsSameBusinessIdentity :: "'v avo \<Rightarrow> 'v avo \<Rightarrow> bool"

definition CollectionSegmentOf :: "'v avoEnv \<Rightarrow> string \<Rightarrow> gopanic + string" where
  "CollectionSegmentOf env cls =
     (case validateCollectionName (wideAlnum env) (declaredName env cls) of
        Some err \<Rightarrow> Inl (''domain.CollectionSegmentOf: '' @ cls @ '' '' @ err)
      | None \<Rightarrow> Inr (declaredName env cls))"

definition childCollectionSegment :: "'v avoEnv \<Rightarrow> string \<Rightarrow> gopanic + string" where
  "childCollectionSegment env cls =
     bind_panic (CollectionSegmentOf env cls) (\<lambda>n. Inr (toLowerCamel n))"

definition childFieldPath :: "'v avoEnv \<Rightarrow> 'v avo \<Rightarrow> gopanic + PathSegment list" where
  "childFieldPath env a =
     bind_panic (CollectionSegmentOf env (avoClass a)) (\<lambda>n. Inr [NameSegment n])"

subsection \<open>The entity state\<close>

record 'v aggregateItemEntry =
  item :: "'v avo"
  originalStatus :: AggregateItemStatus
  currentStatus :: AggregateItemStatus

type_synonym 'v aggregateMap = "string \<rightharpoonup> 'v aggregateItemEntry list"

text \<open>The snapshot behind \<^verbatim>\<open>Old()\<close>: the exported fields and, for a root, its children.\<close>

record ('v, 'd) ghost =
  ghostData :: 'd
  ghostAggregates :: "'v aggregateMap option"

record DomainEvent =
  evType :: nat
  evClass :: string
  evMsg :: string

text \<open>
  \<open>contexts\<close> are the contexts attached by \<^verbatim>\<open>AddNotificationContext\<close>; \<open>aliases\<close> is a Go map,
  kept in insertion order (the order in which it is ranged over is shown not to matter).
\<close>

record ('v, 'd) BaseEntity =
  managed :: Managed
  mode :: EntityMode
  service :: "string option"
  notifCtx :: "NotificationContext option"
  contexts :: "NotificationContext list"
  events :: "DomainEvent list"
  avos :: "(string \<times> 'v avo) list"
  old :: "('v, 'd) ghost option"
  aliases :: "(string \<times> string) list option"
  className :: string
  requestedMode :: EntityMode
  rulesWindow :: bool

record ('v, 'd) AggregateRoot = "('v, 'd) BaseEntity" +
  aggregates :: "'v aggregateMap option"

record ('v, 'd) Entity = "('v, 'd) AggregateRoot" +
  data :: 'd

definition ensureContext :: "('v, 'd, 'z) BaseEntity_scheme \<Rightarrow> ('v, 'd, 'z) BaseEntity_scheme" where
  "ensureContext b =
     (let b1 = (case notifCtx b of
                  None \<Rightarrow> b\<lparr>notifCtx := Some (NewNotificationContext []), mode := ModeDisplay\<rparr>
                | Some _ \<Rightarrow> b)
      in case aliases b1 of None \<Rightarrow> b1\<lparr>aliases := Some []\<rparr> | Some _ \<Rightarrow> b1)"

text \<open>The context \<^verbatim>\<open>NotificationContext()\<close> returns, and writing through that pointer.\<close>

definition theContext :: "('v, 'd, 'z) BaseEntity_scheme \<Rightarrow> NotificationContext" where
  "theContext b = (case notifCtx b of None \<Rightarrow> NewNotificationContext [] | Some c \<Rightarrow> c)"

definition onContext ::
  "(NotificationContext \<Rightarrow> NotificationContext) \<Rightarrow>
   ('v, 'd, 'z) BaseEntity_scheme \<Rightarrow> ('v, 'd, 'z) BaseEntity_scheme" where
  "onContext f b = (let b1 = ensureContext b in b1\<lparr>notifCtx := Some (f (theContext b1))\<rparr>)"

definition entity_AddNotificationMessage ::
  "NotificationMessage \<Rightarrow> ('v, 'd, 'z) BaseEntity_scheme \<Rightarrow> ('v, 'd, 'z) BaseEntity_scheme" where
  "entity_AddNotificationMessage msg = onContext (AddNotificationMessage (Some RootCtx) msg)"

definition AddNotificationContext ::
  "NotificationContext \<Rightarrow> ('v, 'd, 'z) BaseEntity_scheme \<Rightarrow> ('v, 'd, 'z) BaseEntity_scheme" where
  "AddNotificationContext c b = b\<lparr>contexts := contexts b @ [c]\<rparr>"

definition ValidateAggregateValueObject ::
  "string \<Rightarrow> 'v avo \<Rightarrow> ('v, 'd, 'z) BaseEntity_scheme \<Rightarrow> ('v, 'd, 'z) BaseEntity_scheme" where
  "ValidateAggregateValueObject name a b = b\<lparr>avos := avos b @ [(name, a)]\<rparr>"

definition RegisterEvent ::
  "DomainEvent \<Rightarrow> ('v, 'd, 'z) BaseEntity_scheme \<Rightarrow> ('v, 'd, 'z) BaseEntity_scheme" where
  "RegisterEvent e b = b\<lparr>events := events b @ [e]\<rparr>"

text \<open>Assignment to a Go map held as an association list with distinct keys.\<close>

fun assignAlias :: "string \<Rightarrow> string \<Rightarrow> (string \<times> string) list \<Rightarrow> (string \<times> string) list" where
  "assignAlias k v [] = [(k, v)]"
| "assignAlias k v ((k', v') # kvs) =
     (if k = k' then (k, v) # kvs else (k', v') # assignAlias k v kvs)"

definition AddFieldNameAlias ::
  "string \<Rightarrow> string \<Rightarrow> ('v, 'd, 'z) BaseEntity_scheme \<Rightarrow> ('v, 'd, 'z) BaseEntity_scheme" where
  "AddFieldNameAlias goFieldName wireName b =
     b\<lparr>aliases := Some (assignAlias goFieldName wireName
                         (case aliases b of None \<Rightarrow> [] | Some kvs \<Rightarrow> kvs))\<rparr>"

definition initWithName ::
  "string \<Rightarrow> goType \<Rightarrow> ('v, 'd, 'z) BaseEntity_scheme \<Rightarrow> ('v, 'd, 'z) BaseEntity_scheme" where
  "initWithName name t b =
     (let b1 = ensureContext b in
      if className b1 \<noteq> [] then b1
      else (let b2 = b1\<lparr>className := name\<rparr> in
            b2\<lparr>notifCtx := Some (resolvePendingLabels
                 ((theContext b2)\<lparr>ctxName := name, entityType := Some t\<rparr>))\<rparr>))"

definition resetEntity ::
  "('v, 'd, 'z) BaseEntity_scheme \<Rightarrow> ('v, 'd, 'z) BaseEntity_scheme" where
  "resetEntity b =
     b\<lparr>events := [], avos := [], contexts := [], mode := ModeDisplay, service := None\<rparr>"

definition windowState :: "bool \<Rightarrow> string" where
  "windowState open = (if open then ''open'' else ''closed'')"

definition completionMisuse :: "('v, 'd, 'z) BaseEntity_scheme \<Rightarrow> gopanic" where
  "completionMisuse b =
     ''domain.CompleteAsArchive on '' @ className b @ '': called with mode='' @ modeString (mode b)
     @ '' and the rules window '' @ windowState (rulesWindow b)"

definition CompleteAsArchive ::
  "('v, 'd, 'z) BaseEntity_scheme \<Rightarrow> gopanic + ('v, 'd, 'z) BaseEntity_scheme" where
  "CompleteAsArchive b =
     (if \<not> rulesWindow b \<or> mode b \<noteq> ModeUpdate then Inl (completionMisuse b)
      else Inr (b\<lparr>requestedMode := ModeArchive\<rparr>))"

definition takeRequestedMode ::
  "('v, 'd, 'z) BaseEntity_scheme \<Rightarrow> EntityMode \<times> ('v, 'd, 'z) BaseEntity_scheme" where
  "takeRequestedMode b = (requestedMode b, b\<lparr>requestedMode := ModeUnknown\<rparr>)"

subsection \<open>Lemmas: stamps\<close>

lemma stampAs_stamps:
  "map Field (stamps (stampAs f op m)) =
     (if f \<in> Field ` set (stamps m) then map Field (stamps m) else map Field (stamps m) @ [f])"
proof (cases "update_first (\<lambda>s. Field s = f) (\<lambda>s. s\<lparr>Op := op\<rparr>) (stamps m)")
  case None
  have "f \<notin> Field ` set (stamps m)" using None by auto
  then show ?thesis unfolding stampAs_def None by simp
next
  case (Some ss)
  from update_first_map [OF Some, of Field] have "map Field ss = map Field (stamps m)" by simp
  moreover from Some have "f \<in> Field ` set (stamps m)" by (auto elim!: update_first_SomeE)
  ultimately show ?thesis using Some by (simp add: stampAs_def)
qed

definition stampOf :: "Managed \<Rightarrow> string \<Rightarrow> StampOp option" where
  "stampOf m f = map_option Op (List.find (\<lambda>s. Field s = f) (stamps m))"

lemma find_append:
  "List.find P (xs @ ys) = (case List.find P xs of None \<Rightarrow> List.find P ys | Some x \<Rightarrow> Some x)"
  by (induction xs) simp_all

lemma find_None_all: "(\<forall>x\<in>set xs. \<not> P x) \<Longrightarrow> List.find P xs = None"
  by (simp add: find_None_iff)

lemma stampOf_stampAs: "stampOf (stampAs f op m) g = (if g = f then Some op else stampOf m g)"
proof (cases "update_first (\<lambda>s. Field s = f) (\<lambda>s. s\<lparr>Op := op\<rparr>) (stamps m)")
  case None
  have "List.find (\<lambda>s. Field s = f) (stamps m) = None" using None by (auto intro: find_None_all)
  then show ?thesis
    unfolding stampAs_def stampOf_def None by (auto simp: find_append split: option.splits)
next
  case (Some ss)
  then obtain pre x post where x: "stamps m = pre @ x # post" "ss = pre @ x\<lparr>Op := op\<rparr> # post"
    "Field x = f" "\<forall>y\<in>set pre. Field y \<noteq> f" by (auto elim!: update_first_SomeE)
  with Some show ?thesis
    by (auto simp: stampAs_def stampOf_def find_append find_None_all split: option.splits)
qed

end
