(* ===== verification/Aggregate.thy ===== *)
theory Aggregate
  imports Entity_Model
begin

section \<open>The aggregate tracker\<close>

text \<open>
  Model of \<^verbatim>\<open>src/domain/aggregate_root.go\<close>: the per-type lists of tracked children, the
  unchecked mutators, the typed primitives that consult the declared child types, the id
  write-back, and the readers the persister uses.

  A mutator returns the updated root, or the panic that a missing declaration raises. An
  interface value that may be \<^verbatim>\<open>nil\<close> is an option. The consumer's identity
  \<^verbatim>\<open>IsSameBusinessIdentity\<close> is a field of the environment; the laws its documentation asks of it
  are the locale \<open>business_identity\<close>, interpreted on the identity the framework ships,
  \<open>IsSameByBusinessFields\<close>. Deep equality of field values is equality of the value type \<open>'v\<close>.
\<close>

subsection \<open>The tracked lists\<close>

definition ensureAggregates ::
  "('v, 'd, 'z) AggregateRoot_scheme \<Rightarrow> ('v, 'd, 'z) AggregateRoot_scheme" where
  "ensureAggregates ar =
     (case aggregates ar of None \<Rightarrow> ar\<lparr>aggregates := Some Map.empty\<rparr> | Some _ \<Rightarrow> ar)"

text \<open>Indexing the map (a missing key, or a nil map, reads as the empty list) and assigning to it.\<close>

definition entriesOf ::
  "('v, 'd, 'z) AggregateRoot_scheme \<Rightarrow> string \<Rightarrow> 'v aggregateItemEntry list" where
  "entriesOf ar key =
     (case aggregates ar of
        None \<Rightarrow> []
      | Some m \<Rightarrow> (case m key of None \<Rightarrow> [] | Some l \<Rightarrow> l))"

definition setEntries ::
  "string \<Rightarrow> 'v aggregateItemEntry list \<Rightarrow>
   ('v, 'd, 'z) AggregateRoot_scheme \<Rightarrow> ('v, 'd, 'z) AggregateRoot_scheme" where
  "setEntries key l ar =
     ar\<lparr>aggregates := Some ((case aggregates ar of None \<Rightarrow> Map.empty | Some m \<Rightarrow> m)(key \<mapsto> l))\<rparr>"

definition entryWith :: "'v avo \<Rightarrow> AggregateItemStatus \<Rightarrow> 'v aggregateItemEntry" where
  "entryWith a s = \<lparr>item = a, originalStatus = s, currentStatus = s\<rparr>"

definition isActive :: "'v aggregateItemEntry \<Rightarrow> bool" where
  "isActive e \<longleftrightarrow> currentStatus e \<noteq> StatusRemoved"

definition isAggregateItemValid ::
  "'v avo option \<Rightarrow> ('v, 'd, 'z) AggregateRoot_scheme \<Rightarrow> bool \<times> ('v, 'd, 'z) AggregateRoot_scheme"
where
  "isAggregateItemValid x ar =
     (case x of
        None \<Rightarrow> (False, entity_AddNotificationMessage
                  (message_of (kernelNotification ''EntityDoesNotExistNotification'')) ar)
      | Some _ \<Rightarrow> (True, ar))"

text \<open>Emitting a notification addressed at a child's collection.\<close>

definition notifyChild ::
  "'v avoEnv \<Rightarrow> 'v avo \<Rightarrow> string \<Rightarrow> ('v, 'd, 'z) AggregateRoot_scheme \<Rightarrow>
   gopanic + ('v, 'd, 'z) AggregateRoot_scheme" where
  "notifyChild env a key ar =
     bind_panic (childFieldPath env a) (\<lambda>p.
       Inr (entity_AddNotificationMessage ((message_of (kernelNotification key))\<lparr>Path := p\<rparr>) ar))"

subsection \<open>Loading\<close>

fun AggregateConstructorLoop ::
  "'v avo option list \<Rightarrow> ('v, 'd, 'z) AggregateRoot_scheme \<Rightarrow> ('v, 'd, 'z) AggregateRoot_scheme"
where
  "AggregateConstructorLoop [] ar = ar"
| "AggregateConstructorLoop (None # xs) ar =
     AggregateConstructorLoop xs (snd (isAggregateItemValid None ar))"
| "AggregateConstructorLoop (Some a # xs) ar =
     AggregateConstructorLoop xs
       (setEntries (avoClass a) (entriesOf ar (avoClass a) @ [entryWith a StatusConstructor]) ar)"

definition AggregateConstructor ::
  "'v avo option list \<Rightarrow> ('v, 'd, 'z) AggregateRoot_scheme \<Rightarrow> ('v, 'd, 'z) AggregateRoot_scheme"
where
  "AggregateConstructor xs ar = AggregateConstructorLoop xs (ensureAggregates ar)"

subsection \<open>Adding\<close>

definition reactivate :: "'v aggregateItemEntry \<Rightarrow> 'v avo \<Rightarrow> 'v aggregateItemEntry" where
  "reactivate e a =
     e\<lparr>item := (let i = avo_GetID (item e) in
                if \<not> ID_IsEmpty i
                then (case withItemID i a of Some stamped \<Rightarrow> stamped | None \<Rightarrow> a)
                else a),
       currentStatus := StatusAdded\<rparr>"

text \<open>
  The loop over the tracked entries: the first entry that matches and whose status the switch
  names decides; an entry of an unknown status is passed over.
\<close>

datatype 'v addOutcome =
  AddAppend | AddDuplicate | AddReactivated "'v aggregateItemEntry list"

fun addLoop ::
  "('v avo \<Rightarrow> 'v avo \<Rightarrow> bool) \<Rightarrow> 'v avo \<Rightarrow> 'v aggregateItemEntry list \<Rightarrow> 'v addOutcome" where
  "addLoop same a [] = AddAppend"
| "addLoop same a (e # es) =
     (let onward = (case addLoop same a es of
                      AddReactivated es' \<Rightarrow> AddReactivated (e # es')
                    | out \<Rightarrow> out)
      in if \<not> same (item e) a then onward
         else (case currentStatus e of
                 StatusAdded \<Rightarrow> AddDuplicate
               | StatusConstructor \<Rightarrow> AddDuplicate
               | StatusRemoved \<Rightarrow> AddReactivated (reactivate e a # es)
               | StatusChanged \<Rightarrow> AddReactivated (reactivate e a # es)
               | StatusUnknown \<Rightarrow> onward))"

definition addAggregateItem ::
  "'v avoEnv \<Rightarrow> 'v avo option \<Rightarrow> ('v, 'd, 'z) AggregateRoot_scheme \<Rightarrow>
   gopanic + ('v, 'd, 'z) AggregateRoot_scheme" where
  "addAggregateItem env x ar =
     (case x of
        None \<Rightarrow> Inr (snd (isAggregateItemValid None ar))
      | Some a \<Rightarrow>
          (let ar1 = ensureAggregates ar;
               key = avoClass a;
               l = entriesOf ar1 key
           in case addLoop (IsSameBusinessIdentity env) a l of
                AddDuplicate \<Rightarrow> notifyChild env a ''EntityAlreadyAddedNotification'' ar1
              | AddReactivated l' \<Rightarrow> Inr (setEntries key l' ar1)
              | AddAppend \<Rightarrow> Inr (setEntries key (l @ [entryWith a StatusAdded]) ar1)))"

subsection \<open>Changing\<close>

text \<open>The one pass: the index of the addressed entry and of the first active collision.\<close>

fun changeScan ::
  "('v avo \<Rightarrow> 'v avo \<Rightarrow> bool) \<Rightarrow> 'v avo \<Rightarrow> 'v avo \<Rightarrow> nat \<Rightarrow> 'v aggregateItemEntry list \<Rightarrow>
   nat option \<times> nat option \<Rightarrow> nat option \<times> nat option" where
  "changeScan same orig repl i [] tc = tc"
| "changeScan same orig repl i (e # es) (t, c) =
     (if t = None \<and> same (item e) orig then changeScan same orig repl (Suc i) es (Some i, c)
      else if c = None \<and> isActive e \<and> same (item e) repl
      then changeScan same orig repl (Suc i) es (t, Some i)
      else changeScan same orig repl (Suc i) es (t, c))"

definition changeAggregateItem ::
  "'v avoEnv \<Rightarrow> 'v avo option \<Rightarrow> 'v avo option \<Rightarrow> ('v, 'd, 'z) AggregateRoot_scheme \<Rightarrow>
   gopanic + ('v, 'd, 'z) AggregateRoot_scheme" where
  "changeAggregateItem env original replacement ar =
     (case original of
        None \<Rightarrow> Inr (snd (isAggregateItemValid None ar))
      | Some orig \<Rightarrow> (case replacement of
          None \<Rightarrow> Inr (snd (isAggregateItemValid None ar))
        | Some repl \<Rightarrow>
            (let ar1 = ensureAggregates ar;
                 key = avoClass orig;
                 l = entriesOf ar1 key
             in case changeScan (IsSameBusinessIdentity env) orig repl 0 l (None, None) of
                  (None, _) \<Rightarrow> notifyChild env orig ''EntityDoesNotExistNotification'' ar1
                | (Some t, Some _) \<Rightarrow> notifyChild env orig ''EntityAlreadyAddedNotification'' ar1
                | (Some t, None) \<Rightarrow>
                    Inr (setEntries key
                           (l[t := (l ! t)\<lparr>item := repl, currentStatus := StatusChanged\<rparr>]) ar1))))"

subsection \<open>Removing\<close>

definition markRemoved :: "'v aggregateItemEntry \<Rightarrow> 'v aggregateItemEntry" where
  "markRemoved e = e\<lparr>currentStatus := StatusRemoved\<rparr>"

definition removeAggregateItem ::
  "'v avoEnv \<Rightarrow> 'v avo option \<Rightarrow> ('v, 'd, 'z) AggregateRoot_scheme \<Rightarrow>
   gopanic + ('v, 'd, 'z) AggregateRoot_scheme" where
  "removeAggregateItem env x ar =
     (case x of
        None \<Rightarrow> Inr (entity_AddNotificationMessage
                  (message_of (kernelNotification ''EntityDoesNotExistNotification'')) ar)
      | Some a \<Rightarrow>
          (let ar1 = ensureAggregates ar;
               key = avoClass a
           in case update_first (\<lambda>e. IsSameBusinessIdentity env (item e) a \<and> isActive e)
                     markRemoved (entriesOf ar1 key) of
                Some l' \<Rightarrow> Inr (setEntries key l' ar1)
              | None \<Rightarrow> notifyChild env a ''EntityDoesNotExistNotification'' ar1))"

definition ClearAggregateItemsOfType ::
  "string \<Rightarrow> ('v, 'd, 'z) AggregateRoot_scheme \<Rightarrow> ('v, 'd, 'z) AggregateRoot_scheme" where
  "ClearAggregateItemsOfType typeName ar =
     (case aggregates ar of
        None \<Rightarrow> ar
      | Some _ \<Rightarrow> setEntries typeName (map markRemoved (entriesOf ar typeName)) ar)"

subsection \<open>Write-back\<close>

definition ApplyToAggregateItem ::
  "'v avoEnv \<Rightarrow> 'v avo option \<Rightarrow> ('v avo \<Rightarrow> 'v avo option) \<Rightarrow> ('v, 'd, 'z) AggregateRoot_scheme \<Rightarrow>
   bool \<times> ('v, 'd, 'z) AggregateRoot_scheme" where
  "ApplyToAggregateItem env x mutate ar =
     (case x of
        None \<Rightarrow> (False, ar)
      | Some a \<Rightarrow>
          if aggregates ar = None then (False, ar)
          else (case withItemMutation mutate a of
                  None \<Rightarrow> (False, ar)
                | Some next \<Rightarrow>
                    (case update_first (\<lambda>e. IsSameBusinessIdentity env (item e) a)
                            (\<lambda>e. e\<lparr>item := next\<rparr>) (entriesOf ar (avoClass a)) of
                       Some l' \<Rightarrow> (True, setEntries (avoClass a) l' ar)
                     | None \<Rightarrow> (False, ar))))"

definition AssignAggregateItemID ::
  "'v avoEnv \<Rightarrow> 'v avo option \<Rightarrow> ID \<Rightarrow> ('v, 'd, 'z) AggregateRoot_scheme \<Rightarrow>
   bool \<times> ('v, 'd, 'z) AggregateRoot_scheme" where
  "AssignAggregateItemID env x i ar =
     (case x of
        None \<Rightarrow> (False, ar)
      | Some a \<Rightarrow>
          if aggregates ar = None then (False, ar)
          else (case withItemID i a of
                  None \<Rightarrow> (False, ar)
                | Some stamped \<Rightarrow>
                    (case update_first (\<lambda>e. IsSameBusinessIdentity env (item e) a)
                            (\<lambda>e. e\<lparr>item := stamped\<rparr>) (entriesOf ar (avoClass a)) of
                       Some l' \<Rightarrow> (True, setEntries (avoClass a) l' ar)
                     | None \<Rightarrow> (False, ar))))"

subsection \<open>Readers\<close>

definition toAggregateItem :: "'v aggregateItemEntry \<Rightarrow> 'v avo AggregateItem" where
  "toAggregateItem e =
     \<lparr>Item = item e, OriginalStatus = originalStatus e, CurrentStatus = currentStatus e\<rparr>"

definition AllAggregateItems ::
  "('v, 'd, 'z) AggregateRoot_scheme \<Rightarrow> (string \<rightharpoonup> 'v avo AggregateItem list)" where
  "AllAggregateItems ar =
     (case aggregates ar of
        None \<Rightarrow> Map.empty
      | Some m \<Rightarrow> (\<lambda>k. map_option (map toAggregateItem) (m k)))"

text \<open>A type parameter is the child's type name and whether it is the struct or its pointer.\<close>

definition GetAggregateItemsOf ::
  "string \<Rightarrow> bool \<Rightarrow> ('v, 'd, 'z) AggregateRoot_scheme \<Rightarrow> 'v avo AggregateItem list" where
  "GetAggregateItemsOf T byValue ar =
     map toAggregateItem
       (filter (\<lambda>e. avoClass (item e) = T \<and> avoStruct (item e) = byValue) (entriesOf ar T))"

definition GetCurrentItemsOf ::
  "string \<Rightarrow> bool \<Rightarrow> ('v, 'd, 'z) AggregateRoot_scheme \<Rightarrow> 'v avo list" where
  "GetCurrentItemsOf T byValue ar =
     map Item (filter (\<lambda>it. CurrentStatus it \<noteq> StatusRemoved) (GetAggregateItemsOf T byValue ar))"

definition filterAggregateByOp ::
  "string \<Rightarrow> bool \<Rightarrow> AggregateItemOp \<Rightarrow> ('v, 'd, 'z) AggregateRoot_scheme \<Rightarrow> 'v avo list" where
  "filterAggregateByOp T byValue op ar =
     map Item (filter (\<lambda>it. OperationOf (OriginalStatus it) (CurrentStatus it) = op)
                 (GetAggregateItemsOf T byValue ar))"

definition GetAddedItemsOf ::
  "string \<Rightarrow> bool \<Rightarrow> ('v, 'd, 'z) AggregateRoot_scheme \<Rightarrow> 'v avo list" where
  "GetAddedItemsOf T byValue = filterAggregateByOp T byValue OpInsert"

definition GetChangedItemsOf ::
  "string \<Rightarrow> bool \<Rightarrow> ('v, 'd, 'z) AggregateRoot_scheme \<Rightarrow> 'v avo list" where
  "GetChangedItemsOf T byValue = filterAggregateByOp T byValue OpUpdate"

definition GetRemovedItemsOf ::
  "string \<Rightarrow> bool \<Rightarrow> ('v, 'd, 'z) AggregateRoot_scheme \<Rightarrow> 'v avo list" where
  "GetRemovedItemsOf T byValue = filterAggregateByOp T byValue OpDelete"

subsection \<open>The typed primitives\<close>

text \<open>
  A declared sample: its type name, and whether the pointer type has \<^verbatim>\<open>BuildRules\<close>. A root's
  type: its name, the label plan of its Go type, the samples of \<^verbatim>\<open>AggregateChildren()\<close>.
\<close>

record childSample =
  sampleClass :: string
  sampleBuildsRules :: bool

record rootClass =
  rootName :: string
  rootType :: goType
  AggregateChildren :: "childSample option list"

fun allowedChildTypeNames :: "childSample option list \<Rightarrow> gopanic + string list" where
  "allowedChildTypeNames [] = Inr []"
| "allowedChildTypeNames (None # ss) =
     Inl ''runtime error: invalid memory address or nil pointer dereference''"
| "allowedChildTypeNames (Some s # ss) =
     (if \<not> sampleBuildsRules s
      then Inl (sampleClass s @ '' must implement BuildRules on the pointer receiver'')
      else bind_panic (allowedChildTypeNames ss) (\<lambda>ns. Inr (sampleClass s # ns)))"

definition isAllowedChild :: "rootClass \<Rightarrow> 'v avo option \<Rightarrow> gopanic + bool" where
  "isAllowedChild c x =
     (case x of
        None \<Rightarrow> Inr False
      | Some a \<Rightarrow> bind_panic (allowedChildTypeNames (AggregateChildren c))
                   (\<lambda>ns. Inr (avoClass a \<in> set ns)))"

definition ensureRootInit ::
  "rootClass \<Rightarrow> ('v, 'd, 'z) BaseEntity_scheme \<Rightarrow> ('v, 'd, 'z) BaseEntity_scheme" where
  "ensureRootInit c = initWithName (rootName c) (rootType c)"

definition rejectChild ::
  "'v avoEnv \<Rightarrow> 'v avo option \<Rightarrow> ('v, 'd, 'z) AggregateRoot_scheme \<Rightarrow>
   gopanic + ('v, 'd, 'z) AggregateRoot_scheme" where
  "rejectChild env x ar =
     (let msg = message_of (kernelNotification ''InvalidAggregateChildNotification'') in
      case x of
        None \<Rightarrow> Inr (entity_AddNotificationMessage msg ar)
      | Some a \<Rightarrow> bind_panic (childFieldPath env a) (\<lambda>p.
          Inr (entity_AddNotificationMessage (msg\<lparr>Path := p, FieldValue := avoClass a\<rparr>) ar)))"

definition AddAggregateChild ::
  "'v avoEnv \<Rightarrow> rootClass \<Rightarrow> 'v avo option \<Rightarrow> ('v, 'd, 'z) AggregateRoot_scheme \<Rightarrow>
   gopanic + ('v, 'd, 'z) AggregateRoot_scheme" where
  "AddAggregateChild env c x ar =
     (let ar1 = ensureRootInit c ar in
      bind_panic (isAllowedChild c x) (\<lambda>ok.
        if \<not> ok then rejectChild env x ar1 else addAggregateItem env x ar1))"

definition ChangeAggregateChild ::
  "'v avoEnv \<Rightarrow> rootClass \<Rightarrow> 'v avo option \<Rightarrow> 'v avo option \<Rightarrow>
   ('v, 'd, 'z) AggregateRoot_scheme \<Rightarrow> gopanic + ('v, 'd, 'z) AggregateRoot_scheme" where
  "ChangeAggregateChild env c original replacement ar =
     (let ar1 = ensureRootInit c ar in
      bind_panic (isAllowedChild c original) (\<lambda>ok.
        if \<not> ok then rejectChild env original ar1
        else bind_panic (isAllowedChild c replacement) (\<lambda>ok'.
          if \<not> ok' then rejectChild env replacement ar1
          else changeAggregateItem env original replacement ar1)))"

definition RemoveAggregateChild ::
  "'v avoEnv \<Rightarrow> rootClass \<Rightarrow> 'v avo option \<Rightarrow> ('v, 'd, 'z) AggregateRoot_scheme \<Rightarrow>
   gopanic + ('v, 'd, 'z) AggregateRoot_scheme" where
  "RemoveAggregateChild env c x ar =
     (let ar1 = ensureRootInit c ar in
      bind_panic (isAllowedChild c x) (\<lambda>ok.
        if \<not> ok then rejectChild env x ar1 else removeAggregateItem env x ar1))"

fun AddAggregateChildren ::
  "'v avoEnv \<Rightarrow> rootClass \<Rightarrow> 'v avo option list \<Rightarrow> ('v, 'd, 'z) AggregateRoot_scheme \<Rightarrow>
   gopanic + ('v, 'd, 'z) AggregateRoot_scheme" where
  "AddAggregateChildren env c [] ar = Inr ar"
| "AddAggregateChildren env c (x # xs) ar =
     bind_panic (AddAggregateChild env c x ar) (AddAggregateChildren env c xs)"

definition ReplaceAggregateChildrenOf ::
  "'v avoEnv \<Rightarrow> rootClass \<Rightarrow> string \<Rightarrow> 'v avo option list \<Rightarrow> ('v, 'd, 'z) AggregateRoot_scheme \<Rightarrow>
   gopanic + ('v, 'd, 'z) AggregateRoot_scheme" where
  "ReplaceAggregateChildrenOf env c typeName items ar =
     AddAggregateChildren env c items
       (ClearAggregateItemsOfType typeName (ensureRootInit c ar))"

end
