(* ===== verification/Aggregate_Props.thy ===== *)
theory Aggregate_Props
  imports Aggregate
begin

section \<open>Correctness of the aggregate tracker\<close>

text \<open>
  The business-identity contract as a locale, the behaviour of the tracker's loops under it, the
  diff a full replace computes, the "one active child per identity" invariant of the mutators,
  and the permanence of loaded rows.
\<close>

subsection \<open>What each operation leaves alone\<close>

lemma aggregates_onContext [simp]:
  fixes ar :: "('v, 'd, 'z) AggregateRoot_scheme"
  shows "aggregates (onContext f ar) = aggregates ar"
  by (simp add: onContext_def ensureContext_def Let_def split: option.split)

lemma aggregates_initWithName [simp]:
  fixes ar :: "('v, 'd, 'z) AggregateRoot_scheme"
  shows "aggregates (initWithName n t ar) = aggregates ar"
  by (simp add: initWithName_def ensureContext_def Let_def split: option.split)

lemma entriesOf_emit [simp]:
  "entriesOf (entity_AddNotificationMessage m ar) = entriesOf ar"
  by (rule ext) (simp add: entriesOf_def entity_AddNotificationMessage_def)

lemma entriesOf_ensureRootInit [simp]:
  fixes ar :: "('v, 'd, 'z) AggregateRoot_scheme"
  shows "entriesOf (ensureRootInit c ar) = entriesOf ar"
  by (rule ext) (simp add: entriesOf_def ensureRootInit_def)

lemma entriesOf_ensureAggregates [simp]: "entriesOf (ensureAggregates ar) = entriesOf ar"
  by (rule ext) (simp add: entriesOf_def ensureAggregates_def split: option.splits)

lemma entriesOf_setEntries [simp]:
  "entriesOf (setEntries key l ar) k = (if k = key then l else entriesOf ar k)"
  by (simp add: entriesOf_def setEntries_def split: option.splits)

lemma entriesOf_Clear [simp]:
  "entriesOf (ClearAggregateItemsOfType T ar) k =
     (if k = T then map markRemoved (entriesOf ar k) else entriesOf ar k)"
  by (auto simp: ClearAggregateItemsOfType_def split: option.splits) (simp add: entriesOf_def)

lemma notifyChild_entries:
  "notifyChild env a key ar = Inr ar' \<Longrightarrow> entriesOf ar' = entriesOf ar"
  by (auto simp: notifyChild_def bind_panic_eq_Inr)

lemma notifCtx_setEntries [simp]: "notifCtx (setEntries key l ar) = notifCtx ar"
  by (simp add: setEntries_def)

lemma notifCtx_ensureAggregates [simp]: "notifCtx (ensureAggregates ar) = notifCtx ar"
  by (simp add: ensureAggregates_def split: option.split)

lemma notifCtx_Clear [simp]: "notifCtx (ClearAggregateItemsOfType T ar) = notifCtx ar"
  by (simp add: ClearAggregateItemsOfType_def split: option.split)

text \<open>The notifications an entity has emitted, in order; naming its context keeps them.\<close>

definition emitted :: "('v, 'd, 'z) BaseEntity_scheme \<Rightarrow> Notification list" where
  "emitted b = map MsgNotification (messages (theContext b))"

lemma emitted_cong: "notifCtx a = notifCtx b \<Longrightarrow> emitted a = emitted b"
  by (simp add: emitted_def theContext_def)

lemma emitted_ensureRootInit [simp]: "emitted (ensureRootInit c ar) = emitted ar"
  unfolding emitted_def
  by (auto simp: ensureRootInit_def initWithName_def ensureContext_def theContext_def
        resolvePendingLabels_def resolvePending_def NewNotificationContext_def Let_def
        split: option.splits list.splits)

lemma emitted_setEntries [simp]: "emitted (setEntries key l ar) = emitted ar"
  by (rule emitted_cong) simp

lemma emitted_ensureAggregates [simp]: "emitted (ensureAggregates ar) = emitted ar"
  by (rule emitted_cong) simp

lemma emitted_emit: "emitted (entity_AddNotificationMessage m b) = emitted b @ [MsgNotification m]"
  by (auto simp: emitted_def entity_AddNotificationMessage_def onContext_def ensureContext_def
      theContext_def Let_def appendMessage_def NewNotificationContext_def split: option.splits)

subsection \<open>The identity contract\<close>

locale business_identity =
  fixes same :: "'v avo \<Rightarrow> 'v avo \<Rightarrow> bool"
  assumes same_refl: "same a a"
    and same_sym: "same a b \<Longrightarrow> same b a"
    and same_trans: "same a b \<Longrightarrow> same b c \<Longrightarrow> same a c"
    and same_class: "same a b \<Longrightarrow> avoClass a = avoClass b"
    and same_id_agnostic: "avoStruct a \<Longrightarrow> same (a\<lparr>avoManaged := m\<rparr>) a"
begin

lemma withItemID_same: "withItemID i a = Some b \<Longrightarrow> same b a"
  by (auto simp: withItemID_def withItemMutation_def same_id_agnostic split: if_splits)

lemma reactivate_same: "same (item (reactivate e a)) a"
  by (auto simp: reactivate_def Let_def same_refl withItemID_same split: option.split)

lemma same_cong: "same a b \<Longrightarrow> same a c \<longleftrightarrow> same b c"
  using same_sym same_trans by blast

lemma same_cong2: "same a b \<Longrightarrow> same c a \<longleftrightarrow> same c b"
  using same_sym same_trans by blast

end

lemma sameFields_refl: "sameFields fs fs"
  by (induction fs) simp_all

lemma sameFields_sym: "sameFields fs gs \<Longrightarrow> sameFields gs fs"
  by (induction fs gs rule: sameFields.induct) auto

lemma sameFields_trans: "sameFields fs gs \<Longrightarrow> sameFields gs hs \<Longrightarrow> sameFields fs hs"
proof (induction fs gs arbitrary: hs rule: sameFields.induct)
  case (2 f fs g gs)
  then show ?case by (cases hs) auto
qed auto

lemma IsSameByBusinessFields_identity: "business_identity IsSameByBusinessFields"
proof
  fix a b c :: "'v avo" and m
  show "IsSameByBusinessFields a a" by (simp add: IsSameByBusinessFields_def sameFields_refl)
  show "IsSameByBusinessFields a b \<Longrightarrow> IsSameByBusinessFields b a"
    by (auto simp: IsSameByBusinessFields_def intro: sameFields_sym split: if_splits)
  show "IsSameByBusinessFields a b \<Longrightarrow> IsSameByBusinessFields b c \<Longrightarrow> IsSameByBusinessFields a c"
    by (auto simp: IsSameByBusinessFields_def intro: sameFields_trans split: if_splits)
  show "IsSameByBusinessFields a b \<Longrightarrow> avoClass a = avoClass b"
    by (simp add: IsSameByBusinessFields_def split: if_splits)
  show "avoStruct a \<Longrightarrow> IsSameByBusinessFields (a\<lparr>avoManaged := m\<rparr>) a"
    by (simp add: IsSameByBusinessFields_def sameFields_refl)
qed

interpretation by_fields: business_identity IsSameByBusinessFields
  by (rule IsSameByBusinessFields_identity)

subsection \<open>The add loop\<close>

lemma addLoop_none: "(\<forall>e\<in>set l. \<not> same (item e) a) \<Longrightarrow> addLoop same a l = AddAppend"
  by (induction l) simp_all

lemma addLoop_hit:
  assumes "\<forall>e\<in>set pre. \<not> same (item e) a" "same (item e) a"
  shows "addLoop same a (pre @ e # post) =
     (case currentStatus e of
        StatusAdded \<Rightarrow> AddDuplicate
      | StatusConstructor \<Rightarrow> AddDuplicate
      | StatusUnknown \<Rightarrow> (case addLoop same a post of
                            AddReactivated l \<Rightarrow> AddReactivated (pre @ e # l) | out \<Rightarrow> out)
      | _ \<Rightarrow> AddReactivated (pre @ reactivate e a # post))"
  using assms
  by (induction pre) (auto split: AggregateItemStatus.splits addOutcome.splits)

lemma addLoop_AddReactivatedE:
  assumes "addLoop same a l = AddReactivated l'"
  obtains pre e post where "l = pre @ e # post" "l' = pre @ reactivate e a # post"
    "same (item e) a" "currentStatus e \<in> {StatusRemoved, StatusChanged}"
    "\<forall>f\<in>set pre. same (item f) a \<longrightarrow> currentStatus f = StatusUnknown"
proof -
  have "\<exists>pre e post. l = pre @ e # post \<and> l' = pre @ reactivate e a # post \<and> same (item e) a \<and>
          currentStatus e \<in> {StatusRemoved, StatusChanged} \<and>
          (\<forall>f\<in>set pre. same (item f) a \<longrightarrow> currentStatus f = StatusUnknown)"
    using assms
  proof (induction l arbitrary: l')
    case Nil
    then show ?case by simp
  next
    case (Cons e es)
    show ?case
    proof (cases "same (item e) a \<and> currentStatus e \<noteq> StatusUnknown")
      case True
      with Cons.prems show ?thesis
        by (intro exI [of _ "[]"] exI [of _ e] exI [of _ es])
          (auto split: AggregateItemStatus.splits)
    next
      case False
      with Cons.prems obtain es' where es': "addLoop same a es = AddReactivated es'" "l' = e # es'"
        by (auto simp: Let_def split: addOutcome.splits if_splits)
      from Cons.IH [OF es'(1)] obtain pre f post where
        "es = pre @ f # post" "es' = pre @ reactivate f a # post" "same (item f) a"
        "currentStatus f \<in> {StatusRemoved, StatusChanged}"
        "\<forall>g\<in>set pre. same (item g) a \<longrightarrow> currentStatus g = StatusUnknown" by blast
      with False es'(2) show ?thesis
        by (intro exI [of _ "e # pre"] exI [of _ f] exI [of _ post]) auto
    qed
  qed
  with that show thesis by blast
qed

lemma addLoop_AddAppendD:
  "addLoop same a l = AddAppend \<Longrightarrow>
   \<forall>e\<in>set l. same (item e) a \<longrightarrow> currentStatus e = StatusUnknown"
  by (induction l) (auto simp: Let_def split: AggregateItemStatus.splits addOutcome.splits if_splits)

subsection \<open>The diff of a full replace\<close>

definition distinctItems :: "('v avo \<Rightarrow> 'v avo \<Rightarrow> bool) \<Rightarrow> 'v avo list \<Rightarrow> bool" where
  "distinctItems same = sorted_wrt (\<lambda>a b. \<not> same a b)"

definition distinctIdentities ::
  "('v avo \<Rightarrow> 'v avo \<Rightarrow> bool) \<Rightarrow> 'v aggregateItemEntry list \<Rightarrow> bool" where
  "distinctIdentities same = sorted_wrt (\<lambda>e f. \<not> same (item e) (item f))"

definition uniqueActive ::
  "('v avo \<Rightarrow> 'v avo \<Rightarrow> bool) \<Rightarrow> 'v aggregateItemEntry list \<Rightarrow> bool" where
  "uniqueActive same =
     sorted_wrt (\<lambda>e f. isActive e \<longrightarrow> isActive f \<longrightarrow> \<not> same (item e) (item f))"

text \<open>
  The reference: a tracked entry takes the re-sent item of its identity, if there is one, and is
  removed otherwise; the items of no tracked identity follow in the order they were sent.
\<close>

definition resent :: "('v avo \<Rightarrow> 'v avo \<Rightarrow> bool) \<Rightarrow> 'v avo list \<Rightarrow> 'v aggregateItemEntry \<Rightarrow>
  'v aggregateItemEntry" where
  "resent same ts e =
     (case List.find (\<lambda>t. same (item e) t) ts of
        Some t \<Rightarrow> reactivate e t
      | None \<Rightarrow> markRemoved e)"

definition replaceSpec :: "('v avo \<Rightarrow> 'v avo \<Rightarrow> bool) \<Rightarrow> 'v aggregateItemEntry list \<Rightarrow>
  'v avo list \<Rightarrow> 'v aggregateItemEntry list" where
  "replaceSpec same xs ts =
     map (resent same ts) xs @
     map (\<lambda>t. entryWith t StatusAdded) (filter (\<lambda>t. \<forall>e\<in>set xs. \<not> same (item e) t) ts)"

lemma item_markRemoved [simp]: "item (markRemoved e) = item e"
  by (simp add: markRemoved_def)

lemma currentStatus_markRemoved [simp]: "currentStatus (markRemoved e) = StatusRemoved"
  by (simp add: markRemoved_def)

lemma reactivate_markRemoved [simp]: "reactivate (markRemoved e) t = reactivate e t"
  by (simp add: reactivate_def markRemoved_def)

lemma item_entryWith [simp]: "item (entryWith a s) = a"
  by (simp add: entryWith_def)

lemma resent_miss: "(\<forall>t\<in>set ts. \<not> same (item e) t) \<Longrightarrow> resent same ts e = markRemoved e"
  by (simp add: resent_def find_None_all)

lemma resent_snoc_other: "\<not> same (item e) t \<Longrightarrow> resent same (ts @ [t]) e = resent same ts e"
  by (simp add: resent_def find_append split: option.split)

lemma resent_snoc_hit:
  "(\<forall>p\<in>set ts. \<not> same (item e) p) \<Longrightarrow> same (item e) t \<Longrightarrow>
   resent same (ts @ [t]) e = reactivate e t"
  by (simp add: resent_def find_append find_None_all)

definition addedTo :: "('v avo \<Rightarrow> 'v avo \<Rightarrow> bool) \<Rightarrow> 'v avo \<Rightarrow> 'v aggregateItemEntry list \<Rightarrow>
  'v aggregateItemEntry list" where
  "addedTo same a l =
     (case addLoop same a l of
        AddAppend \<Rightarrow> l @ [entryWith a StatusAdded]
      | AddReactivated l' \<Rightarrow> l'
      | AddDuplicate \<Rightarrow> l)"

context business_identity
begin

lemma resent_same: "same (item (resent same ts e)) (item e)"
proof (cases "List.find (\<lambda>t. same (item e) t) ts")
  case None
  then show ?thesis by (simp add: resent_def same_refl)
next
  case (Some t)
  then have "same (item e) t" by (auto simp: find_Some_iff)
  with Some show ?thesis
    using same_trans [OF reactivate_same same_sym] by (simp add: resent_def)
qed

lemma resent_cong: "same (item (resent same ts e)) t \<longleftrightarrow> same (item e) t"
  by (rule same_cong [OF resent_same])

lemma replace_step:
  assumes xs: "distinctIdentities same xs" and ts: "distinctItems same (ts @ [t])"
  shows "addLoop same t (replaceSpec same xs ts) \<noteq> AddDuplicate"
    and "addedTo same t (replaceSpec same xs ts) = replaceSpec same xs (ts @ [t])"
proof -
  let ?new = "map (\<lambda>t. entryWith t StatusAdded) (filter (\<lambda>t. \<forall>e\<in>set xs. \<not> same (item e) t) ts)"
  from ts have fresh: "\<forall>p\<in>set ts. \<not> same p t" by (simp add: distinctItems_def sorted_wrt_append)
  have "addLoop same t (replaceSpec same xs ts) \<noteq> AddDuplicate \<and>
        addedTo same t (replaceSpec same xs ts) = replaceSpec same xs (ts @ [t])"
  proof (cases "\<exists>e\<in>set xs. same (item e) t")
    case True
    then obtain e xa xb where e: "xs = xa @ e # xb" "same (item e) t"
      by (auto simp: in_set_conv_decomp)
    from xs have other: "\<forall>f\<in>set xa \<union> set xb. \<not> same (item f) t"
      unfolding distinctIdentities_def e(1) sorted_wrt_append
      using same_cong2 [OF e(2)] same_sym by auto
    from fresh e(2) have miss: "\<forall>p\<in>set ts. \<not> same (item e) p"
      using same_cong same_sym by blast
    have pre: "\<forall>f\<in>set (map (resent same ts) xa). \<not> same (item f) t"
      using other by (auto simp: resent_cong)
    from miss have "resent same ts e = markRemoved e" by (rule resent_miss)
    then have "replaceSpec same xs ts =
        map (resent same ts) xa @ markRemoved e # map (resent same ts) xb @ ?new"
      by (simp add: replaceSpec_def e(1))
    then have "addLoop same t (replaceSpec same xs ts) =
        AddReactivated (map (resent same ts) xa @ reactivate e t # map (resent same ts) xb @ ?new)"
      using addLoop_hit [where same = same and a = t and e = "markRemoved e", OF pre] e(2) by simp
    moreover have "map (resent same (ts @ [t])) xa = map (resent same ts) xa"
      "map (resent same (ts @ [t])) xb = map (resent same ts) xb"
      using other by (auto intro: resent_snoc_other)
    moreover have "resent same (ts @ [t]) e = reactivate e t" using miss e(2) by (rule resent_snoc_hit)
    ultimately show ?thesis using e by (simp add: addedTo_def replaceSpec_def)
  next
    case False
    have "\<forall>f\<in>set (replaceSpec same xs ts). \<not> same (item f) t"
      using False fresh by (auto simp: replaceSpec_def resent_cong)
    with False show ?thesis
      by (auto simp: addedTo_def addLoop_none replaceSpec_def resent_snoc_other)
  qed
  then show "addLoop same t (replaceSpec same xs ts) \<noteq> AddDuplicate"
    and "addedTo same t (replaceSpec same xs ts) = replaceSpec same xs (ts @ [t])" by auto
qed

end

lemma addAggregateItem_entries:
  "addAggregateItem env (Some a) ar = Inr ar' \<Longrightarrow>
   entriesOf ar' = (entriesOf ar)(avoClass a :=
     addedTo (IsSameBusinessIdentity env) a (entriesOf ar (avoClass a)))"
  by (rule ext) (auto simp: addAggregateItem_def addedTo_def Let_def
      dest: notifyChild_entries split: addOutcome.splits)

lemma addAggregateItem_accepts:
  assumes "addLoop (IsSameBusinessIdentity env) a (entriesOf ar (avoClass a)) \<noteq> AddDuplicate"
  shows "\<exists>ar'. addAggregateItem env (Some a) ar = Inr ar' \<and> notifCtx ar' = notifCtx ar"
  using assms by (auto simp: addAggregateItem_def Let_def split: addOutcome.splits)

lemma AddAggregateChild_accepts:
  assumes "allowedChildTypeNames (AggregateChildren c) = Inr names" "avoClass a \<in> set names"
    and "addLoop (IsSameBusinessIdentity env) a (entriesOf ar (avoClass a)) \<noteq> AddDuplicate"
  shows "\<exists>ar'. AddAggregateChild env c (Some a) ar = Inr ar' \<and> emitted ar' = emitted ar \<and>
     entriesOf ar' = (entriesOf ar)(avoClass a :=
       addedTo (IsSameBusinessIdentity env) a (entriesOf ar (avoClass a)))"
proof -
  from addAggregateItem_accepts [of env a "ensureRootInit c ar"] assms(3)
  obtain ar' where ar': "addAggregateItem env (Some a) (ensureRootInit c ar) = Inr ar'"
    "notifCtx ar' = notifCtx (ensureRootInit c ar)" by auto
  with addAggregateItem_entries [OF ar'(1)] emitted_cong [OF ar'(2)] assms(1,2) show ?thesis
    by (simp add: AddAggregateChild_def isAllowedChild_def Let_def)
qed

lemma AddAggregateChildren_spec:
  assumes "business_identity (IsSameBusinessIdentity env)"
    and "allowedChildTypeNames (AggregateChildren c) = Inr names" "T \<in> set names"
    and "distinctIdentities (IsSameBusinessIdentity env) xs"
  shows "distinctItems (IsSameBusinessIdentity env) (ps @ ts) \<Longrightarrow> \<forall>t\<in>set ts. avoClass t = T \<Longrightarrow>
    entriesOf ar T = replaceSpec (IsSameBusinessIdentity env) xs ps \<Longrightarrow>
    \<exists>ar'. AddAggregateChildren env c (map Some ts) ar = Inr ar' \<and> emitted ar' = emitted ar \<and>
      entriesOf ar' = (entriesOf ar)(T := replaceSpec (IsSameBusinessIdentity env) xs (ps @ ts))"
proof (induction ts arbitrary: ps ar)
  case Nil
  then show ?case by auto
next
  case (Cons t ts)
  have d: "distinctItems (IsSameBusinessIdentity env) (ps @ [t])"
    using Cons.prems(1) by (auto simp: distinctItems_def sorted_wrt_append)
  note step = business_identity.replace_step [OF assms(1,4) d]
  have T: "avoClass t = T" using Cons.prems(2) by simp
  with step(1) Cons.prems(3) assms(3)
  obtain ar1 where ar1: "AddAggregateChild env c (Some t) ar = Inr ar1" "emitted ar1 = emitted ar"
    "entriesOf ar1 = (entriesOf ar)(T := replaceSpec (IsSameBusinessIdentity env) xs (ps @ [t]))"
    using AddAggregateChild_accepts [OF assms(2), of t env ar] step(2) by auto
  have "\<exists>ar2. AddAggregateChildren env c (map Some ts) ar1 = Inr ar2 \<and> emitted ar2 = emitted ar1 \<and>
      entriesOf ar2 = (entriesOf ar1)(T := replaceSpec (IsSameBusinessIdentity env) xs ((ps @ [t]) @ ts))"
    by (rule Cons.IH) (use Cons.prems ar1(3) in simp_all)
  with ar1 show ?case by fastforce
qed

lemma replaceSpec_Nil: "replaceSpec same xs [] = map markRemoved xs"
  by (simp add: replaceSpec_def resent_def)

lemma Replace_spec:
  assumes "business_identity (IsSameBusinessIdentity env)"
    and "allowedChildTypeNames (AggregateChildren c) = Inr names" "T \<in> set names"
    and "distinctIdentities (IsSameBusinessIdentity env) (entriesOf ar T)"
    and "distinctItems (IsSameBusinessIdentity env) ts" "\<forall>t\<in>set ts. avoClass t = T"
  shows "\<exists>ar'. ReplaceAggregateChildrenOf env c T (map Some ts) ar = Inr ar' \<and>
     emitted ar' = emitted ar \<and>
     entriesOf ar' = (entriesOf ar)(T :=
       replaceSpec (IsSameBusinessIdentity env) (entriesOf ar T) ts)"
proof -
  let ?ar = "ClearAggregateItemsOfType T (ensureRootInit c ar)"
  have "emitted ?ar = emitted ar"
    using emitted_cong [of ?ar "ensureRootInit c ar"] by simp
  moreover have "entriesOf ?ar = (entriesOf ar)(T := map markRemoved (entriesOf ar T))" by auto
  ultimately show ?thesis
    using AddAggregateChildren_spec [OF assms(1-4), of "[]" ts ?ar] assms(5,6)
    by (auto simp: ReplaceAggregateChildrenOf_def replaceSpec_Nil)
qed

subsection \<open>Every mutation as a step on one tracked list\<close>

datatype 'v childOp =
    DoAdd "'v avo option"
  | DoChange "'v avo option" "'v avo option"
  | DoRemove "'v avo option"
  | DoClear string
  | DoAssignID "'v avo option" ID

definition applyChildOp ::
  "'v avoEnv \<Rightarrow> rootClass \<Rightarrow> 'v childOp \<Rightarrow> ('v, 'd, 'z) AggregateRoot_scheme \<Rightarrow>
   gopanic + ('v, 'd, 'z) AggregateRoot_scheme" where
  "applyChildOp env c op ar =
     (case op of
        DoAdd x \<Rightarrow> AddAggregateChild env c x ar
      | DoChange x y \<Rightarrow> ChangeAggregateChild env c x y ar
      | DoRemove x \<Rightarrow> RemoveAggregateChild env c x ar
      | DoClear T \<Rightarrow> Inr (ClearAggregateItemsOfType T ar)
      | DoAssignID x i \<Rightarrow> Inr (snd (AssignAggregateItemID env x i ar)))"

fun runChildOps ::
  "'v avoEnv \<Rightarrow> rootClass \<Rightarrow> 'v childOp list \<Rightarrow> ('v, 'd, 'z) AggregateRoot_scheme \<Rightarrow>
   gopanic + ('v, 'd, 'z) AggregateRoot_scheme" where
  "runChildOps env c [] ar = Inr ar"
| "runChildOps env c (op # ops) ar = bind_panic (applyChildOp env c op ar) (runChildOps env c ops)"

text \<open>
  The effect of an operation on the list it addresses. An operation that answers with a
  notification, or is rejected, stays.
\<close>

inductive entryStep ::
  "('v avo \<Rightarrow> 'v avo \<Rightarrow> bool) \<Rightarrow> 'v childOp \<Rightarrow>
   'v aggregateItemEntry list \<Rightarrow> 'v aggregateItemEntry list \<Rightarrow> bool"
  for same :: "'v avo \<Rightarrow> 'v avo \<Rightarrow> bool" where
  stay: "entryStep same op l l"
| append: "\<forall>e\<in>set l. same (item e) a \<longrightarrow> currentStatus e = StatusUnknown \<Longrightarrow>
    entryStep same (DoAdd (Some a)) l (l @ [entryWith a StatusAdded])"
| reactivated: "same (item e) a \<Longrightarrow> currentStatus e \<in> {StatusRemoved, StatusChanged} \<Longrightarrow>
    entryStep same (DoAdd (Some a)) (pre @ e # post) (pre @ reactivate e a # post)"
| changed: "same (item e) x \<Longrightarrow> \<forall>f\<in>set pre. \<not> same (item f) x \<Longrightarrow>
    \<forall>f\<in>set pre \<union> set post. isActive f \<longrightarrow> \<not> same (item f) y \<Longrightarrow>
    entryStep same (DoChange (Some x) (Some y)) (pre @ e # post)
      (pre @ e\<lparr>item := y, currentStatus := StatusChanged\<rparr> # post)"
| removed: "same (item e) a \<Longrightarrow> isActive e \<Longrightarrow>
    entryStep same (DoRemove (Some a)) (pre @ e # post) (pre @ markRemoved e # post)"
| cleared: "entryStep same (DoClear T) l (map markRemoved l)"
| stamped: "same (item e) a \<Longrightarrow> withItemID i a = Some b \<Longrightarrow>
    entryStep same (DoAssignID (Some a) i) (pre @ e # post) (pre @ e\<lparr>item := b\<rparr> # post)"

lemma changeScan_found:
  "changeScan same x y i l (Some k, c) = (t, c') \<Longrightarrow>
   t = Some k \<and> (c' = None \<longrightarrow> c = None \<and> (\<forall>f\<in>set l. isActive f \<longrightarrow> \<not> same (item f) y))"
  by (induction l arbitrary: i c) (auto split: if_splits)

lemma changeScan_missing:
  "changeScan same x y i l (None, c) = (None, c') \<Longrightarrow> \<forall>e\<in>set l. \<not> same (item e) x"
  by (induction l arbitrary: i c) (auto dest: changeScan_found split: if_splits)

lemma changeScan_hit:
  "changeScan same x y i l (None, c) = (Some t, None) \<Longrightarrow>
   c = None \<and> (\<exists>pre e post. l = pre @ e # post \<and> t = i + length pre \<and> same (item e) x \<and>
     (\<forall>f\<in>set pre. \<not> same (item f) x) \<and>
     (\<forall>f\<in>set pre \<union> set post. isActive f \<longrightarrow> \<not> same (item f) y))"
proof (induction l arbitrary: i c)
  case Nil
  then show ?case by simp
next
  case (Cons e l)
  show ?case
  proof (cases "same (item e) x")
    case True
    with Cons.prems have "changeScan same x y (Suc i) l (Some i, c) = (Some t, None)" by simp
    from changeScan_found [OF this] True show ?thesis
      by (intro conjI exI [of _ "[]"] exI [of _ e] exI [of _ l]) auto
  next
    case False
    with Cons.prems obtain c1 where c1: "changeScan same x y (Suc i) l (None, c1) = (Some t, None)"
      "c1 = None \<Longrightarrow> c = None \<and> (isActive e \<longrightarrow> \<not> same (item e) y)"
      by (auto split: if_splits)
    from Cons.IH [OF c1(1)] obtain pre f post where "c1 = None" "l = pre @ f # post"
      "t = Suc i + length pre" "same (item f) x" "\<forall>g\<in>set pre. \<not> same (item g) x"
      "\<forall>g\<in>set pre \<union> set post. isActive g \<longrightarrow> \<not> same (item g) y" by blast
    with c1(2) False show ?thesis
      by (intro conjI exI [of _ "e # pre"] exI [of _ f] exI [of _ post]) auto
  qed
qed

lemma rejectChild_entries: "rejectChild env x ar = Inr ar' \<Longrightarrow> entriesOf ar' = entriesOf ar"
  by (auto simp: rejectChild_def Let_def split: option.splits)

definition classOfItem :: "'v avo option \<Rightarrow> string" where
  "classOfItem x = (case x of None \<Rightarrow> [] | Some a \<Rightarrow> avoClass a)"

definition opKey :: "'v childOp \<Rightarrow> string" where
  "opKey op =
     (case op of DoAdd x \<Rightarrow> classOfItem x | DoChange x y \<Rightarrow> classOfItem x | DoRemove x \<Rightarrow> classOfItem x
      | DoClear T \<Rightarrow> T | DoAssignID x i \<Rightarrow> classOfItem x)"

definition opStep :: "('v avo \<Rightarrow> 'v avo \<Rightarrow> bool) \<Rightarrow> 'v childOp \<Rightarrow>
  ('v, 'd, 'z) AggregateRoot_scheme \<Rightarrow> ('v, 'd, 'z) AggregateRoot_scheme \<Rightarrow> bool" where
  "opStep same op ar ar' \<longleftrightarrow>
     (\<exists>l. entriesOf ar' = (entriesOf ar)(opKey op := l) \<and> entryStep same op (entriesOf ar (opKey op)) l)"

lemma opStep_stay: "entriesOf ar' = entriesOf ar \<Longrightarrow> opStep same op ar ar'"
  unfolding opStep_def by (rule exI [of _ "entriesOf ar (opKey op)"]) (simp add: entryStep.stay)

lemma addAggregateItem_step:
  assumes "addAggregateItem env (Some a) ar = Inr ar'"
  shows "opStep (IsSameBusinessIdentity env) (DoAdd (Some a)) ar ar'"
proof -
  let ?s = "IsSameBusinessIdentity env" and ?l = "entriesOf ar (avoClass a)"
  have "entryStep ?s (DoAdd (Some a)) ?l (addedTo ?s a ?l)"
  proof (cases "addLoop ?s a ?l")
    case AddAppend
    then show ?thesis by (simp add: addedTo_def entryStep.append addLoop_AddAppendD)
  next
    case AddDuplicate
    then show ?thesis by (simp add: addedTo_def entryStep.stay)
  next
    case (AddReactivated l')
    then show ?thesis
      by (auto simp: addedTo_def elim!: addLoop_AddReactivatedE intro!: entryStep.reactivated)
  qed
  with addAggregateItem_entries [OF assms] show ?thesis
    by (auto simp: opStep_def opKey_def classOfItem_def)
qed

lemma removeAggregateItem_step:
  assumes "removeAggregateItem env x ar = Inr ar'"
  shows "opStep (IsSameBusinessIdentity env) (DoRemove x) ar ar'"
proof (cases x)
  case None
  with assms show ?thesis by (auto simp: removeAggregateItem_def intro: opStep_stay)
next
  case (Some a)
  let ?P = "\<lambda>e. IsSameBusinessIdentity env (item e) a \<and> isActive e"
  show ?thesis
  proof (cases "update_first ?P markRemoved (entriesOf ar (avoClass a))")
    case None
    with assms Some have "entriesOf ar' = entriesOf ar"
      by (auto simp add: removeAggregateItem_def Let_def simp del: update_first_None
          dest: notifyChild_entries)
    then show ?thesis by (rule opStep_stay)
  next
    case (Some l')
    moreover from Some have "entryStep (IsSameBusinessIdentity env) (DoRemove (Some a))
        (entriesOf ar (avoClass a)) l'"
      by (auto elim!: update_first_SomeE intro: entryStep.removed)
    ultimately show ?thesis using assms \<open>x = Some a\<close>
      by (auto simp: removeAggregateItem_def Let_def opStep_def opKey_def classOfItem_def fun_eq_iff)
  qed
qed

lemma changeAggregateItem_step:
  assumes "changeAggregateItem env x y ar = Inr ar'"
  shows "opStep (IsSameBusinessIdentity env) (DoChange x y) ar ar'"
proof (cases "x = None \<or> y = None")
  case True
  with assms show ?thesis
    by (auto simp: changeAggregateItem_def isAggregateItemValid_def intro: opStep_stay
        split: option.splits)
next
  case False
  then obtain a b where xy: "x = Some a" "y = Some b" by auto
  let ?l = "entriesOf ar (avoClass a)"
  obtain t c where tc: "changeScan (IsSameBusinessIdentity env) a b 0 ?l (None, None) = (t, c)"
    by fastforce
  show ?thesis
  proof (cases "t = None \<or> c \<noteq> None")
    case True
    with assms xy tc have "entriesOf ar' = entriesOf ar"
      by (auto simp: changeAggregateItem_def Let_def dest: notifyChild_entries split: option.splits)
    then show ?thesis by (rule opStep_stay)
  next
    case False
    then obtain n where n: "t = Some n" "c = None" by auto
    from changeScan_hit [OF tc [unfolded n]] obtain pre e post where
      e: "?l = pre @ e # post" "n = length pre" "IsSameBusinessIdentity env (item e) a"
        "\<forall>f\<in>set pre. \<not> IsSameBusinessIdentity env (item f) a"
        "\<forall>f\<in>set pre \<union> set post. isActive f \<longrightarrow> \<not> IsSameBusinessIdentity env (item f) b" by auto
    from assms xy tc n e(1,2) have "entriesOf ar' =
        (entriesOf ar)(avoClass a := pre @ e\<lparr>item := b, currentStatus := StatusChanged\<rparr> # post)"
      by (auto simp: changeAggregateItem_def Let_def fun_eq_iff)
    with entryStep.changed [OF e(3-5)] xy e(1) show ?thesis
      by (auto simp: opStep_def opKey_def classOfItem_def)
  qed
qed

lemma AssignAggregateItemID_step:
  "opStep (IsSameBusinessIdentity env) (DoAssignID x i) ar (snd (AssignAggregateItemID env x i ar))"
proof (cases "fst (AssignAggregateItemID env x i ar)")
  case True
  then obtain a b l' where *: "x = Some a" "withItemID i a = Some b"
    "update_first (\<lambda>e. IsSameBusinessIdentity env (item e) a) (\<lambda>e. e\<lparr>item := b\<rparr>)
       (entriesOf ar (avoClass a)) = Some l'" "aggregates ar \<noteq> None"
    by (auto simp: AssignAggregateItemID_def split: option.splits if_splits)
  from *(3) have "entryStep (IsSameBusinessIdentity env) (DoAssignID (Some a) i)
      (entriesOf ar (avoClass a)) l'"
    by (auto elim!: update_first_SomeE intro!: entryStep.stamped [OF _ *(2)])
  moreover from * have "snd (AssignAggregateItemID env x i ar) = setEntries (avoClass a) l' ar"
    by (auto simp: AssignAggregateItemID_def)
  ultimately show ?thesis using *(1) by (auto simp: opStep_def opKey_def classOfItem_def fun_eq_iff)
next
  case False
  then have "snd (AssignAggregateItemID env x i ar) = ar"
    by (auto simp add: AssignAggregateItemID_def simp del: update_first_None
        split: option.splits if_splits)
  then show ?thesis by (simp add: opStep_stay)
qed

lemma opStep_from:
  "entriesOf ar1 = entriesOf ar \<Longrightarrow> opStep same op ar1 ar' \<Longrightarrow> opStep same op ar ar'"
  by (simp add: opStep_def)

lemma applyChildOp_step:
  assumes "applyChildOp env c op ar = Inr ar'"
  shows "opStep (IsSameBusinessIdentity env) op ar ar'"
proof (cases op)
  case (DoAdd x)
  with assms show ?thesis
    by (cases x) (auto simp: applyChildOp_def AddAggregateChild_def Let_def isAllowedChild_def
        split: if_splits
        dest!: rejectChild_entries addAggregateItem_step
        intro: opStep_stay opStep_from [of "ensureRootInit c ar"])
next
  case (DoChange x y)
  with assms show ?thesis
    by (auto simp: applyChildOp_def ChangeAggregateChild_def Let_def split: if_splits
        dest!: rejectChild_entries changeAggregateItem_step
        intro: opStep_stay opStep_from [of "ensureRootInit c ar"])
next
  case (DoRemove x)
  with assms show ?thesis
    by (auto simp: applyChildOp_def RemoveAggregateChild_def Let_def split: if_splits
        dest!: rejectChild_entries removeAggregateItem_step
        intro: opStep_stay opStep_from [of "ensureRootInit c ar"])
next
  case (DoClear T)
  with assms show ?thesis
    by (auto simp: applyChildOp_def opStep_def opKey_def fun_eq_iff intro!: entryStep.cleared)
next
  case (DoAssignID x i)
  with assms AssignAggregateItemID_step show ?thesis by (auto simp: applyChildOp_def)
qed

subsection \<open>Invariants of the tracked lists\<close>

definition knownStatuses :: "'v aggregateItemEntry list \<Rightarrow> bool" where
  "knownStatuses l \<longleftrightarrow> (\<forall>e\<in>set l. currentStatus e \<noteq> StatusUnknown)"

definition trackerInv ::
  "('v avo \<Rightarrow> 'v avo \<Rightarrow> bool) \<Rightarrow> ('v, 'd, 'z) AggregateRoot_scheme \<Rightarrow> bool" where
  "trackerInv same ar \<longleftrightarrow>
     (\<forall>k. distinctIdentities same (entriesOf ar k) \<and> knownStatuses (entriesOf ar k))"

text \<open>A change that does not take the identity of another, removed, entry.\<close>

definition freshChange ::
  "('v avo \<Rightarrow> 'v avo \<Rightarrow> bool) \<Rightarrow> 'v childOp \<Rightarrow> 'v aggregateItemEntry list \<Rightarrow> bool" where
  "freshChange same op l \<longleftrightarrow>
     (case op of
        DoChange (Some x) (Some y) \<Rightarrow>
          (\<forall>e\<in>set l. isActive e \<or> same (item e) x \<or> \<not> same (item e) y)
      | _ \<Rightarrow> True)"

fun freshRun ::
  "'v avoEnv \<Rightarrow> rootClass \<Rightarrow> 'v childOp list \<Rightarrow> ('v, 'd, 'z) AggregateRoot_scheme \<Rightarrow> bool" where
  "freshRun env c [] ar = True"
| "freshRun env c (op # ops) ar =
     (freshChange (IsSameBusinessIdentity env) op (entriesOf ar (opKey op)) \<and>
      (case applyChildOp env c op ar of Inl _ \<Rightarrow> True | Inr ar' \<Rightarrow> freshRun env c ops ar'))"

lemma reactivate_status [simp]: "currentStatus (reactivate e a) = StatusAdded"
  by (simp add: reactivate_def)

lemma reactivate_original [simp]: "originalStatus (reactivate e a) = originalStatus e"
  by (simp add: reactivate_def)

lemma markRemoved_original [simp]: "originalStatus (markRemoved e) = originalStatus e"
  by (simp add: markRemoved_def)

lemma originalStatus_markRemoved_map [simp]: "map (originalStatus \<circ> markRemoved) l = map originalStatus l"
  by simp

lemma entryStep_original:
  "entryStep same op l l' \<Longrightarrow>
   \<exists>zs. map originalStatus l' = map originalStatus l @ zs \<and> set zs \<subseteq> {StatusAdded}"
  by (induction rule: entryStep.induct) (auto simp: entryWith_def)

lemma entryStep_known: "entryStep same op l l' \<Longrightarrow> knownStatuses l \<Longrightarrow> knownStatuses l'"
  by (induction rule: entryStep.induct) (auto simp: knownStatuses_def entryWith_def)

context business_identity
begin

lemma distinct_replace:
  "distinctIdentities same (pre @ e # post) \<Longrightarrow>
   \<forall>f\<in>set pre \<union> set post. \<not> same (item f) (item e') \<Longrightarrow>
   distinctIdentities same (pre @ e' # post)"
  by (simp add: distinctIdentities_def sorted_wrt_append) (blast dest: same_sym)

lemma distinct_others:
  "distinctIdentities same (pre @ e # post) \<Longrightarrow> \<forall>f\<in>set pre \<union> set post. \<not> same (item f) (item e)"
  by (simp add: distinctIdentities_def sorted_wrt_append) (blast dest: same_sym)

lemma distinct_replace_same:
  assumes "distinctIdentities same (pre @ e # post)" "same (item e') (item e)"
  shows "distinctIdentities same (pre @ e' # post)"
  by (rule distinct_replace [OF assms(1)])
    (use distinct_others [OF assms(1)] in \<open>simp add: same_cong2 [OF assms(2)]\<close>)

lemma entryStep_distinct:
  assumes "entryStep same op l l'" "distinctIdentities same l" "knownStatuses l"
    "freshChange same op l"
  shows "distinctIdentities same l'"
  using assms
proof (induction rule: entryStep.induct)
  case (append l a)
  then show ?case by (auto simp: distinctIdentities_def sorted_wrt_append knownStatuses_def)
next
  case (reactivated e a pre post)
  have "same (item (reactivate e a)) (item e)"
    using reactivate_same reactivated.hyps(1) same_sym same_trans by blast
  with reactivated.prems(1) show ?case by (rule distinct_replace_same)
next
  case (changed e x pre post y)
  have "\<forall>f\<in>set pre \<union> set post. \<not> same (item f) x"
    using distinct_others [OF changed.prems(1)] by (simp add: same_cong2 [OF changed.hyps(1)])
  with changed.hyps(3) changed.prems(3) have "\<forall>f\<in>set pre \<union> set post. \<not> same (item f) y"
    by (auto simp: freshChange_def)
  with distinct_replace [OF changed.prems(1)] show ?case by simp
next
  case (removed e a pre post)
  show ?case by (rule distinct_replace_same [OF removed.prems(1)]) (simp add: same_refl)
next
  case (cleared T l)
  then show ?case by (simp add: distinctIdentities_def sorted_wrt_map)
next
  case (stamped e a i b pre post)
  have "same (item (e\<lparr>item := b\<rparr>)) (item e)"
    using same_trans [OF withItemID_same [OF stamped.hyps(2)] same_sym [OF stamped.hyps(1)]] by simp
  with stamped.prems(1) show ?case by (rule distinct_replace_same)
qed simp

lemma opStep_keeps:
  assumes "opStep same op ar ar'" "trackerInv same ar"
    "freshChange same op (entriesOf ar (opKey op))"
  shows "trackerInv same ar'"
proof -
  from assms(1) obtain l where l: "entriesOf ar' = (entriesOf ar)(opKey op := l)"
    "entryStep same op (entriesOf ar (opKey op)) l" by (auto simp: opStep_def)
  with assms(2,3) have "distinctIdentities same l" "knownStatuses l"
    by (auto simp: trackerInv_def intro: entryStep_distinct [OF l(2)] entryStep_known [OF l(2)])
  with l(1) assms(2) show ?thesis by (simp add: trackerInv_def)
qed

lemma distinct_uniqueActive: "distinctIdentities same l \<Longrightarrow> uniqueActive same l"
  unfolding distinctIdentities_def uniqueActive_def by (erule sorted_wrt_mono_rel [rotated]) simp

lemma uniqueActive_replace:
  assumes "uniqueActive same (pre @ e # post)"
    and "\<forall>f\<in>set pre \<union> set post. isActive f \<longrightarrow> \<not> same (item f) (item e')"
  shows "uniqueActive same (pre @ e' # post)"
  using assms by (simp add: uniqueActive_def sorted_wrt_append) (blast dest: same_sym)

lemma change_unique:
  assumes "entryStep same (DoChange x y) l l'" "uniqueActive same l"
  shows "uniqueActive same l'"
  using assms by (cases rule: entryStep.cases) (auto intro: uniqueActive_replace)

end

lemma runChildOps_inv:
  assumes "business_identity (IsSameBusinessIdentity env)"
  shows "runChildOps env c ops ar = Inr ar' \<Longrightarrow> trackerInv (IsSameBusinessIdentity env) ar \<Longrightarrow>
    freshRun env c ops ar \<Longrightarrow> trackerInv (IsSameBusinessIdentity env) ar'"
proof (induction ops arbitrary: ar)
  case (Cons op ops)
  from Cons.prems(1) obtain ar1 where ar1: "applyChildOp env c op ar = Inr ar1"
    "runChildOps env c ops ar1 = Inr ar'" by auto
  have "trackerInv (IsSameBusinessIdentity env) ar1"
    using business_identity.opStep_keeps [OF assms applyChildOp_step [OF ar1(1)]] Cons.prems(2,3)
    by simp
  with Cons.IH [OF ar1(2)] Cons.prems(3) ar1(1) show ?case by simp
qed simp

lemma runChildOps_original:
  "runChildOps env c ops ar = Inr ar' \<Longrightarrow>
   \<exists>zs. map originalStatus (entriesOf ar' k) = map originalStatus (entriesOf ar k) @ zs \<and>
        set zs \<subseteq> {StatusAdded}"
proof (induction ops arbitrary: ar)
  case (Cons op ops)
  from Cons.prems obtain ar1 where ar1: "applyChildOp env c op ar = Inr ar1"
    "runChildOps env c ops ar1 = Inr ar'" by auto
  from applyChildOp_step [OF ar1(1)] obtain ys where
    "map originalStatus (entriesOf ar1 k) = map originalStatus (entriesOf ar k) @ ys"
    "set ys \<subseteq> {StatusAdded}"
    unfolding opStep_def by (cases "k = opKey op") (auto dest!: entryStep_original)
  moreover from Cons.IH [OF ar1(2)] obtain zs where
    "map originalStatus (entriesOf ar' k) = map originalStatus (entriesOf ar1 k) @ zs"
    "set zs \<subseteq> {StatusAdded}" by blast
  ultimately show ?case by (intro exI [of _ "ys @ zs"]) auto
qed simp

end
