(* ===== verification/Aggregate_Contract.thy ===== *)
theory Aggregate_Contract
  imports Aggregate_Props
begin

section \<open>The contract of the aggregate tracker\<close>

text \<open>
  The properties of the tracker stated over its operations, each with a run of a small aggregate
  (a user with addresses identified by all their business fields) where it applies.
\<close>

subsection \<open>A small aggregate\<close>

definition sampleEnv :: "nat avoEnv" where
  "sampleEnv = \<lparr>declaredName = (\<lambda>_. ''Addresses''), wideAlnum = (\<lambda>_. False),
                IsSameBusinessIdentity = IsSameByBusinessFields\<rparr>"

definition sampleUser :: rootClass where
  "sampleUser = \<lparr>rootName = ''User'', rootType = \<lparr>goTypeName = ''User'', labelPlan = (\<lambda>_. \<lparr>label = [], wire = []\<rparr>)\<rparr>,
                 AggregateChildren = [Some \<lparr>sampleClass = ''Address'', sampleBuildsRules = True\<rparr>]\<rparr>"

definition address :: "ID option \<Rightarrow> nat \<Rightarrow> nat avo" where
  "address i z =
     \<lparr>avoClass = ''Address'', avoStruct = True, avoManaged = newManaged\<lparr>mid := i\<rparr>,
      avoFields = [\<lparr>fieldName = ''ZipCode'', fieldExported = True, fieldVal = z\<rparr>]\<rparr>"

definition blankRoot :: "(nat, unit) AggregateRoot" where
  "blankRoot =
     \<lparr>managed = newManaged, mode = ModeUnknown, service = None, notifCtx = None, contexts = [],
      events = [], avos = [], old = None, aliases = None, className = [],
      requestedMode = ModeUnknown, rulesWindow = False, aggregates = None\<rparr>"

definition loadedUser :: "(nat, unit) AggregateRoot" where
  "loadedUser =
     AggregateConstructor [Some (address (Some ''a1'') 10), Some (address (Some ''b2'') 20)] blankRoot"

lemmas sample_defs = sampleEnv_def sampleUser_def address_def blankRoot_def loadedUser_def
  newManaged_def

lemma loadedUser_entries:
  "entriesOf loadedUser k =
     (if k = ''Address''
      then [entryWith (address (Some ''a1'') 10) StatusConstructor,
            entryWith (address (Some ''b2'') 20) StatusConstructor]
      else [])"
  by (simp add: loadedUser_def AggregateConstructor_def address_def)
    (simp add: entriesOf_def blankRoot_def)

lemma address_same [simp]:
  "IsSameByBusinessFields (address i x) (address j y) \<longleftrightarrow> x = y"
  by (simp add: IsSameByBusinessFields_def address_def)

lemma sampleEnv_identity [simp]: "IsSameBusinessIdentity sampleEnv = IsSameByBusinessFields"
  by (simp add: sampleEnv_def)

lemma sample_allowed: "allowedChildTypeNames (AggregateChildren sampleUser) = Inr [''Address'']"
  by (simp add: sampleUser_def)

lemma address_class [simp]: "avoClass (address i x) = ''Address''" "avoStruct (address i x)"
  "avo_GetID (address (Some j) x) = j"
  by (simp_all add: address_def avo_GetID_def Managed_GetID_def)

lemma reactivate_address:
  "j \<noteq> [] \<Longrightarrow> item (reactivate \<lparr>item = address (Some j) x, originalStatus = s, currentStatus = u\<rparr>
     (address None y)) = address (Some j) y"
  by (simp add: reactivate_def Let_def ID_IsEmpty_def withItemID_def withItemMutation_def)
    (simp add: address_def SetID_def)

subsection \<open>Full replace\<close>



text \<open>What the persister reads off the difference.\<close>

lemma resent_class:
  assumes "business_identity same" "\<forall>t\<in>set ts. avoClass t = T \<and> avoStruct t"
    "avoClass (item e) = T" "avoStruct (item e)"
  shows "avoClass (item (resent same ts e)) = T \<and> avoStruct (item (resent same ts e))"
  using assms(2-) by (auto simp: resent_def reactivate_def Let_def withItemID_def
      withItemMutation_def find_Some_iff split: option.splits)

lemma OperationOf_resent:
  "OperationOf (originalStatus (resent same ts e)) (currentStatus (resent same ts e)) =
     (if \<exists>t\<in>set ts. same (item e) t
      then (if originalStatus e = StatusConstructor then OpUpdate else OpInsert)
      else (if originalStatus e = StatusConstructor then OpDelete else OpNoop))"
proof (cases "List.find (\<lambda>t. same (item e) t) ts")
  case None
  then have "\<not> (\<exists>t\<in>set ts. same (item e) t)" by (auto simp: find_None_iff)
  with None show ?thesis by (simp add: resent_def OperationOf_def)
next
  case (Some t)
  then have "\<exists>t\<in>set ts. same (item e) t" by (auto simp: find_Some_iff)
  with Some show ?thesis by (simp add: resent_def OperationOf_def)
qed

lemma reactivate_id:
  "avo_GetID (item e) \<noteq> [] \<Longrightarrow> avoStruct t \<Longrightarrow>
   avo_GetID (item (reactivate e t)) = avo_GetID (item e)"
  by (cases "withItemID (avo_GetID (item e)) t")
    (auto simp: reactivate_def Let_def ID_IsEmpty_def withItemID_def withItemMutation_def SetID_def
      avo_GetID_def [of "t\<lparr>avoManaged := m\<rparr>" for m] Managed_GetID_def [of "m\<lparr>mid := i\<rparr>" for i m])

lemma resent_id:
  assumes "\<exists>t\<in>set ts. same (item e) t" "avo_GetID (item e) \<noteq> []" "\<forall>t\<in>set ts. avoStruct t"
  shows "avo_GetID (item (resent same ts e)) = avo_GetID (item e)"
proof -
  from assms(1) obtain t where t: "List.find (\<lambda>t. same (item e) t) ts = Some t"
    by (metis find_None_iff not_Some_eq)
  then have "t \<in> set ts" by (auto simp: find_Some_iff)
  with assms(2,3) t show ?thesis by (simp add: resent_def reactivate_id)
qed

lemma filterAggregateByOp_entries:
  assumes "\<forall>e\<in>set (entriesOf ar T). avoClass (item e) = T \<and> avoStruct (item e)"
  shows "filterAggregateByOp T True op ar =
    map item (filter (\<lambda>e. OperationOf (originalStatus e) (currentStatus e) = op) (entriesOf ar T))"
  using assms
  by (simp add: filterAggregateByOp_def GetAggregateItemsOf_def toAggregateItem_def filter_map
      comp_def cong: filter_cong)

text \<open>C6: A full replace writes what the difference says. For a collection of children held by
  value whose rows carry ids: the rows deleted are exactly the loaded rows whose identity was not
  re-sent; the rows updated are exactly the loaded rows whose identity was re-sent, each under
  its own row id, in the loaded order; and the items inserted include every item of no tracked
  identity.\<close>

theorem ReplaceAggregateChildrenOf_operations:
  assumes "business_identity (IsSameBusinessIdentity env)"
    and "allowedChildTypeNames (AggregateChildren c) = Inr names" "T \<in> set names"
    and "distinctIdentities (IsSameBusinessIdentity env) (entriesOf ar T)"
    and "distinctItems (IsSameBusinessIdentity env) ts"
    and "\<forall>t\<in>set ts. avoClass t = T \<and> avoStruct t"
    and "\<forall>e\<in>set (entriesOf ar T). avoClass (item e) = T \<and> avoStruct (item e) \<and>
      originalStatus e = StatusConstructor \<and> avo_GetID (item e) \<noteq> []"
    and "ReplaceAggregateChildrenOf env c T (map Some ts) ar = Inr ar'"
  shows "GetRemovedItemsOf T True ar' =
      map item (filter (\<lambda>e. \<forall>t\<in>set ts. \<not> IsSameBusinessIdentity env (item e) t) (entriesOf ar T)) \<and>
    map avo_GetID (GetChangedItemsOf T True ar') =
      map (avo_GetID \<circ> item)
        (filter (\<lambda>e. \<exists>t\<in>set ts. IsSameBusinessIdentity env (item e) t) (entriesOf ar T)) \<and>
    GetAddedItemsOf T True ar' =
      filter (\<lambda>t. \<forall>e\<in>set (entriesOf ar T). \<not> IsSameBusinessIdentity env (item e) t) ts"
proof (intro conjI)
  let ?same = "IsSameBusinessIdentity env" and ?l = "entriesOf ar T"
  from Replace_spec [OF assms(1-5)] assms(6,8)
  have l': "entriesOf ar' T = replaceSpec ?same ?l ts" by auto
  have pure: "\<forall>e\<in>set (entriesOf ar' T). avoClass (item e) = T \<and> avoStruct (item e)"
    using assms(6,7) resent_class [OF assms(1,6)] by (auto simp: l' replaceSpec_def)
  note ops = filterAggregateByOp_entries [OF pure] l' replaceSpec_def filter_map comp_def
    OperationOf_resent entryWith_def OperationOf_def [of StatusAdded]
  show "GetRemovedItemsOf T True ar' =
      map item (filter (\<lambda>e. \<forall>t\<in>set ts. \<not> ?same (item e) t) ?l)"
    using assms(7) by (auto simp: GetRemovedItemsOf_def ops resent_miss intro!: map_cong filter_cong)
  show "map avo_GetID (GetChangedItemsOf T True ar') =
      map (avo_GetID \<circ> item) (filter (\<lambda>e. \<exists>t\<in>set ts. ?same (item e) t) ?l)"
    using assms(6,7) by (auto simp: GetChangedItemsOf_def ops resent_id intro!: map_cong filter_cong)
  show "GetAddedItemsOf T True ar' = filter (\<lambda>t. \<forall>e\<in>set ?l. \<not> ?same (item e) t) ts"
    using assms(7) by (auto simp: GetAddedItemsOf_def ops filter_empty_conv split: if_splits)
qed

theorem ReplaceAggregateChildrenOf_operations_witness:
  "\<exists>ar'. ReplaceAggregateChildrenOf sampleEnv sampleUser ''Address''
       (map Some [address None 20, address None 30]) loadedUser = Inr ar' \<and>
     GetRemovedItemsOf ''Address'' True ar' = [address (Some ''a1'') 10] \<and>
     map avo_GetID (GetChangedItemsOf ''Address'' True ar') = [''b2''] \<and>
     GetAddedItemsOf ''Address'' True ar' = [address None 30]"
proof -
  let ?ts = "[address None 20, address None 30]"
  have d: "distinctIdentities IsSameByBusinessFields (entriesOf loadedUser ''Address'')"
    "distinctItems IsSameByBusinessFields ?ts"
    by (simp_all add: loadedUser_entries distinctIdentities_def distinctItems_def)
  from Replace_spec [OF _ sample_allowed, of sampleEnv "''Address''" loadedUser ?ts] d
  obtain ar' where ar': "ReplaceAggregateChildrenOf sampleEnv sampleUser ''Address''
      (map Some ?ts) loadedUser = Inr ar'"
    by (auto simp: IsSameByBusinessFields_identity)
  from ReplaceAggregateChildrenOf_operations [OF _ sample_allowed _ _ _ _ _ ar'] d
  show ?thesis
    using ar' by (simp add: IsSameByBusinessFields_identity loadedUser_entries entryWith_def)
qed

subsection \<open>One active child per identity\<close>

text \<open>C4: Starting from a collection free of repeated identities, no sequence of operations
  produces two active children of one identity, as long as no change takes the identity of
  another entry that was removed: the identities stay pairwise distinct over the whole tracked
  list, removed entries included.\<close>

theorem child_ops_keep_identities_distinct:
  assumes "business_identity (IsSameBusinessIdentity env)"
    and "trackerInv (IsSameBusinessIdentity env) ar"
    and "freshRun env c ops ar"
    and "runChildOps env c ops ar = Inr ar'"
  shows "trackerInv (IsSameBusinessIdentity env) ar' \<and>
    (\<forall>k. uniqueActive (IsSameBusinessIdentity env) (entriesOf ar' k))"
  using runChildOps_inv [OF assms(1,4,2,3)] business_identity.distinct_uniqueActive [OF assms(1)]
  by (simp add: trackerInv_def)

lemmas op_defs = applyChildOp_def AddAggregateChild_def ChangeAggregateChild_def
  RemoveAggregateChild_def isAllowedChild_def sample_allowed addAggregateItem_def
  changeAggregateItem_def removeAggregateItem_def Let_def

definition sampleOps :: "nat childOp list" where
  "sampleOps = [DoRemove (Some (address None 10)), DoAdd (Some (address None 30)),
                DoChange (Some (address None 20)) (Some (address (Some ''b2'') 40)),
                DoAdd (Some (address None 10))]"

lemma loadedUser_trackerInv: "trackerInv IsSameByBusinessFields loadedUser"
  by (simp add: trackerInv_def loadedUser_entries distinctIdentities_def knownStatuses_def entryWith_def)

theorem child_ops_keep_identities_distinct_witness:
  "\<exists>ar'. runChildOps sampleEnv sampleUser sampleOps loadedUser = Inr ar' \<and>
     trackerInv IsSameByBusinessFields ar' \<and>
     (\<forall>k. uniqueActive IsSameByBusinessFields (entriesOf ar' k))"
proof -
  obtain ar' where run: "runChildOps sampleEnv sampleUser sampleOps loadedUser = Inr ar'"
    by (simp add: sampleOps_def op_defs loadedUser_entries entryWith_def isActive_def markRemoved_def)
  moreover have "freshRun sampleEnv sampleUser sampleOps loadedUser"
    by (simp add: sampleOps_def op_defs loadedUser_entries entryWith_def isActive_def markRemoved_def
        freshChange_def opKey_def classOfItem_def)
  ultimately show ?thesis
    using child_ops_keep_identities_distinct [of sampleEnv loadedUser sampleUser sampleOps]
      loadedUser_trackerInv by (simp add: IsSameByBusinessFields_identity)
qed


text \<open>A change never makes two active children share an identity: whatever the other
  entries, if the active children of every collection had distinct identities before a
  \<^verbatim>\<open>ChangeAggregateChild\<close>, they have after it; a colliding replacement is refused.\<close>

theorem ChangeAggregateChild_keeps_unique_active:
  assumes "business_identity (IsSameBusinessIdentity env)"
    and "ChangeAggregateChild env c x y ar = Inr ar'"
    and "\<forall>k. uniqueActive (IsSameBusinessIdentity env) (entriesOf ar k)"
  shows "uniqueActive (IsSameBusinessIdentity env) (entriesOf ar' k)"
proof -
  have "applyChildOp env c (DoChange x y) ar = Inr ar'" using assms(2) by (simp add: applyChildOp_def)
  from applyChildOp_step [OF this] assms(3) business_identity.change_unique [OF assms(1)]
  show ?thesis by (auto simp: opStep_def)
qed

theorem ChangeAggregateChild_keeps_unique_active_witness:
  "\<exists>ar'. ChangeAggregateChild sampleEnv sampleUser (Some (address None 20))
       (Some (address (Some ''b2'') 40)) loadedUser = Inr ar' \<and>
     uniqueActive IsSameByBusinessFields (entriesOf ar' ''Address'')"
proof -
  obtain ar' where run: "ChangeAggregateChild sampleEnv sampleUser (Some (address None 20))
      (Some (address (Some ''b2'') 40)) loadedUser = Inr ar'"
    by (simp add: op_defs loadedUser_entries entryWith_def isActive_def)
  then show ?thesis
    using ChangeAggregateChild_keeps_unique_active [OF _ run, of "''Address''"]
    by (simp add: IsSameByBusinessFields_identity loadedUser_entries uniqueActive_def)
qed

subsection \<open>Loaded rows and declared types\<close>

text \<open>No sequence of operations forgets or forges a loaded row. The tracked list only ever
  grows at its end, the original status of every entry is what it was, and every entry that was
  appended is a new one, so the loaded entries (the ones an update or a delete can be issued for)
  are exactly the loaded rows, in their order.\<close>

theorem child_ops_keep_loaded_rows:
  assumes "runChildOps env c ops ar = Inr ar'"
  shows "\<exists>zs. map originalStatus (entriesOf ar' k) = map originalStatus (entriesOf ar k) @ zs \<and>
     set zs \<subseteq> {StatusAdded}"
  by (rule runChildOps_original [OF assms])

theorem child_ops_keep_loaded_rows_witness:
  "\<exists>ar' zs. runChildOps sampleEnv sampleUser sampleOps loadedUser = Inr ar' \<and>
     map originalStatus (entriesOf ar' ''Address'') = [StatusConstructor, StatusConstructor] @ zs \<and>
     set zs \<subseteq> {StatusAdded}"
proof -
  obtain ar' where run: "runChildOps sampleEnv sampleUser sampleOps loadedUser = Inr ar'"
    by (simp add: sampleOps_def op_defs loadedUser_entries entryWith_def isActive_def markRemoved_def)
  from child_ops_keep_loaded_rows [OF run, of "''Address''"] run show ?thesis
    by (auto simp: loadedUser_entries entryWith_def)
qed

text \<open>A child of an undeclared type never enters the aggregate: adding, changing or removing
  one leaves every collection as it was and emits exactly one notification, the rejection that
  names the type, at the collection the item declares.\<close>

theorem undeclared_child_is_rejected:
  assumes "allowedChildTypeNames (AggregateChildren c) = Inr names" "avoClass a \<notin> set names"
    and "validateCollectionName (wideAlnum env) (declaredName env (avoClass a)) = None"
    and "op \<in> {DoAdd (Some a), DoRemove (Some a), DoChange (Some a) y}"
  shows "\<exists>ar'. applyChildOp env c op ar = Inr ar' \<and> entriesOf ar' = entriesOf ar \<and>
     emitted ar' = emitted ar @ [kernelNotification ''InvalidAggregateChildNotification'']"
proof -
  let ?n = "kernelNotification ''InvalidAggregateChildNotification''"
  have "applyChildOp env c op ar =
      Inr (entity_AddNotificationMessage ((message_of ?n)\<lparr>
        Path := [NameSegment (declaredName env (avoClass a))], FieldValue := avoClass a\<rparr>)
        (ensureRootInit c ar))"
    using assms by (auto simp: applyChildOp_def AddAggregateChild_def RemoveAggregateChild_def
        ChangeAggregateChild_def isAllowedChild_def rejectChild_def childFieldPath_def
        CollectionSegmentOf_def Let_def)
  then show ?thesis by (simp add: emitted_emit message_of_def)
qed

theorem undeclared_child_is_rejected_witness:
  "\<exists>ar'. applyChildOp sampleEnv (sampleUser\<lparr>AggregateChildren := []\<rparr>) (DoAdd (Some (address None 10)))
       loadedUser = Inr ar' \<and> entriesOf ar' = entriesOf loadedUser \<and>
     emitted ar' = emitted loadedUser @ [kernelNotification ''InvalidAggregateChildNotification'']"
  by (rule undeclared_child_is_rejected [where names = "[]" and a = "address None 10" and y = None])
    (simp_all add: sampleEnv_def sampleUser_def, code_simp)

end
