(* ===== verification/Value_Objects.thy ===== *)
theory Value_Objects
  imports Entity_Model
begin

section \<open>Value objects\<close>

text \<open>
  Model of \<^verbatim>\<open>src/domain/value_object.go\<close>, \<^verbatim>\<open>event_type.go\<close> and of the discovery loop
  \<^verbatim>\<open>validateValueObjectFields\<close> of \<^verbatim>\<open>entity_base.go\<close>.

  A raw value object is consumer code: its \<^verbatim>\<open>IsValid\<close> is a function from the field name and the
  type whose vocabulary names resolve against to the verdict and the messages it adds, in order.
  An enum value object is its underlying scalar, the members it declares and the notification
  for a value outside them. A Go value that may be either is the record \<open>voValue\<close> of the two
  interfaces it satisfies.
\<close>

subsection \<open>Enumerations\<close>

datatype enumScalar = EnumInt int | EnumString string

text \<open>
  A value off the wire: an integer of one of the widths, a float of integral value, another
  float, a string, or a value of another type.
\<close>

datatype rawScalar = RawInt int | RawFloat int | RawFraction | RawString string | RawOther

definition asInt64 :: "rawScalar \<Rightarrow> int option" where
  "asInt64 raw =
     (case raw of
        RawInt n \<Rightarrow> Some n
      | RawFloat n \<Rightarrow> if - (2 ^ 63) \<le> n \<and> n < 2 ^ 63 then Some n else None
      | _ \<Rightarrow> None)"

definition sameUnderlying :: "enumScalar \<Rightarrow> rawScalar \<Rightarrow> bool" where
  "sameUnderlying m raw =
     (case m of
        EnumInt n \<Rightarrow> asInt64 raw = Some n
      | EnumString s \<Rightarrow> raw = RawString s)"

text \<open>The declared type: its name, its members (if it declares \<^verbatim>\<open>Values\<close>), its zero value.\<close>

record enumType =
  enumName :: string
  Values :: "enumScalar list option"
  zeroValue :: enumScalar
  UnknownNotification :: Notification

fun firstMember :: "rawScalar \<Rightarrow> enumScalar \<Rightarrow> enumScalar list \<Rightarrow> enumScalar" where
  "firstMember raw zero [] = zero"
| "firstMember raw zero (m # ms) = (if sameUnderlying m raw then m else firstMember raw zero ms)"

definition EnumByValue :: "enumType \<Rightarrow> rawScalar \<Rightarrow> enumScalar" where
  "EnumByValue E raw =
     firstMember raw (zeroValue E) (case Values E of None \<Rightarrow> [] | Some ms \<Rightarrow> ms)"

definition enumMemberOrUnknown :: "enumType \<Rightarrow> rawScalar \<Rightarrow> enumScalar" where
  "enumMemberOrUnknown E raw =
     (case Values E of
        None \<Rightarrow> zeroValue E
      | Some ms \<Rightarrow> firstMember raw (zeroValue E) ms)"

definition enumIsMember :: "enumScalar \<Rightarrow> enumScalar list \<Rightarrow> bool" where
  "enumIsMember e ms \<longleftrightarrow> e \<in> set ms"

definition ValidateEnumNamed ::
  "enumType \<Rightarrow> enumScalar \<Rightarrow> string \<Rightarrow> ctxView option \<Rightarrow> NotificationContext \<Rightarrow>
   bool \<times> NotificationContext" where
  "ValidateEnumNamed E e name ctx root =
     (if enumIsMember e (case Values E of None \<Rightarrow> [] | Some ms \<Rightarrow> ms) then (True, root)
      else (case ctx of
              None \<Rightarrow> (False, root)
            | Some v \<Rightarrow> (False, AddNotificationNamed (Some v) name (UnknownNotification E) None root)))"

text \<open>The event type of the kernel, an int enum.\<close>

definition EventType :: enumType where
  "EventType = \<lparr>enumName = ''EventType'',
     Values = Some [EnumInt 1, EnumInt 2, EnumInt 3, EnumInt 4], zeroValue = EnumInt 0,
     UnknownNotification = kernelNotification ''InvalidEventTypeNotification''\<rparr>"

subsection \<open>Validators\<close>

type_synonym rawIsValid = "string \<Rightarrow> goType option \<Rightarrow> bool \<times> NotificationMessage list"

record voValue =
  asRaw :: "rawIsValid option"
  asEnum :: "(enumType \<times> enumScalar) option"

datatype ValueObjectValidator =
    RawValidator rawIsValid
  | EnumMembershipValidator enumType enumScalar

definition validatorFor :: "voValue \<Rightarrow> ValueObjectValidator option" where
  "validatorFor vo =
     (case asRaw vo of
        Some f \<Rightarrow> Some (RawValidator f)
      | None \<Rightarrow> (case asEnum vo of
            Some (E, e) \<Rightarrow> Some (EnumMembershipValidator E e)
          | None \<Rightarrow> None))"

definition IsValueObject :: "voValue \<Rightarrow> bool" where
  "IsValueObject vo \<longleftrightarrow> asRaw vo \<noteq> None"

definition IsEnumValueObject :: "voValue \<Rightarrow> bool" where
  "IsEnumValueObject vo \<longleftrightarrow> asEnum vo \<noteq> None"

text \<open>
  \<^verbatim>\<open>IsValid\<close> through a validator: the messages it adds on the view \<open>v\<close>; an enum without
  \<^verbatim>\<open>Values\<close> panics.
\<close>

fun validatorMessages ::
  "ValueObjectValidator \<Rightarrow> string \<Rightarrow> goType option \<Rightarrow> gopanic + bool \<times> NotificationMessage list" where
  "validatorMessages (RawValidator f) name t = Inr (f name t)"
| "validatorMessages (EnumMembershipValidator E e) name t =
     (case Values E of
        None \<Rightarrow> Inl (''enum value object '' @ enumName E @ '' must declare Values() []T'')
      | Some ms \<Rightarrow>
          if enumIsMember e ms then Inr (True, [])
          else Inr (False, [(message_of (UnknownNotification E))\<lparr>
                 Path := [\<lparr>Name = name, Wire = resolveNotifyAs t name, Index = None\<rparr>],
                 LabelKey := resolveLabelKey t name\<rparr>]))"

definition addMessages ::
  "ctxView \<Rightarrow> NotificationMessage list \<Rightarrow> NotificationContext \<Rightarrow> NotificationContext" where
  "addMessages v ms root = fold (AddNotificationMessage (Some v)) ms root"

definition validator_IsValid ::
  "ValueObjectValidator \<Rightarrow> string \<Rightarrow> ctxView \<Rightarrow> NotificationContext \<Rightarrow>
   gopanic + bool \<times> NotificationContext" where
  "validator_IsValid vd name v root =
     bind_panic (validatorMessages vd name (viewEntityType v root)) (\<lambda>(ok, ms).
       Inr (ok, addMessages v ms root))"

subsection \<open>Discovery of value-object fields\<close>

text \<open>A struct field as the reflection walk sees it; a nil pointer field is absent.\<close>

record voField =
  voName :: string
  voAnonymous :: bool
  voExported :: bool
  voNilPointer :: bool
  voContent :: voValue

type_synonym voEntry = "string \<times> ValueObjectValidator"

fun discoverLoop ::
  "ctxView \<Rightarrow> string list \<Rightarrow> voField list \<Rightarrow> string list \<Rightarrow> NotificationContext \<Rightarrow>
   gopanic + string list \<times> NotificationContext" where
  "discoverLoop v ignored [] seen root = Inr (seen, root)"
| "discoverLoop v ignored (f # fs) seen root =
     (if voAnonymous f \<or> \<not> voExported f \<or> voNilPointer f then discoverLoop v ignored fs seen root
      else if voName f \<in> set ignored \<or> voName f \<in> set seen then discoverLoop v ignored fs seen root
      else (case validatorFor (voContent f) of
              None \<Rightarrow> discoverLoop v ignored fs seen root
            | Some vd \<Rightarrow>
                bind_panic (validator_IsValid vd (voName f) v root) (\<lambda>(_, root').
                  discoverLoop v ignored fs (voName f # seen) root')))"

fun forcedLoop ::
  "ctxView \<Rightarrow> string list \<Rightarrow> voEntry list \<Rightarrow> string list \<Rightarrow> NotificationContext \<Rightarrow>
   gopanic + NotificationContext" where
  "forcedLoop v ignored [] seen root = Inr root"
| "forcedLoop v ignored ((name, vd) # es) seen root =
     (if name \<in> set ignored \<or> name \<in> set seen then forcedLoop v ignored es seen root
      else bind_panic (validator_IsValid vd name v root) (\<lambda>(_, root').
             forcedLoop v ignored es (name # seen) root'))"

definition validateValueObjectFields ::
  "voField list \<Rightarrow> ctxView \<Rightarrow> string list \<Rightarrow> voEntry list \<Rightarrow> NotificationContext \<Rightarrow>
   gopanic + NotificationContext" where
  "validateValueObjectFields fs v ignored forced root =
     bind_panic (discoverLoop v ignored fs [] root) (\<lambda>(seen, root').
       forcedLoop v ignored forced seen root')"

subsection \<open>The persistence seam\<close>

text \<open>\<^verbatim>\<open>EnumDescriptionKey\<close>: the type name and the underlying value.\<close>

definition EnumDescriptionKey :: "enumType \<Rightarrow> enumScalar option \<Rightarrow> string" where
  "EnumDescriptionKey E v =
     (case v of
        None \<Rightarrow> []
      | Some (EnumInt n) \<Rightarrow> enumName E @ ''.'' @ itoa n
      | Some (EnumString s) \<Rightarrow> enumName E @ ''.'' @ s)"

definition rawOf :: "enumScalar \<Rightarrow> rawScalar" where
  "rawOf e = (case e of EnumInt n \<Rightarrow> RawInt n | EnumString s \<Rightarrow> RawString s)"

subsection \<open>Lemmas: enumerations\<close>

lemma firstMember_cases:
  "firstMember raw z ms = z \<and> (\<forall>m\<in>set ms. \<not> sameUnderlying m raw) \<or>
   firstMember raw z ms \<in> set ms \<and> sameUnderlying (firstMember raw z ms) raw"
  by (induction ms) auto

lemma sameUnderlying_rawOf: "sameUnderlying m (rawOf e) \<longleftrightarrow> m = e"
  by (cases m; cases e) (auto simp: sameUnderlying_def rawOf_def asInt64_def)

lemma sameUnderlying_unique: "sameUnderlying m raw \<Longrightarrow> sameUnderlying n raw \<Longrightarrow> m = n"
  by (cases m; cases n) (auto simp: sameUnderlying_def asInt64_def)

lemma EnumByValue_twin: "EnumByValue E raw = enumMemberOrUnknown E raw"
  by (simp add: EnumByValue_def enumMemberOrUnknown_def split: option.split)

subsection \<open>Lemmas: validation\<close>

lemma addMessages_messages:
  "messages (addMessages v ms root) = messages root @ map (placeIn v) ms"
  unfolding addMessages_def
  by (induction ms arbitrary: root) (simp_all add: view_sink.stored_emit)

lemma addMessages_type [simp]: "viewEntityType v (addMessages v ms root) = viewEntityType v root"
  unfolding addMessages_def
  by (induction ms arbitrary: root) (simp, cases v, simp_all add: appendMessage_def)

text \<open>
  The reference for the two loops: the list of value objects to validate, then one run of their
  validators in that order.
\<close>

fun discovered :: "string list \<Rightarrow> voField list \<Rightarrow> string list \<Rightarrow> voEntry list" where
  "discovered ignored [] seen = []"
| "discovered ignored (f # fs) seen =
     (if voAnonymous f \<or> \<not> voExported f \<or> voNilPointer f \<or>
         voName f \<in> set ignored \<or> voName f \<in> set seen then discovered ignored fs seen
      else (case validatorFor (voContent f) of
              None \<Rightarrow> discovered ignored fs seen
            | Some vd \<Rightarrow> (voName f, vd) # discovered ignored fs (voName f # seen)))"

fun forcedEntries :: "string list \<Rightarrow> voEntry list \<Rightarrow> string list \<Rightarrow> voEntry list" where
  "forcedEntries ignored [] seen = []"
| "forcedEntries ignored ((name, vd) # es) seen =
     (if name \<in> set ignored \<or> name \<in> set seen then forcedEntries ignored es seen
      else (name, vd) # forcedEntries ignored es (name # seen))"

definition validationPlan :: "voField list \<Rightarrow> string list \<Rightarrow> voEntry list \<Rightarrow> voEntry list" where
  "validationPlan fs ignored forced =
     (let ds = discovered ignored fs [] in ds @ forcedEntries ignored forced (map fst ds))"

fun runValidators ::
  "ctxView \<Rightarrow> voEntry list \<Rightarrow> NotificationContext \<Rightarrow> gopanic + NotificationContext" where
  "runValidators v [] root = Inr root"
| "runValidators v ((name, vd) # es) root =
     bind_panic (validator_IsValid vd name v root) (\<lambda>(_, root'). runValidators v es root')"

lemma runValidators_append:
  "runValidators v (es @ es') root = bind_panic (runValidators v es root) (runValidators v es')"
proof (induction es arbitrary: root)
  case (Cons e es)
  obtain name vd where e: "e = (name, vd)" by (cases e)
  show ?case
    by (cases "validator_IsValid vd name v root") (auto simp: e Cons split: prod.splits)
qed simp

lemma discoverLoop_plan:
  "discoverLoop v ignored fs seen root =
     bind_panic (runValidators v (discovered ignored fs seen) root)
       (\<lambda>root'. Inr (rev (map fst (discovered ignored fs seen)) @ seen, root'))"
proof (induction fs arbitrary: seen root)
  case (Cons f fs)
  show ?case
  proof (cases "validatorFor (voContent f)")
    case None
    then show ?thesis by (simp add: Cons)
  next
    case (Some vd)
    then show ?thesis
      by (cases "validator_IsValid vd (voName f) v root") (auto simp: Cons split: prod.splits)
  qed
qed simp

lemma forcedEntries_seen:
  "set seen = set seen' \<Longrightarrow> forcedEntries ignored es seen = forcedEntries ignored es seen'"
proof (induction es arbitrary: seen seen')
  case (Cons e es)
  obtain name vd where e: "e = (name, vd)" by (cases e)
  have "forcedEntries ignored es (name # seen) = forcedEntries ignored es (name # seen')"
    by (rule Cons.IH) (simp add: Cons.prems)
  with Cons.IH [OF Cons.prems] show ?case by (simp add: e Cons.prems)
qed simp

lemma forcedLoop_plan:
  "forcedLoop v ignored es seen root = runValidators v (forcedEntries ignored es seen) root"
proof (induction es arbitrary: seen root)
  case (Cons e es)
  obtain name vd where e: "e = (name, vd)" by (cases e)
  show ?case
    by (cases "validator_IsValid vd name v root") (auto simp: e Cons split: prod.splits)
qed simp

lemma validateValueObjectFields_plan:
  "validateValueObjectFields fs v ignored forced root =
     runValidators v (validationPlan fs ignored forced) root"
proof -
  let ?ds = "discovered ignored fs []"
  have "forcedEntries ignored forced (rev (map fst ?ds)) = forcedEntries ignored forced (map fst ?ds)"
    by (rule forcedEntries_seen) simp
  then show ?thesis
    by (cases "runValidators v ?ds root")
      (simp_all add: validateValueObjectFields_def validationPlan_def discoverLoop_plan
        forcedLoop_plan runValidators_append Let_def)
qed

lemma discovered_names:
  "distinct (map fst (discovered ignored fs seen)) \<and>
   set (map fst (discovered ignored fs seen)) \<inter> (set ignored \<union> set seen) = {}"
proof (induction fs arbitrary: seen)
  case (Cons f fs)
  show ?case
    using Cons.IH [of seen] Cons.IH [of "voName f # seen"] by (cases "validatorFor (voContent f)") auto
qed simp

lemma forcedEntries_names:
  "distinct (map fst (forcedEntries ignored es seen)) \<and>
   set (map fst (forcedEntries ignored es seen)) \<inter> (set ignored \<union> set seen) = {}"
proof (induction es arbitrary: seen)
  case (Cons e es)
  obtain name vd where e: "e = (name, vd)" by (cases e)
  show ?case using Cons.IH [of seen] Cons.IH [of "name # seen"] by (auto simp: e)
qed simp

lemma validationPlan_names:
  "distinct (map fst (validationPlan fs ignored forced)) \<and>
   set (map fst (validationPlan fs ignored forced)) \<inter> set ignored = {}"
  using discovered_names [of ignored fs "[]"]
    forcedEntries_names [of ignored forced "map fst (discovered ignored fs [])"]
  by (auto simp: validationPlan_def Let_def)

lemma discovered_complete:
  assumes "f \<in> set fs" "\<not> voAnonymous f" "voExported f" "\<not> voNilPointer f"
    and "validatorFor (voContent f) = Some vd" "distinct (map voName fs)"
    and "voName f \<notin> set ignored" "voName f \<notin> set seen"
  shows "(voName f, vd) \<in> set (discovered ignored fs seen)"
  using assms
proof (induction fs arbitrary: seen)
  case (Cons a fs)
  show ?case
  proof (cases "f = a")
    case True
    with Cons.prems show ?thesis by simp
  next
    case False
    with Cons.prems(1) have f: "f \<in> set fs" by simp
    with Cons.prems(6) have "voName f \<noteq> voName a" by (metis distinct.simps(2) image_eqI list.set_map list.simps(9))
    note f = f this
    have "(voName f, vd) \<in> set (discovered ignored fs seen)"
      "(voName f, vd) \<in> set (discovered ignored fs (voName a # seen))"
      using Cons.prems f by (auto intro: Cons.IH)
    then show ?thesis by (simp split: option.splits)
  qed
qed simp

text \<open>The messages a run of validators adds.\<close>

lemma validator_IsValid_quiet:
  assumes "validator_IsValid vd name v root = Inr (ok, root')"
  shows "\<exists>ms. validatorMessages vd name (viewEntityType v root) = Inr (ok, ms) \<and>
    root' = addMessages v ms root"
  using assms by (auto simp: validator_IsValid_def)

lemma validator_IsValid_frame:
  assumes "validator_IsValid vd name v root = Inr (ok, root')"
  shows "viewEntityType v root' = viewEntityType v root \<and>
    (\<exists>ms. messages root' = messages root @ ms)"
  using validator_IsValid_quiet [OF assms] by (auto simp: addMessages_messages)

lemma runValidators_silent:
  assumes "runValidators v es root = Inr root'"
  shows "(\<exists>ms. messages root' = messages root @ ms) \<and>
    (messages root' = messages root \<longrightarrow>
      (\<forall>(name, vd)\<in>set es. \<exists>ok. validatorMessages vd name (viewEntityType v root) = Inr (ok, [])))"
  using assms
proof (induction es arbitrary: root)
  case (Cons e es)
  obtain name vd where e: "e = (name, vd)" by (cases e)
  from Cons.prems obtain ok root1 where r1: "validator_IsValid vd name v root = Inr (ok, root1)"
    "runValidators v es root1 = Inr root'" by (auto simp: e)
  from validator_IsValid_quiet [OF r1(1)] obtain ms where
    ms: "validatorMessages vd name (viewEntityType v root) = Inr (ok, ms)"
      "root1 = addMessages v ms root" by blast
  from Cons.IH [OF r1(2)] ms show ?case by (auto simp: e addMessages_messages)
qed simp

end
