(* ===== verification/Entity_Rules.thy ===== *)
theory Entity_Rules
  imports Aggregate_Props Value_Objects
begin

section \<open>The rules DSL\<close>

text \<open>
  Model of \<^verbatim>\<open>src/domain/rules.go\<close> and of the seats that run a \<^verbatim>\<open>BuildRules\<close> body in
  \<^verbatim>\<open>entity_base.go\<close> (\<^verbatim>\<open>buildRules\<close>, \<^verbatim>\<open>buildRulesInWindow\<close>, \<^verbatim>\<open>buildAVORules\<close>).

  A \<^verbatim>\<open>BuildRules\<close> body is consumer code written against \<^verbatim>\<open>Rules\<close> and its own receiver. It is
  data here: a list of statements, one constructor per \<^verbatim>\<open>Rules\<close> method, with guards and values that
  read the receiver, and calls on the receiver of a type \<open>'o\<close>. An interpreter runs it over a host,
  the record of what differs between a root and a child: how the receiver is read, how a call
  acts, where a notification lands. A root's own methods are the datatype \<open>rootCall\<close>, so a rule can
  only do to the private state of \<^verbatim>\<open>BaseEntity\<close> what the package exports. The unwinding panics of Go
  are outcomes: a body completes, is stopped by \<^verbatim>\<open>StopIfInvalid\<close>, or panics.
\<close>

subsection \<open>Rules\<close>

record Rules =
  rmode :: EntityMode
  rctx :: "ctxView option"
  rentityType :: "goType option"
  ignoredVOs :: "string list"
  forcedVOs :: "voEntry list"
  halted :: "bool option"

definition NewRules :: "EntityMode \<Rightarrow> ctxView option \<Rightarrow> goType option \<Rightarrow> Rules" where
  "NewRules m ctx t =
     \<lparr>rmode = m, rctx = ctx, rentityType = t, ignoredVOs = [], forcedVOs = [], halted = None\<rparr>"

text \<open>
  A field reference resolves to the node of its field: its path, the label of its leaf and how its
  current value is read. \<open>None\<close> is a reference that resolves to no field of the receiver.
\<close>

record 'r fieldNode =
  segs :: "PathSegment list"
  leafLabel :: string
  readField :: "'r \<Rightarrow> goValue"

datatype ('r, 'o) ruleStmt =
    AddNotificationStmt "'r fieldNode option" Notification bool
  | AddNotificationWithVarsStmt "'r fieldNode option" Notification "string \<rightharpoonup> string" bool
  | AddNotificationNamedStmt string Notification "('r \<Rightarrow> goValue) option"
  | AddNotificationMessageStmt "'r \<Rightarrow> NotificationMessage"
  | IgnoreValueObjectStmt string
  | ValidateValueObjectStmt string "'r \<Rightarrow> voValue"
  | StopIfInvalidStmt
  | IfModeStmt "EntityMode list" "('r, 'o) ruleStmt list"
  | WhenStmt "'r \<Rightarrow> bool" "('r, 'o) ruleStmt list"
  | CallStmt 'o
  | PanicStmt gopanic

definition IfInsert :: "('r, 'o) ruleStmt list \<Rightarrow> ('r, 'o) ruleStmt" where
  "IfInsert = IfModeStmt [ModeInsert]"

definition IfUpdate :: "('r, 'o) ruleStmt list \<Rightarrow> ('r, 'o) ruleStmt" where
  "IfUpdate = IfModeStmt [ModeUpdate]"

definition IfDelete :: "('r, 'o) ruleStmt list \<Rightarrow> ('r, 'o) ruleStmt" where
  "IfDelete = IfModeStmt [ModeDelete]"

definition IfArchive :: "('r, 'o) ruleStmt list \<Rightarrow> ('r, 'o) ruleStmt" where
  "IfArchive = IfModeStmt [ModeArchive]"

definition IfUnarchive :: "('r, 'o) ruleStmt list \<Rightarrow> ('r, 'o) ruleStmt" where
  "IfUnarchive = IfModeStmt [ModeUnarchive]"

definition IfInsertOrUpdate :: "('r, 'o) ruleStmt list \<Rightarrow> ('r, 'o) ruleStmt" where
  "IfInsertOrUpdate = IfModeStmt [ModeInsert, ModeUpdate]"

definition IfDisplay :: "('r, 'o) ruleStmt list \<Rightarrow> ('r, 'o) ruleStmt" where
  "IfDisplay = IfModeStmt [ModeDisplay]"

subsection \<open>The interpreter\<close>

record ('r, 'o, 's) rulesHost =
  hView :: "'s \<Rightarrow> 'r"
  hCall :: "'o \<Rightarrow> 's \<Rightarrow> gopanic + 's"
  hEmit :: "NotificationMessage \<Rightarrow> 's \<Rightarrow> 's"
  hHasErrors :: "'s \<Rightarrow> bool"

datatype rulesOutcome = Completed | Stopped | Panicked gopanic

definition fieldMessage ::
  "'r fieldNode \<Rightarrow> Notification \<Rightarrow> (string \<rightharpoonup> string) \<Rightarrow> bool \<Rightarrow> 'r \<Rightarrow> NotificationMessage" where
  "fieldMessage node n vars exposeValue r =
     (message_of n)\<lparr>Path := segs node, Vars := vars, LabelKey := leafLabel node,
       FieldValue := (if exposeValue then formatFieldValue (readField node r) else [])\<rparr>"

definition namedMessage ::
  "goType option \<Rightarrow> string \<Rightarrow> Notification \<Rightarrow> goValue option \<Rightarrow> NotificationMessage" where
  "namedMessage t name n val =
     (message_of n)\<lparr>Path := [\<lparr>Name = name, Wire = resolveNotifyAs t name, Index = None\<rparr>],
       LabelKey := resolveLabelKey t name,
       FieldValue := (case val of None \<Rightarrow> [] | Some v \<Rightarrow> formatFieldValue v)\<rparr>"

text \<open>Emitting through a reference; a nil context swallows it before the reference is looked at.\<close>

definition emitField ::
  "('r, 'o, 's) rulesHost \<Rightarrow> 'r fieldNode option \<Rightarrow> Notification \<Rightarrow> (string \<rightharpoonup> string) \<Rightarrow> bool \<Rightarrow>
   Rules \<Rightarrow> 's \<Rightarrow> rulesOutcome \<times> Rules \<times> 's" where
  "emitField h node n vars exposeValue r s =
     (if rctx r = None then (Completed, r, s)
      else (case node of
              None \<Rightarrow> (Panicked ''domain: not a reference to a field of the bound instance'', r, s)
            | Some nd \<Rightarrow> (Completed, r, hEmit h (fieldMessage nd n vars exposeValue (hView h s)) s)))"

definition AddNotificationNamedRule ::
  "('r, 'o, 's) rulesHost \<Rightarrow> string \<Rightarrow> Notification \<Rightarrow> goValue option \<Rightarrow> Rules \<Rightarrow> 's \<Rightarrow> 's" where
  "AddNotificationNamedRule h name n val r s =
     (if rctx r = None then s else hEmit h (namedMessage (rentityType r) name n val) s)"

definition AddNotificationMessageRule ::
  "('r, 'o, 's) rulesHost \<Rightarrow> NotificationMessage \<Rightarrow> Rules \<Rightarrow> 's \<Rightarrow> 's" where
  "AddNotificationMessageRule h msg r s = (if rctx r = None then s else hEmit h msg s)"

definition IgnoreValueObject :: "string \<Rightarrow> Rules \<Rightarrow> Rules" where
  "IgnoreValueObject name r = r\<lparr>ignoredVOs := ignoredVOs r @ [name]\<rparr>"

definition ValidateValueObject :: "string \<Rightarrow> voValue \<Rightarrow> Rules \<Rightarrow> gopanic + Rules" where
  "ValidateValueObject name vo r =
     (case validatorFor vo of
        None \<Rightarrow> Inl (''ValidateValueObject '' @ name @ '': neither a ValueObject nor an EnumValueObject'')
      | Some v \<Rightarrow> Inr (r\<lparr>forcedVOs := forcedVOs r @ [(name, v)]\<rparr>))"

definition StopIfInvalid ::
  "('r, 'o, 's) rulesHost \<Rightarrow> Rules \<Rightarrow> 's \<Rightarrow> rulesOutcome \<times> Rules" where
  "StopIfInvalid h r s =
     (if rctx r = None \<or> \<not> hHasErrors h s then (Completed, r)
      else (Stopped, (case halted r of None \<Rightarrow> r | Some _ \<Rightarrow> r\<lparr>halted := Some True\<rparr>)))"

fun execStmt ::
  "('r, 'o, 's) rulesHost \<Rightarrow> ('r, 'o) ruleStmt \<Rightarrow> Rules \<Rightarrow> 's \<Rightarrow> rulesOutcome \<times> Rules \<times> 's"
and execStmts ::
  "('r, 'o, 's) rulesHost \<Rightarrow> ('r, 'o) ruleStmt list \<Rightarrow> Rules \<Rightarrow> 's \<Rightarrow> rulesOutcome \<times> Rules \<times> 's"
where
  "execStmt h (AddNotificationStmt node n ev) r s = emitField h node n Map.empty ev r s"
| "execStmt h (AddNotificationWithVarsStmt node n vars ev) r s = emitField h node n vars ev r s"
| "execStmt h (AddNotificationNamedStmt name n val) r s =
     (Completed, r, AddNotificationNamedRule h name n (map_option (\<lambda>f. f (hView h s)) val) r s)"
| "execStmt h (AddNotificationMessageStmt f) r s =
     (Completed, r, AddNotificationMessageRule h (f (hView h s)) r s)"
| "execStmt h (IgnoreValueObjectStmt name) r s = (Completed, IgnoreValueObject name r, s)"
| "execStmt h (ValidateValueObjectStmt name f) r s =
     (case ValidateValueObject name (f (hView h s)) r of
        Inl p \<Rightarrow> (Panicked p, r, s)
      | Inr r' \<Rightarrow> (Completed, r', s))"
| "execStmt h StopIfInvalidStmt r s = (let (out, r') = StopIfInvalid h r s in (out, r', s))"
| "execStmt h (IfModeStmt ms body) r s =
     (if rmode r \<in> set ms then execStmts h body r s else (Completed, r, s))"
| "execStmt h (WhenStmt P body) r s =
     (if P (hView h s) then execStmts h body r s else (Completed, r, s))"
| "execStmt h (CallStmt c) r s =
     (case hCall h c s of Inl p \<Rightarrow> (Panicked p, r, s) | Inr s' \<Rightarrow> (Completed, r, s'))"
| "execStmt h (PanicStmt p) r s = (Panicked p, r, s)"
| "execStmts h [] r s = (Completed, r, s)"
| "execStmts h (st # sts) r s =
     (case execStmt h st r s of
        (Completed, r', s') \<Rightarrow> execStmts h sts r' s'
      | res \<Rightarrow> res)"

text \<open>\<open>buildRules\<close> absorbs the stop signal and lets every other panic through.\<close>

definition buildRules ::
  "('r, 'o, 's) rulesHost \<Rightarrow> ('r, 'o) ruleStmt list \<Rightarrow> Rules \<Rightarrow> 's \<Rightarrow>
   gopanic option \<times> Rules \<times> 's" where
  "buildRules h body r s =
     (case execStmts h body r s of
        (Completed, r', s') \<Rightarrow> (None, r', s')
      | (Stopped, r', s') \<Rightarrow> (None, r', s')
      | (Panicked p, r', s') \<Rightarrow> (Some p, r', s'))"

subsection \<open>The root's host\<close>

datatype ('v, 'd) rootCall =
    Mutate "'d \<Rightarrow> gopanic + 'd"
  | CallCompleteAsArchive
  | CallRegisterEvent "('v, 'd) Entity \<Rightarrow> DomainEvent"
  | CallAddNotificationContext "('v, 'd) Entity \<Rightarrow> NotificationContext"
  | CallValidateAVO string "('v, 'd) Entity \<Rightarrow> 'v avo"
  | CallAddFieldNameAlias string string
  | CallStamp string StampOp
  | CallSetID ID
  | CallClearID
  | CallChild "('v, 'd) Entity \<Rightarrow> 'v childOp"

fun rootCallEffect ::
  "'v avoEnv \<Rightarrow> rootClass \<Rightarrow> ('v, 'd) rootCall \<Rightarrow> ('v, 'd) Entity \<Rightarrow> gopanic + ('v, 'd) Entity" where
  "rootCallEffect env c (Mutate f) e = bind_panic (f (data e)) (\<lambda>d. Inr (e\<lparr>data := d\<rparr>))"
| "rootCallEffect env c CallCompleteAsArchive e = CompleteAsArchive e"
| "rootCallEffect env c (CallRegisterEvent f) e = Inr (RegisterEvent (f e) e)"
| "rootCallEffect env c (CallAddNotificationContext f) e = Inr (AddNotificationContext (f e) e)"
| "rootCallEffect env c (CallValidateAVO name f) e = Inr (ValidateAggregateValueObject name (f e) e)"
| "rootCallEffect env c (CallAddFieldNameAlias g w) e = Inr (AddFieldNameAlias g w e)"
| "rootCallEffect env c (CallStamp f op) e = Inr (e\<lparr>managed := stampAs f op (managed e)\<rparr>)"
| "rootCallEffect env c (CallSetID i) e = Inr (e\<lparr>managed := SetID i (managed e)\<rparr>)"
| "rootCallEffect env c CallClearID e = Inr (e\<lparr>managed := ClearID (managed e)\<rparr>)"
| "rootCallEffect env c (CallChild f) e = applyChildOp env c (f e) e"

definition entityHasErrors :: "('v, 'd, 'z) BaseEntity_scheme \<Rightarrow> bool" where
  "entityHasErrors b \<longleftrightarrow> HasErrors (theContext b)"

definition rootHost ::
  "'v avoEnv \<Rightarrow> rootClass \<Rightarrow> (('v, 'd) Entity, ('v, 'd) rootCall, ('v, 'd) Entity) rulesHost" where
  "rootHost env c =
     \<lparr>hView = (\<lambda>e. e), hCall = rootCallEffect env c, hEmit = entity_AddNotificationMessage,
      hHasErrors = entityHasErrors\<rparr>"

definition buildRulesInWindow ::
  "'v avoEnv \<Rightarrow> rootClass \<Rightarrow> (('v, 'd) Entity, ('v, 'd) rootCall) ruleStmt list \<Rightarrow> Rules \<Rightarrow>
   ('v, 'd) Entity \<Rightarrow> gopanic option \<times> Rules \<times> ('v, 'd) Entity" where
  "buildRulesInWindow env c body r e =
     (case buildRules (rootHost env c) body r (e\<lparr>rulesWindow := True\<rparr>) of
        (p, r', e') \<Rightarrow> (p, r', e'\<lparr>rulesWindow := False\<rparr>))"

subsection \<open>A child's host\<close>

text \<open>
  A child validates on a copy: its receiver is the copy, a call acts on the copy alone, and its
  notifications go to the root's context through the scoped view.
\<close>

definition childHost ::
  "ctxView \<Rightarrow> ('v avo, 'v avo \<Rightarrow> gopanic + 'v avo, 'v avo \<times> NotificationContext) rulesHost" where
  "childHost v =
     \<lparr>hView = fst,
      hCall = (\<lambda>f (a, ctx). bind_panic (f a) (\<lambda>a'. Inr (a', ctx))),
      hEmit = (\<lambda>m (a, ctx). (a, AddNotificationMessage (Some v) m ctx)),
      hHasErrors = (\<lambda>(a, ctx). HasErrors ctx)\<rparr>"

type_synonym 'v childBody = "('v avo, 'v avo \<Rightarrow> gopanic + 'v avo) ruleStmt list"

definition missingAVOBuildRules :: "string \<Rightarrow> gopanic" where
  "missingAVOBuildRules cls = ''domain: '' @ cls @ '' declares no BuildRules''"

definition buildAVORules ::
  "'v childBody option \<Rightarrow> 'v avo \<Rightarrow> ctxView \<Rightarrow> Rules \<Rightarrow> NotificationContext \<Rightarrow>
   gopanic option \<times> Rules \<times> NotificationContext" where
  "buildAVORules body a v r ctx =
     (case body of
        None \<Rightarrow> (Some (missingAVOBuildRules (avoClass a)), r, ctx)
      | Some b \<Rightarrow> (case buildRules (childHost v) b r (a, ctx) of (p, r', (_, ctx')) \<Rightarrow> (p, r', ctx')))"

subsection \<open>Lemmas: what a body does, whatever the host\<close>

lemma emitField_rules: "emitField h nd n vars ev r s = (out, r', s') \<Longrightarrow> r' = r \<and> out \<noteq> Stopped"
  by (auto simp: emitField_def split: if_splits option.splits)

lemma exec_frame:
  "execStmt h st r s = (out, r', s') \<Longrightarrow>
     rmode r' = rmode r \<and> rctx r' = rctx r \<and> rentityType r' = rentityType r \<and>
     (if out = Stopped then hHasErrors h s' \<and> (halted r \<noteq> None \<longrightarrow> halted r' = Some True)
      else halted r' = halted r)"
  "execStmts h sts r s = (out, r', s') \<Longrightarrow>
     rmode r' = rmode r \<and> rctx r' = rctx r \<and> rentityType r' = rentityType r \<and>
     (if out = Stopped then hHasErrors h s' \<and> (halted r \<noteq> None \<longrightarrow> halted r' = Some True)
      else halted r' = halted r)"
proof (induction h st r s and h sts r s arbitrary: out r' s' and out r' s'
    rule: execStmt_execStmts.induct)
  case (6 h name f r s)
  then show ?case
    by (auto simp: ValidateValueObject_def split: option.splits)
next
  case (7 h r s)
  then show ?case by (auto simp: StopIfInvalid_def split: if_splits option.splits)
next
  case (13 h st sts r s)
  obtain out1 r1 s1 where 1: "execStmt h st r s = (out1, r1, s1)" by (cases "execStmt h st r s")
  show ?case
  proof (cases "out1 = Completed")
    case True
    with "13.prems" 1 have sts: "execStmts h sts r1 s1 = (out, r', s')" by simp
    have "rmode r' = rmode r1 \<and> rctx r' = rctx r1 \<and>
        rentityType r' = rentityType r1 \<and>
        (if out = Stopped then hHasErrors h s' \<and> (halted r1 \<noteq> None \<longrightarrow> halted r' = Some True)
         else halted r' = halted r1)" by (rule "13.IH"(2) [OF 1 [symmetric] True refl sts])
    with "13.IH"(1) [OF 1] True show ?thesis by simp
  next
    case False
    with "13.prems" 1 have "(out, r', s') = (out1, r1, s1)" by (cases out1) simp_all
    with "13.IH"(1) [OF 1] show ?thesis by simp
  qed
qed (auto simp: IgnoreValueObject_def dest: emitField_rules split: if_splits sum.splits)

lemmas execStmts_frame = exec_frame(2)

lemma execStmts_append:
  "execStmts h (xs @ ys) r s =
     (case execStmts h xs r s of
        (Completed, r', s') \<Rightarrow> execStmts h ys r' s'
      | res \<Rightarrow> res)"
proof (induction xs arbitrary: r s)
  case (Cons x xs)
  obtain out1 r1 s1 where 1: "execStmt h x r s = (out1, r1, s1)" by (cases "execStmt h x r s")
  with Cons show ?case by (cases out1) auto
qed simp

text \<open>A predicate of the host that emitting and every receiver call keep, a whole body keeps.\<close>

lemma exec_keeps:
  assumes "\<And>m s. I s \<Longrightarrow> I (hEmit h m s)" "\<And>c s s'. hCall h c s = Inr s' \<Longrightarrow> I s \<Longrightarrow> I s'"
  shows "execStmt h' st r s = (out, r', s') \<Longrightarrow> h' = h \<Longrightarrow> I s \<Longrightarrow> I s'"
    and "execStmts h' sts r s = (out, r', s') \<Longrightarrow> h' = h \<Longrightarrow> I s \<Longrightarrow> I s'"
proof (induction h' st r s and h' sts r s arbitrary: out r' s' and out r' s'
    rule: execStmt_execStmts.induct)
  case (13 h' st sts r s)
  obtain out1 r1 s1 where 1: "execStmt h' st r s = (out1, r1, s1)" by (cases "execStmt h' st r s")
  with 13 show ?case by (cases out1) auto
qed (auto simp: emitField_def AddNotificationNamedRule_def AddNotificationMessageRule_def
    StopIfInvalid_def assms split: if_splits option.splits sum.splits)

lemma buildRules_exec:
  assumes "buildRules h body r s = (p, r', s')"
  obtains out where "execStmts h body r s = (out, r', s')"
    "p = (case out of Panicked q \<Rightarrow> Some q | _ \<Rightarrow> None)"
proof (cases "execStmts h body r s")
  case (fields out r1 s1)
  with assms that show ?thesis by (cases out) (simp_all add: buildRules_def)
qed

lemma buildRules_keeps:
  assumes "\<And>m s. I s \<Longrightarrow> I (hEmit h m s)" "\<And>c s s'. hCall h c s = Inr s' \<Longrightarrow> I s \<Longrightarrow> I s'"
    and "buildRules h body r s = (p, r', s')" "I s"
  shows "I s'"
proof -
  obtain out where "execStmts h body r s = (out, r', s')" using assms(3) by (rule buildRules_exec)
  then show ?thesis by (rule exec_keeps(2) [where I = I and h = h, rotated 2]) (fact assms refl)+
qed

subsection \<open>The host contract\<close>

text \<open>
  What the barrier relies on: emitting makes the host invalid, and no receiver call takes an
  error back.
\<close>

locale rules_host =
  fixes h :: "('r, 'o, 's) rulesHost"
  assumes emit_has_errors: "hHasErrors h (hEmit h m s)"
    and call_keeps_errors: "hCall h c s = Inr s' \<Longrightarrow> hHasErrors h s \<Longrightarrow> hHasErrors h s'"
begin

lemma body_keeps_errors:
  assumes "execStmts h sts r s = (out, r', s')" "hHasErrors h s"
  shows "hHasErrors h s'"
  by (rule exec_keeps(2) [where I = "hHasErrors h" and h = h, OF _ _ assms(1) refl assms(2)])
    (rule emit_has_errors, erule (1) call_keeps_errors)

lemma barrier:
  assumes "execStmts h pre r s = (Completed, r1, s1)" "hHasErrors h s1" "rctx r \<noteq> None"
  shows "execStmts h (pre @ StopIfInvalidStmt # post) r s =
    (Stopped, (case halted r1 of None \<Rightarrow> r1 | Some _ \<Rightarrow> r1\<lparr>halted := Some True\<rparr>), s1)"
proof -
  obtain v where "rctx r1 = Some v" using assms(3) execStmts_frame [OF assms(1)] by auto
  with assms(1,2) show ?thesis by (simp add: execStmts_append StopIfInvalid_def)
qed

lemma pass_through:
  assumes "execStmts h pre r s = (Completed, r1, s1)" "\<not> hHasErrors h s1"
  shows "execStmts h (pre @ StopIfInvalidStmt # post) r s = execStmts h post r1 s1"
  using assms by (simp add: execStmts_append StopIfInvalid_def)

lemma halted_is_invalid:
  assumes "buildRules h body r s = (p, r', s')" "halted r = Some False" "halted r' = Some True"
  shows "p = None \<and> hHasErrors h s'"
proof -
  obtain out where out: "execStmts h body r s = (out, r', s')"
    "p = (case out of Panicked q \<Rightarrow> Some q | _ \<Rightarrow> None)" using assms(1) by (rule buildRules_exec)
  with execStmts_frame [OF out(1)] assms(2,3) show ?thesis by (cases out) auto
qed

end

subsection \<open>Both hosts honour it\<close>

lemma entityHasErrors_emit [simp]: "entityHasErrors (entity_AddNotificationMessage m b)"
  by (simp add: entityHasErrors_def HasErrors_def entity_AddNotificationMessage_def onContext_def
      ensureContext_def theContext_def Let_def appendMessage_def split: option.splits)

lemma entityHasErrors_emitted: "entityHasErrors b \<longleftrightarrow> emitted b \<noteq> []"
  by (simp add: entityHasErrors_def HasErrors_def emitted_def)

text \<open>Every child operation keeps what was emitted, and may add to it.\<close>

definition emitsOnto :: "('v, 'd, 'z) BaseEntity_scheme \<Rightarrow> ('v, 'd, 'z) BaseEntity_scheme \<Rightarrow> bool" where
  "emitsOnto b b' \<longleftrightarrow> (\<exists>ns. emitted b' = emitted b @ ns)"

lemma emitsOnto_same [intro]: "emitted b' = emitted b \<Longrightarrow> emitsOnto b b'"
  by (simp add: emitsOnto_def)

lemma emitsOnto_emit [intro]:
  "emitted b' = emitted b \<Longrightarrow> emitsOnto b (entity_AddNotificationMessage m b')"
  by (simp add: emitsOnto_def emitted_emit)

lemma emitted_Clear [simp]: "emitted (ClearAggregateItemsOfType T ar) = emitted ar"
  by (rule emitted_cong) simp

lemma emitted_Assign [simp]: "emitted (snd (AssignAggregateItemID env x i ar)) = emitted ar"
  by (simp add: AssignAggregateItemID_def split: option.split)

lemma notifyChild_emits:
  "notifyChild env a key ar1 = Inr ar' \<Longrightarrow> emitted ar1 = emitted ar \<Longrightarrow> emitsOnto ar ar'"
  by (auto simp: notifyChild_def)

lemma addAggregateItem_emits:
  "addAggregateItem env x ar1 = Inr ar' \<Longrightarrow> emitted ar1 = emitted ar \<Longrightarrow> emitsOnto ar ar'"
  by (auto simp: addAggregateItem_def isAggregateItemValid_def Let_def
      split: option.splits addOutcome.splits elim!: notifyChild_emits)

lemma changeAggregateItem_emits:
  "changeAggregateItem env x y ar1 = Inr ar' \<Longrightarrow> emitted ar1 = emitted ar \<Longrightarrow> emitsOnto ar ar'"
  by (auto simp: changeAggregateItem_def isAggregateItemValid_def Let_def
      split: option.splits prod.splits elim!: notifyChild_emits)

lemma removeAggregateItem_emits:
  "removeAggregateItem env x ar1 = Inr ar' \<Longrightarrow> emitted ar1 = emitted ar \<Longrightarrow> emitsOnto ar ar'"
  by (auto simp add: removeAggregateItem_def Let_def simp del: update_first_None
      split: option.splits elim!: notifyChild_emits)

lemma rejectChild_emits:
  "rejectChild env x ar1 = Inr ar' \<Longrightarrow> emitted ar1 = emitted ar \<Longrightarrow> emitsOnto ar ar'"
  by (auto simp: rejectChild_def Let_def split: option.splits)

lemma applyChildOp_emits: "applyChildOp env c op ar = Inr ar' \<Longrightarrow> emitsOnto ar ar'"
  by (cases op)
    (auto simp: applyChildOp_def AddAggregateChild_def ChangeAggregateChild_def
      RemoveAggregateChild_def Let_def split: if_splits
      elim!: rejectChild_emits addAggregateItem_emits changeAggregateItem_emits
        removeAggregateItem_emits)

lemma emitted_BaseEntity_updates [simp]:
  "emitted (b\<lparr>managed := m\<rparr>) = emitted b"
  "emitted (b\<lparr>requestedMode := x\<rparr>) = emitted b"
  "emitted (b\<lparr>rulesWindow := w\<rparr>) = emitted b"
  "emitted (b\<lparr>mode := x\<rparr>) = emitted b"
  "emitted (b\<lparr>events := es\<rparr>) = emitted b"
  "emitted (b\<lparr>contexts := cs\<rparr>) = emitted b"
  "emitted (b\<lparr>avos := as\<rparr>) = emitted b"
  "emitted (b\<lparr>aliases := al\<rparr>) = emitted b"
  "emitted (e\<lparr>data := d\<rparr>) = emitted e"
  by (simp_all add: emitted_def theContext_def)

lemma rootCallEffect_emits: "rootCallEffect env c call e = Inr e' \<Longrightarrow> emitsOnto e e'"
  by (cases call)
    (auto simp: CompleteAsArchive_def RegisterEvent_def AddNotificationContext_def
      ValidateAggregateValueObject_def AddFieldNameAlias_def applyChildOp_emits split: if_splits)

interpretation root_rules: rules_host "rootHost env c" for env c
proof
  show "hHasErrors (rootHost env c) (hEmit (rootHost env c) m s)" for m s
    by (simp add: rootHost_def)
  show "hHasErrors (rootHost env c) s'"
    if "hCall (rootHost env c) call s = Inr s'" "hHasErrors (rootHost env c) s" for call s s'
    using rootCallEffect_emits [of env c call s s'] that
    by (auto simp: rootHost_def entityHasErrors_emitted emitsOnto_def)
qed

interpretation child_rules: rules_host "childHost v" for v
proof
  show "hHasErrors (childHost v) (hEmit (childHost v) m s)" for m s
    by (auto simp: childHost_def HasErrors_def split: prod.split)
  show "hHasErrors (childHost v) s'"
    if "hCall (childHost v) call s = Inr s'" "hHasErrors (childHost v) s" for call s s'
    using that by (auto simp: childHost_def)
qed

text \<open>The root's context only grows during a body; a child only touches the context.\<close>

lemma root_body_emits:
  assumes "buildRules (rootHost env c) body r e = (p, r', e')"
  shows "emitsOnto e e'"
proof (rule buildRules_keeps [where I = "emitsOnto e", OF _ _ assms])
  show "emitsOnto e (hEmit (rootHost env c) m s)" if "emitsOnto e s" for m s
    using that by (auto simp: rootHost_def emitsOnto_def emitted_emit)
  show "emitsOnto e s'" if "hCall (rootHost env c) call s = Inr s'" "emitsOnto e s" for call s s'
    using rootCallEffect_emits [of env c call s s'] that by (auto simp: rootHost_def emitsOnto_def)
qed auto

lemma child_body_messages:
  assumes "buildAVORules body a v r ctx = (p, r', ctx')"
  shows "\<exists>ms. messages ctx' = messages ctx @ ms"
proof (cases body)
  case None
  with assms show ?thesis by (simp add: buildAVORules_def)
next
  case (Some b)
  obtain p1 r1 s1 where b: "buildRules (childHost v) b r (a, ctx) = (p1, r1, s1)"
    by (cases "buildRules (childHost v) b r (a, ctx)")
  have "\<exists>ms. messages (snd s1) = messages ctx @ ms"
    by (rule buildRules_keeps [where I = "\<lambda>s. \<exists>ms. messages (snd s) = messages ctx @ ms", OF _ _ b])
      (auto simp: childHost_def)
  with assms Some b show ?thesis by (auto simp: buildAVORules_def split: prod.splits)
qed

end
