(* ===== verification/Entity_Pipeline.thy ===== *)
theory Entity_Pipeline
  imports Entity_Rules
begin

section \<open>The validation pipeline\<close>

text \<open>
  Model of the validation passes of \<^verbatim>\<open>src/domain/entity_base.go\<close>, the sealed write tokens of
  \<^verbatim>\<open>entity.go\<close>, the snapshot of \<^verbatim>\<open>clone.go\<close> and \<^verbatim>\<open>ValidateAggregateChild\<close> of
  \<^verbatim>\<open>aggregate_root.go\<close>.

  A consumer's entity type is the record \<open>entityClass\<close>: what its methods declare, its rules, its
  fields as the reflection walk sees them, its children's rules and fields, and two functions the
  source takes from libraries (UUID parsing and the JSON round trip of a snapshot). The order in
  which Go ranges over the map of child types is the parameter \<open>order\<close>. A pass returns the panic
  that escaped, or the error, together with the entity as the pass left it; on a panic inside the
  value-object or child validation the entity is the one before that step.
\<close>

record ('v, 'd) entityClass =
  rootOf :: rootClass
  avoEnvOf :: "'v avoEnv"
  Modes :: "EntityMode list"
  RequiresService :: bool
  BuildRules :: "string \<Rightarrow> string option \<Rightarrow> (('v, 'd) Entity, ('v, 'd) rootCall) ruleStmt list"
  voFieldsOf :: "'d \<Rightarrow> voField list"
  isProvider :: bool
  childBuildRules :: "string \<Rightarrow> string \<Rightarrow> string option \<Rightarrow> 'v childBody option"
  childTypeOf :: "string \<Rightarrow> goType"
  childVOFields :: "'v avo \<Rightarrow> voField list"
  parseUUID :: "string \<Rightarrow> string option"
  jsonClone :: "'d \<Rightarrow> 'd option"

subsection \<open>Snapshots\<close>

definition copyAggregateMap :: "'v aggregateMap option \<Rightarrow> 'v aggregateMap option" where
  "copyAggregateMap src = src"

definition captureOld :: "('v, 'd) entityClass \<Rightarrow> ('v, 'd) Entity \<Rightarrow> ('v, 'd) Entity" where
  "captureOld C e =
     (case jsonClone C (data e) of
        None \<Rightarrow> e
      | Some d \<Rightarrow> e\<lparr>old := Some \<lparr>ghostData = d,
          ghostAggregates = (if isProvider C then copyAggregateMap (aggregates e) else None)\<rparr>\<rparr>)"

definition captureOldIfAbsent :: "('v, 'd) entityClass \<Rightarrow> ('v, 'd) Entity \<Rightarrow> ('v, 'd) Entity" where
  "captureOldIfAbsent C e = (if old e \<noteq> None then e else captureOld C e)"

definition ensureInit ::
  "('v, 'd) entityClass \<Rightarrow> ('v, 'd) Entity \<Rightarrow> ('v, 'd) Entity" where
  "ensureInit C = ensureRootInit (rootOf C)"

definition CaptureOld :: "('v, 'd) entityClass \<Rightarrow> ('v, 'd) Entity \<Rightarrow> ('v, 'd) Entity" where
  "CaptureOld C e = captureOldIfAbsent C (ensureInit C e)"

subsection \<open>Collecting the outcome\<close>

fun applyAliases :: "(string \<times> string) list \<Rightarrow> NotificationContext \<Rightarrow> NotificationContext" where
  "applyAliases [] ctx = ctx"
| "applyAliases ((g, w) # kvs) ctx = applyAliases kvs (applyGoFieldAlias g w ctx)"

definition applyFieldAliases ::
  "('v, 'd, 'z) BaseEntity_scheme \<Rightarrow> ('v, 'd, 'z) BaseEntity_scheme" where
  "applyFieldAliases e =
     (case aliases e of
        None \<Rightarrow> e
      | Some [] \<Rightarrow> e
      | Some kvs \<Rightarrow> onContext (applyAliases kvs) e)"

definition collectContexts ::
  "('v, 'd, 'z) BaseEntity_scheme \<Rightarrow> NotificationContext list \<times> ('v, 'd, 'z) BaseEntity_scheme" where
  "collectContexts e =
     (let e1 = ensureContext (applyFieldAliases e) in
      (filter HasErrors (theContext e1 # contexts e1), e1))"

definition checkAllNotifications ::
  "('v, 'd, 'z) BaseEntity_scheme \<Rightarrow> DomainError option \<times> ('v, 'd, 'z) BaseEntity_scheme" where
  "checkAllNotifications e =
     (let (cs, e1) = collectContexts e in (if cs \<noteq> [] then Some cs else None, e1))"

definition checkService ::
  "('v, 'd) entityClass \<Rightarrow> string \<Rightarrow> ('v, 'd) Entity \<Rightarrow> DomainError option \<times> ('v, 'd) Entity" where
  "checkService C actionName e =
     (if service e = None \<and> RequiresService C
      then checkAllNotifications (entity_AddNotificationMessage
             ((message_of (kernelNotification ''ServiceIsRequiredNotification''))
                \<lparr>Path := [NameSegment ''service''], FuncName := actionName\<rparr>) e)
      else (None, e))"

definition modeAllowed :: "('v, 'd) entityClass \<Rightarrow> EntityMode \<Rightarrow> bool" where
  "modeAllowed C m \<longleftrightarrow> m \<in> set (Modes C)"

subsection \<open>Children\<close>

text \<open>The rules and the value objects of one child under its scoped view.\<close>

definition validateChild ::
  "('v, 'd) entityClass \<Rightarrow> EntityMode \<Rightarrow> string \<Rightarrow> string option \<Rightarrow> 'v avo \<Rightarrow> ctxView \<Rightarrow> bool option \<Rightarrow>
   NotificationContext \<Rightarrow> gopanic + bool \<times> NotificationContext" where
  "validateChild C m actionName svc a v pass ctx =
     (case buildAVORules (childBuildRules C (avoClass a) actionName svc) a v
             ((NewRules m (Some v) (Some (childTypeOf C (avoClass a))))\<lparr>halted := pass\<rparr>) ctx of
        (Some p, _, _) \<Rightarrow> Inl p
      | (None, r, ctx1) \<Rightarrow>
          if halted r = Some True then Inr (True, ctx1)
          else bind_panic (validateValueObjectFields (childVOFields C a) v (ignoredVOs r) (forcedVOs r) ctx1)
                 (\<lambda>ctx2. Inr (False, ctx2)))"

fun validateItems ::
  "('v, 'd) entityClass \<Rightarrow> EntityMode \<Rightarrow> string \<Rightarrow> string option \<Rightarrow> string \<Rightarrow> int \<Rightarrow>
   'v avo AggregateItem list \<Rightarrow> NotificationContext \<Rightarrow> gopanic + bool \<times> NotificationContext" where
  "validateItems C m actionName svc coll idx [] ctx = Inr (False, ctx)"
| "validateItems C m actionName svc coll idx (it # its) ctx =
     (if CurrentStatus it = StatusRemoved then validateItems C m actionName svc coll idx its ctx
      else bind_panic
             (validateChild C m actionName svc (Item it)
                (scopedForType (Some (childTypeOf C (avoClass (Item it)))) (NameSegment coll)
                   [IndexSegment idx] RootCtx) (Some False) ctx)
             (\<lambda>(stop, ctx1).
               if stop then Inr (True, ctx1)
               else validateItems C m actionName svc coll (idx + 1) its ctx1))"

fun validateTypes ::
  "('v, 'd) entityClass \<Rightarrow> EntityMode \<Rightarrow> string \<Rightarrow> string option \<Rightarrow>
   (string \<rightharpoonup> 'v avo AggregateItem list) \<Rightarrow> string list \<Rightarrow> NotificationContext \<Rightarrow>
   gopanic + bool \<times> NotificationContext" where
  "validateTypes C m actionName svc items [] ctx = Inr (False, ctx)"
| "validateTypes C m actionName svc items (k # ks) ctx =
     (case items k of
        None \<Rightarrow> validateTypes C m actionName svc items ks ctx
      | Some [] \<Rightarrow> validateTypes C m actionName svc items ks ctx
      | Some (it # its) \<Rightarrow>
          bind_panic (childCollectionSegment (avoEnvOf C) (avoClass (Item it))) (\<lambda>coll.
          bind_panic (validateItems C m actionName svc coll 0 (it # its) ctx) (\<lambda>(stop, ctx1).
            if stop then Inr (True, ctx1)
            else validateTypes C m actionName svc items ks ctx1)))"

fun validateManual ::
  "('v, 'd) entityClass \<Rightarrow> EntityMode \<Rightarrow> string \<Rightarrow> string option \<Rightarrow> (string \<Rightarrow> bool) \<Rightarrow>
   (string \<times> 'v avo) list \<Rightarrow> NotificationContext \<Rightarrow> gopanic + bool \<times> NotificationContext" where
  "validateManual C m actionName svc mapped [] ctx = Inr (False, ctx)"
| "validateManual C m actionName svc mapped ((name, a) # es) ctx =
     (if mapped name then validateManual C m actionName svc mapped es ctx
      else bind_panic
             (validateChild C m actionName svc a
                (scopedForType (Some (childTypeOf C (avoClass a))) (NameSegment name) [] RootCtx)
                (Some False) ctx)
             (\<lambda>(stop, ctx1).
               if stop then Inr (True, ctx1)
               else validateManual C m actionName svc mapped es ctx1))"

definition runAggregateValidations ::
  "('v, 'd) entityClass \<Rightarrow> string list \<Rightarrow> EntityMode \<Rightarrow> string \<Rightarrow> ('v, 'd) Entity \<Rightarrow>
   NotificationContext \<Rightarrow> gopanic + NotificationContext" where
  "runAggregateValidations C order m actionName e ctx =
     (let items = (if isProvider C then AllAggregateItems e else Map.empty) in
      bind_panic (validateTypes C m actionName (service e) items order ctx) (\<lambda>(stop, ctx1).
        if stop then Inr ctx1
        else bind_panic (validateManual C m actionName (service e) (\<lambda>k. k \<in> dom items) (avos e) ctx1)
               (\<lambda>(_, ctx2). Inr ctx2)))"

subsection \<open>One pass\<close>

definition runAutomaticValidations ::
  "('v, 'd) entityClass \<Rightarrow> string list \<Rightarrow> EntityMode \<Rightarrow> string \<Rightarrow> Rules \<Rightarrow> ('v, 'd) Entity \<Rightarrow>
   gopanic option \<times> ('v, 'd) Entity" where
  "runAutomaticValidations C order m actionName r e0 =
     (if halted r = Some True then (None, e0)
      else (let e = ensureContext e0 in
        case bind_panic (validateValueObjectFields (voFieldsOf C (data e)) RootCtx
                           (ignoredVOs r) (forcedVOs r) (theContext e))
               (runAggregateValidations C order m actionName e) of
          Inl p \<Rightarrow> (Some p, e)
        | Inr ctx \<Rightarrow> (None, e\<lparr>notifCtx := Some ctx\<rparr>)))"

type_synonym ('v, 'd) passResult = "(gopanic + DomainError option) \<times> ('v, 'd) Entity"

text \<open>
  What the five \<^verbatim>\<open>validateForX\<close> share: set the mode, check the service, run the rules in their
  window, run the verb's structural gates, run the automatic validations, collect.
\<close>

definition validatePass ::
  "('v, 'd) entityClass \<Rightarrow> string list \<Rightarrow> EntityMode \<Rightarrow> (('v, 'd) Entity \<Rightarrow> ('v, 'd) Entity) \<Rightarrow>
   string \<Rightarrow> ('v, 'd) Entity \<Rightarrow> ('v, 'd) passResult" where
  "validatePass C order m gates actionName e0 =
     (case checkService C actionName (e0\<lparr>mode := m\<rparr>) of
        (Some err, e1) \<Rightarrow> (Inr (Some err), e1)
      | (None, e1) \<Rightarrow>
          (let e2 = ensureContext e1;
               r0 = (NewRules m (Some RootCtx) (Some (rootType (rootOf C))))\<lparr>halted := Some False\<rparr>
           in case buildRulesInWindow (avoEnvOf C) (rootOf C) (BuildRules C actionName (service e2)) r0 e2 of
                (Some p, _, e3) \<Rightarrow> (Inl p, e3)
              | (None, r, e3) \<Rightarrow>
                  (case runAutomaticValidations C order m actionName r (gates e3) of
                     (Some p, e4) \<Rightarrow> (Inl p, e4)
                   | (None, e4) \<Rightarrow> (let (err, e5) = checkAllNotifications e4 in (Inr err, e5)))))"

text \<open>The structural gates: the verb is declared, and the entity has, or has not, a valid id.\<close>

definition modeGate ::
  "('v, 'd) entityClass \<Rightarrow> EntityMode \<Rightarrow> string \<Rightarrow> string \<Rightarrow> string \<Rightarrow>
   ('v, 'd) Entity \<Rightarrow> ('v, 'd) Entity" where
  "modeGate C m seg key func e =
     (if modeAllowed C m then e
      else entity_AddNotificationMessage
             ((message_of (kernelNotification key))\<lparr>Path := [NameSegment seg], FuncName := func\<rparr>) e)"

definition idGate ::
  "('v, 'd) entityClass \<Rightarrow> string \<Rightarrow> string \<Rightarrow> ('v, 'd) Entity \<Rightarrow> ('v, 'd) Entity" where
  "idGate C key func e =
     (case mid (managed e) of
        None \<Rightarrow> entity_AddNotificationMessage
                  ((message_of (kernelNotification key))\<lparr>Path := [NameSegment ''id''], FuncName := func\<rparr>) e
      | Some i \<Rightarrow> onContext (\<lambda>c. snd (ID_IsValid (parseUUID C) i ''id'' (Some RootCtx) c)) e)"

definition noIDGate :: "string \<Rightarrow> ('v, 'd) Entity \<Rightarrow> ('v, 'd) Entity" where
  "noIDGate func e =
     (case mid (managed e) of
        None \<Rightarrow> e
      | Some i \<Rightarrow> entity_AddNotificationMessage
                    ((message_of (kernelNotification ''UnableToInsertWithIDNotification''))
                       \<lparr>Path := [NameSegment ''id''], FieldValue := i, FuncName := func\<rparr>) e)"

definition validateForInsert ::
  "('v, 'd) entityClass \<Rightarrow> string list \<Rightarrow> string \<Rightarrow> ('v, 'd) Entity \<Rightarrow> ('v, 'd) passResult" where
  "validateForInsert C order actionName =
     (let func = ''Insert.'' @ actionName @ ''()'' in
      validatePass C order ModeInsert
        (noIDGate func \<circ> modeGate C ModeInsert ''insertable'' ''InsertNotAllowedNotification'' func)
        actionName)"

definition validateForUpdate ::
  "('v, 'd) entityClass \<Rightarrow> string list \<Rightarrow> string \<Rightarrow> ('v, 'd) Entity \<Rightarrow> ('v, 'd) passResult" where
  "validateForUpdate C order actionName =
     (let func = ''Update.'' @ actionName @ ''()'' in
      validatePass C order ModeUpdate
        (idGate C ''UnableToUpdateWithoutIDNotification'' func \<circ>
         modeGate C ModeUpdate ''updatable'' ''UpdateNotAllowedNotification'' func)
        actionName)"

definition validateForDelete ::
  "('v, 'd) entityClass \<Rightarrow> string list \<Rightarrow> string \<Rightarrow> ('v, 'd) Entity \<Rightarrow> ('v, 'd) passResult" where
  "validateForDelete C order actionName =
     (let func = ''Delete.'' @ actionName @ ''()'' in
      validatePass C order ModeDelete
        (idGate C ''UnableToDeleteWithoutIDNotification'' func \<circ>
         modeGate C ModeDelete ''deletable'' ''DeleteNotAllowedNotification'' func)
        actionName)"

definition validateForArchive ::
  "('v, 'd) entityClass \<Rightarrow> string list \<Rightarrow> string \<Rightarrow> ('v, 'd) Entity \<Rightarrow> ('v, 'd) passResult" where
  "validateForArchive C order actionName =
     (let func = ''Archive.'' @ actionName @ ''()'' in
      validatePass C order ModeArchive
        (idGate C ''UnableToDeleteWithoutIDNotification'' func \<circ>
         modeGate C ModeArchive ''archivable'' ''ArchiveNotAllowedNotification'' func)
        actionName)"

definition validateForUnarchive ::
  "('v, 'd) entityClass \<Rightarrow> string list \<Rightarrow> string \<Rightarrow> ('v, 'd) Entity \<Rightarrow> ('v, 'd) passResult" where
  "validateForUnarchive C order actionName =
     (let func = ''Unarchive.'' @ actionName @ ''()'' in
      validatePass C order ModeUnarchive
        (idGate C ''UnableToDeleteWithoutIDNotification'' func \<circ>
         modeGate C ModeUnarchive ''unarchivable'' ''UnarchiveNotAllowedNotification'' func)
        actionName)"

subsection \<open>Sealed writes\<close>

text \<open>
  The tokens a successful \<^verbatim>\<open>Get*\<close> returns. \<open>vSource\<close> is the entity at the moment of the seal;
  \<open>vAggregate\<close> says whether the aggregate path applies. The clock is a parameter.
\<close>

record ('v, 'd) ValidEntity =
  vEntityName :: string
  vActionName :: string
  vDateTime :: int
  vEvents :: "DomainEvent list"
  vSource :: "('v, 'd) Entity"
  vAggregate :: bool

record ('v, 'd) Insertable = "('v, 'd) ValidEntity" +
  insertID :: "ID option"

record ('v, 'd) Updatable = "('v, 'd) ValidEntity" +
  updateID :: ID
  partial :: bool
  entityMode :: EntityMode

record ('v, 'd) Deletable = "('v, 'd) ValidEntity" +
  deleteID :: ID

record ('v, 'd) Archivable = "('v, 'd) ValidEntity" +
  archiveID :: ID

record ('v, 'd) Unarchivable = "('v, 'd) ValidEntity" +
  unarchiveID :: ID

datatype getError = DomainErr DomainError | ApplyErr string

type_synonym ('v, 'd, 't) getResult = "(gopanic + getError + 't) \<times> ('v, 'd) Entity"

definition buildMetadata ::
  "('v, 'd) entityClass \<Rightarrow> string \<Rightarrow> int \<Rightarrow> ('v, 'd) Entity \<Rightarrow> ('v, 'd) ValidEntity" where
  "buildMetadata C actionName now e =
     \<lparr>vEntityName = rootName (rootOf C), vActionName = actionName, vDateTime = now,
      vEvents = events e, vSource = e, vAggregate = isProvider C\<rparr>"

text \<open>Dereferencing the id pointer of the entity.\<close>

definition derefID :: "('v, 'd) Entity \<Rightarrow> gopanic + ID" where
  "derefID e = (case mid (managed e) of
     None \<Rightarrow> Inl ''runtime error: invalid memory address or nil pointer dereference''
   | Some i \<Rightarrow> Inr i)"

definition sealWith ::
  "('v, 'd) passResult \<Rightarrow> (('v, 'd) Entity \<Rightarrow> (gopanic + 't) \<times> ('v, 'd) Entity) \<Rightarrow>
   ('v, 'd, 't) getResult" where
  "sealWith res f =
     (case res of
        (Inl p, e) \<Rightarrow> (Inl p, e)
      | (Inr (Some err), e) \<Rightarrow> (Inr (Inl (DomainErr err)), e)
      | (Inr None, e) \<Rightarrow> (case f e of
          (Inl p, e') \<Rightarrow> (Inl p, e')
        | (Inr t, e') \<Rightarrow> (Inr (Inr t), e')))"

definition prepare :: "string option \<Rightarrow> ('v, 'd) Entity \<Rightarrow> ('v, 'd) Entity" where
  "prepare svc e = (resetEntity e)\<lparr>service := svc\<rparr>"

definition getInsertable ::
  "('v, 'd) entityClass \<Rightarrow> string list \<Rightarrow> int \<Rightarrow> string option \<Rightarrow> string \<Rightarrow> ('v, 'd) Entity \<Rightarrow>
   ('v, 'd, ('v, 'd) Insertable) getResult" where
  "getInsertable C order now svc actionName e =
     sealWith (validateForInsert C order actionName (prepare svc (ensureInit C e)))
       (\<lambda>e'. (Inr (ValidEntity.extend (buildMetadata C actionName now e')
                      (Insertable.fields (mid (managed e')))), e'))"

text \<open>
  A mutation handed to \<^verbatim>\<open>GetUpdatable\<close>: the receiver calls it makes and the error it may return.
\<close>

type_synonym ('v, 'd) applyFn = "('v, 'd) rootCall list \<times> (('v, 'd) Entity \<Rightarrow> string option)"

fun runCalls ::
  "'v avoEnv \<Rightarrow> rootClass \<Rightarrow> ('v, 'd) rootCall list \<Rightarrow> ('v, 'd) Entity \<Rightarrow> gopanic + ('v, 'd) Entity" where
  "runCalls env c [] e = Inr e"
| "runCalls env c (x # xs) e = bind_panic (rootCallEffect env c x e) (runCalls env c xs)"

definition sealUpdate ::
  "('v, 'd) entityClass \<Rightarrow> int \<Rightarrow> string \<Rightarrow> bool \<Rightarrow> ('v, 'd) Entity \<Rightarrow>
   (gopanic + ('v, 'd) Updatable) \<times> ('v, 'd) Entity" where
  "sealUpdate C now actionName isPartial e =
     (let (requested, e1) = takeRequestedMode e in
      if requested \<noteq> ModeUnknown \<and> \<not> modeAllowed C requested
      then (Inl (''domain.CompleteAsArchive on '' @ rootName (rootOf C) @ '': the entity does not declare ''
                 @ modeString requested), e1)
      else (bind_panic (derefID e1) (\<lambda>i.
              Inr (ValidEntity.extend (buildMetadata C actionName now e1)
                     (Updatable.fields i isPartial
                        (if requested \<noteq> ModeUnknown then requested else ModeUpdate)))), e1))"

definition getUpdatable ::
  "('v, 'd) entityClass \<Rightarrow> string list \<Rightarrow> int \<Rightarrow> ('v, 'd) applyFn option \<Rightarrow> string option \<Rightarrow> string \<Rightarrow>
   bool \<Rightarrow> ('v, 'd) Entity \<Rightarrow> ('v, 'd, ('v, 'd) Updatable) getResult" where
  "getUpdatable C order now app svc actionName isPartial e =
     (let e1 = captureOldIfAbsent C (ensureInit C e);
          go = (\<lambda>e2. sealWith (validateForUpdate C order actionName (prepare svc e2))
                       (sealUpdate C now actionName isPartial))
      in case app of
           None \<Rightarrow> go e1
         | Some (calls, err) \<Rightarrow>
             (case runCalls (avoEnvOf C) (rootOf C) calls e1 of
                Inl p \<Rightarrow> (Inl p, e1)
              | Inr e2 \<Rightarrow> (case err e2 of
                  Some msg \<Rightarrow> (Inr (Inl (ApplyErr msg)), e2)
                | None \<Rightarrow> go e2)))"

definition getDeletable ::
  "('v, 'd) entityClass \<Rightarrow> string list \<Rightarrow> int \<Rightarrow> string option \<Rightarrow> string \<Rightarrow> ('v, 'd) Entity \<Rightarrow>
   ('v, 'd, ('v, 'd) Deletable) getResult" where
  "getDeletable C order now svc actionName e =
     sealWith (validateForDelete C order actionName
                (prepare svc (captureOldIfAbsent C (ensureInit C e))))
       (\<lambda>e'. (bind_panic (derefID e') (\<lambda>i.
                Inr (ValidEntity.extend (buildMetadata C actionName now e') (Deletable.fields i))), e'))"

definition getArchivable ::
  "('v, 'd) entityClass \<Rightarrow> string list \<Rightarrow> int \<Rightarrow> string option \<Rightarrow> string \<Rightarrow> ('v, 'd) Entity \<Rightarrow>
   ('v, 'd, ('v, 'd) Archivable) getResult" where
  "getArchivable C order now svc actionName e =
     sealWith (validateForArchive C order actionName
                (prepare svc (captureOldIfAbsent C (ensureInit C e))))
       (\<lambda>e'. (bind_panic (derefID e') (\<lambda>i.
                Inr (ValidEntity.extend (buildMetadata C actionName now e') (Archivable.fields i))), e'))"

definition getUnarchivable ::
  "('v, 'd) entityClass \<Rightarrow> string list \<Rightarrow> int \<Rightarrow> string option \<Rightarrow> string \<Rightarrow> ('v, 'd) Entity \<Rightarrow>
   ('v, 'd, ('v, 'd) Unarchivable) getResult" where
  "getUnarchivable C order now svc actionName e =
     sealWith (validateForUnarchive C order actionName
                (prepare svc (captureOldIfAbsent C (ensureInit C e))))
       (\<lambda>e'. (bind_panic (derefID e') (\<lambda>i.
                Inr (ValidEntity.extend (buildMetadata C actionName now e') (Unarchivable.fields i))), e'))"

text \<open>The fresh check: it clears what was emitted before, and seals nothing.\<close>

definition IsValid ::
  "('v, 'd) entityClass \<Rightarrow> string list \<Rightarrow> EntityMode \<Rightarrow> string option \<Rightarrow> ('v, 'd) Entity \<Rightarrow>
   (gopanic + bool \<times> NotificationContext list) \<times> ('v, 'd) Entity" where
  "IsValid C order m svc e =
     (let e1 = prepare svc (onContext Clear (ensureInit C e));
          (res, e2) = (case m of
             ModeInsert \<Rightarrow> validateForInsert C order ''isValid'' e1
           | ModeUpdate \<Rightarrow> validateForUpdate C order ''isValid'' e1
           | ModeDelete \<Rightarrow> validateForDelete C order ''isValid'' e1
           | ModeArchive \<Rightarrow> validateForArchive C order ''isValid'' e1
           | ModeUnarchive \<Rightarrow> validateForUnarchive C order ''isValid'' e1
           | _ \<Rightarrow> (Inr None, e1))
      in case res of
           Inl p \<Rightarrow> (Inl p, e2)
         | Inr _ \<Rightarrow> (let (cs, e3) = collectContexts e2 in (Inr (cs = [], cs), e3)))"

subsection \<open>Validating one child at add time\<close>

definition ValidateAggregateChild ::
  "('v, 'd) entityClass \<Rightarrow> 'v avo option \<Rightarrow> EntityMode \<Rightarrow> string \<Rightarrow> string option \<Rightarrow> ('v, 'd) Entity \<Rightarrow>
   gopanic + bool \<times> ('v, 'd) Entity" where
  "ValidateAggregateChild C x m actionName svc e =
     (case x of
        None \<Rightarrow> Inr (False, e)
      | Some a \<Rightarrow>
          (let e1 = ensureContext (ensureInit C e);
               idx = int (length (filter isActive (entriesOf e1 (avoClass a))))
           in bind_panic (childCollectionSegment (avoEnvOf C) (avoClass a)) (\<lambda>coll.
              bind_panic (validateChild C m actionName svc a
                 (scopedForType (Some (childTypeOf C (avoClass a))) (NameSegment coll)
                    [IndexSegment idx] RootCtx) None (theContext e1)) (\<lambda>(_, ctx).
                Inr (length (messages ctx) = length (messages (theContext e1)),
                     e1\<lparr>notifCtx := Some ctx\<rparr>)))))"

end
