(* ===== verification/Pipeline_Props.thy ===== *)
theory Pipeline_Props
  imports Entity_Pipeline
begin

section \<open>Lemmas on the validation pipeline\<close>

text \<open>
  What each step of a pass leaves alone, what a successful pass implies about every value object
  and child it visited, and how the private state (snapshot, rules window, requested mode) evolves.
\<close>

subsection \<open>The private state\<close>

text \<open>The part of \<^verbatim>\<open>BaseEntity\<close> that no emission and no child operation touches.\<close>

definition core :: "('v, 'd, 'z) BaseEntity_scheme \<Rightarrow>
  Managed \<times> string option \<times> ('v, 'd) ghost option \<times> EntityMode \<times> bool" where
  "core b = (managed b, service b, old b, requestedMode b, rulesWindow b)"

lemma core_updates [simp]:
  "core (b\<lparr>notifCtx := c\<rparr>) = core b"
  "core (b\<lparr>mode := m\<rparr>) = core b"
  "core (b\<lparr>className := n\<rparr>) = core b"
  by (simp_all add: core_def)

lemma core_ensureContext [simp]: "core (ensureContext b) = core b"
  by (simp add: core_def ensureContext_def Let_def split: option.split)

lemma core_onContext [simp]: "core (onContext f b) = core b"
  by (simp add: onContext_def Let_def)

lemma core_emit [simp]: "core (entity_AddNotificationMessage m b) = core b"
  by (simp add: entity_AddNotificationMessage_def)

lemma core_initWithName [simp]: "core (initWithName n t b) = core b"
  by (simp add: initWithName_def Let_def)

lemma core_ensureRootInit [simp]: "core (ensureRootInit c b) = core b"
  by (simp add: ensureRootInit_def)

lemma core_ensureAggregates [simp]: "core (ensureAggregates ar) = core ar"
  by (simp add: core_def ensureAggregates_def split: option.split)

lemma core_setEntries [simp]: "core (setEntries k l ar) = core ar"
  by (simp add: core_def setEntries_def)

lemma core_Clear [simp]: "core (ClearAggregateItemsOfType T ar) = core ar"
  by (simp add: ClearAggregateItemsOfType_def split: option.split)

lemma core_Assign [simp]: "core (snd (AssignAggregateItemID env x i ar)) = core ar"
  by (simp add: AssignAggregateItemID_def split: option.split)

lemma applyChildOp_core: "applyChildOp env c op ar = Inr ar' \<Longrightarrow> core ar' = core ar"
  by (cases op)
    (auto simp add: applyChildOp_def AddAggregateChild_def ChangeAggregateChild_def
      RemoveAggregateChild_def addAggregateItem_def changeAggregateItem_def removeAggregateItem_def
      rejectChild_def notifyChild_def isAggregateItemValid_def Let_def simp del: update_first_None
      split: if_splits option.splits prod.splits addOutcome.splits)

text \<open>What a receiver call may change of it.\<close>

definition callCore :: "('v, 'd) rootCall \<Rightarrow> ('v, 'd) Entity \<Rightarrow> ('v, 'd) Entity \<Rightarrow> bool" where
  "callCore call e e' \<longleftrightarrow>
     service e' = service e \<and> old e' = old e \<and> rulesWindow e' = rulesWindow e \<and>
     requestedMode e' \<in> {requestedMode e, ModeArchive} \<and>
     (requestedMode e' \<noteq> requestedMode e \<longrightarrow> rulesWindow e \<and> mode e = ModeUpdate)"

lemma rootCallEffect_core: "rootCallEffect env c call e = Inr e' \<Longrightarrow> callCore call e e'"
proof (cases call)
  case (CallChild f)
  assume "rootCallEffect env c call e = Inr e'"
  with CallChild applyChildOp_core [of env c "f e" e e'] show ?thesis
    by (simp add: callCore_def core_def)
qed (auto simp: callCore_def CompleteAsArchive_def RegisterEvent_def AddNotificationContext_def
    ValidateAggregateValueObject_def AddFieldNameAlias_def split: if_splits)

text \<open>The relation between the states before and after any number of calls and emissions.\<close>

definition ruleCore :: "('v, 'd) Entity \<Rightarrow> ('v, 'd) Entity \<Rightarrow> bool" where
  "ruleCore e e' \<longleftrightarrow>
     service e' = service e \<and> old e' = old e \<and> rulesWindow e' = rulesWindow e \<and>
     requestedMode e' \<in> {requestedMode e, ModeArchive}"

lemma ruleCore_refl [simp]: "ruleCore e e"
  by (simp add: ruleCore_def)

lemma ruleCore_core: "ruleCore e s \<Longrightarrow> core s' = core s \<Longrightarrow> ruleCore e s'"
  by (auto simp: ruleCore_def core_def)

lemma ruleCore_call: "ruleCore e s \<Longrightarrow> callCore call s s' \<Longrightarrow> ruleCore e s'"
  by (auto simp: ruleCore_def callCore_def)

lemma root_body_core:
  assumes "buildRules (rootHost env c) body r e = (p, r', e')"
  shows "ruleCore e e'"
proof (rule buildRules_keeps [where I = "ruleCore e", OF _ _ assms])
  show "ruleCore e (hEmit (rootHost env c) m s)" if "ruleCore e s" for m s
    using that by (simp add: rootHost_def ruleCore_core)
  show "ruleCore e s'" if "hCall (rootHost env c) call s = Inr s'" "ruleCore e s" for call s s'
    using that rootCallEffect_core [of env c call s s'] by (auto simp: rootHost_def ruleCore_call)
qed simp

lemma window_body_core:
  assumes "buildRulesInWindow env c body r e = (p, r', e')"
  shows "service e' = service e \<and> old e' = old e \<and> \<not> rulesWindow e' \<and>
    requestedMode e' \<in> {requestedMode e, ModeArchive}"
proof -
  obtain e1 where e1: "buildRules (rootHost env c) body r (e\<lparr>rulesWindow := True\<rparr>) = (p, r', e1)"
    "e' = e1\<lparr>rulesWindow := False\<rparr>"
    using assms by (auto simp: buildRulesInWindow_def split: prod.splits)
  from root_body_core [OF e1(1)] e1(2) show ?thesis by (auto simp: ruleCore_def)
qed

lemma runCalls_core: "runCalls env c calls e = Inr e' \<Longrightarrow> ruleCore e e'"
proof (induction calls arbitrary: e)
  case (Cons x xs)
  then obtain e1 where "rootCallEffect env c x e = Inr e1" "runCalls env c xs e1 = Inr e'" by auto
  with Cons.IH [of e1] rootCallEffect_core [of env c x e e1] show ?case
    by (auto simp: ruleCore_def callCore_def)
qed simp

subsection \<open>The steps of a pass\<close>

lemma core_applyFieldAliases [simp]: "core (applyFieldAliases e) = core e"
  by (simp add: applyFieldAliases_def split: option.split list.split)

lemma core_collectContexts: "collectContexts e = (cs, e') \<Longrightarrow> core e' = core e"
  by (auto simp: collectContexts_def Let_def)

lemma core_checkAll: "checkAllNotifications e = (err, e') \<Longrightarrow> core e' = core e"
  by (auto simp: checkAllNotifications_def Let_def split: prod.splits dest: core_collectContexts)

lemma core_checkService: "checkService C a e = (err, e') \<Longrightarrow> core e' = core e"
  by (auto simp: checkService_def split: if_splits dest: core_checkAll)

lemma core_runAutomatic: "runAutomaticValidations C order m a r e = (p, e') \<Longrightarrow> core e' = core e"
  by (auto simp: runAutomaticValidations_def Let_def split: if_splits sum.splits)

lemma core_gates [simp]:
  "core (modeGate C m seg key func e) = core e"
  "core (idGate C key func e) = core e"
  "core (noIDGate func e) = core e"
  by (simp_all add: modeGate_def idGate_def noIDGate_def split: option.split)

lemma validatePass_core:
  assumes "validatePass C order m gates a e = (res, e')"
    and "\<And>x. core (gates x) = core x" "\<not> rulesWindow e"
  shows "service e' = service e \<and> old e' = old e \<and> \<not> rulesWindow e' \<and>
    requestedMode e' \<in> {requestedMode e, ModeArchive}"
proof -
  obtain serr e1 where 1: "checkService C a (e\<lparr>mode := m\<rparr>) = (serr, e1)"
    by (cases "checkService C a (e\<lparr>mode := m\<rparr>)")
  have c1: "core e1 = core e" using core_checkService [OF 1] by simp
  show ?thesis
  proof (cases serr)
    case (Some x)
    with assms(1) 1 c1 assms(3) show ?thesis by (auto simp: validatePass_def core_def)
  next
    case None
    let ?r0 = "(NewRules m (Some RootCtx) (Some (rootType (rootOf C))))\<lparr>halted := Some False\<rparr>"
    obtain p r e3 where 3: "buildRulesInWindow (avoEnvOf C) (rootOf C)
        (BuildRules C a (service (ensureContext e1))) ?r0 (ensureContext e1) = (p, r, e3)"
      by (metis prod_cases3)
    have c2: "core (ensureContext e1) = core e" using c1 by simp
    from window_body_core [OF 3] c2 have w: "service e3 = service e \<and> old e3 = old e \<and>
        \<not> rulesWindow e3 \<and> requestedMode e3 \<in> {requestedMode e, ModeArchive}"
      by (simp add: core_def)
    have "core e' = core e3"
      using assms(1) 1 None 3
      by (auto simp: validatePass_def Let_def assms(2) split: option.splits prod.splits
          dest!: core_runAutomatic core_checkAll)
    with w show ?thesis by (simp add: core_def)
  qed
qed

subsection \<open>Contexts only grow\<close>

definition grows :: "NotificationContext \<Rightarrow> NotificationContext \<Rightarrow> bool" where
  "grows c c' \<longleftrightarrow> c' = c \<or> (\<exists>m ms. messages c' = messages c @ m # ms)"

lemma grows_refl [simp]: "grows c c"
  by (simp add: grows_def)

lemma grows_trans: "grows a b \<Longrightarrow> grows b c \<Longrightarrow> grows a c"
  unfolding grows_def by (elim disjE exE) auto

lemma grows_silent: "grows c c' \<Longrightarrow> messages c' = [] \<Longrightarrow> c' = c"
  by (auto simp: grows_def)

lemma grows_emit: "grows c (AddNotificationMessage (Some v) m c)"
  by (simp add: grows_def)

lemma grows_append: "grows c (appendMessage m c)"
  by (simp add: grows_def appendMessage_def)

lemma grows_addMessages: "grows c (addMessages v ms c)"
  by (cases ms) (auto simp: grows_def addMessages_messages, simp add: addMessages_def)

lemma validator_grows: "validator_IsValid vd name v c = Inr (ok, c') \<Longrightarrow> grows c c'"
  using validator_IsValid_quiet grows_addMessages by blast

lemma runValidators_grows: "runValidators v es c = Inr c' \<Longrightarrow> grows c c'"
proof (induction es arbitrary: c)
  case (Cons e es)
  obtain name vd where e: "e = (name, vd)" by (cases e)
  from Cons.prems obtain ok c1 where "validator_IsValid vd name v c = Inr (ok, c1)"
    "runValidators v es c1 = Inr c'" by (auto simp: e)
  then show ?case using validator_grows Cons.IH grows_trans by blast
qed simp

lemma child_body_grows:
  assumes "buildAVORules body a v r c = (p, r', c')"
  shows "grows c c'"
proof (cases body)
  case None
  with assms show ?thesis by (simp add: buildAVORules_def)
next
  case (Some b)
  obtain p1 r1 s1 where b: "buildRules (childHost v) b r (a, c) = (p1, r1, s1)"
    by (cases "buildRules (childHost v) b r (a, c)")
  have "grows c (snd s1)"
    by (rule buildRules_keeps [where I = "\<lambda>s. grows c (snd s)", OF _ _ b])
      (auto simp: childHost_def intro: grows_trans [OF _ grows_emit])
  with assms Some b show ?thesis by (auto simp: buildAVORules_def split: prod.splits)
qed

lemma validateChild_grows:
  assumes "validateChild C m a svc x v pass c = Inr (stop, c')"
  shows "grows c c'"
proof -
  let ?r = "(NewRules m (Some v) (Some (childTypeOf C (avoClass x))))\<lparr>halted := pass\<rparr>"
  obtain p r c1 where 1: "buildAVORules (childBuildRules C (avoClass x) a svc) x v ?r c = (p, r, c1)"
    by (metis prod_cases3)
  have "grows c1 c'" using assms 1
    by (auto simp: validateChild_def validateValueObjectFields_plan
        split: option.splits if_splits dest: runValidators_grows)
  with child_body_grows [OF 1] show ?thesis by (rule grows_trans)
qed

lemma validateItems_grows:
  "validateItems C m a svc coll idx its c = Inr (stop, c') \<Longrightarrow> grows c c'"
proof (induction its arbitrary: idx c)
  case (Cons it its)
  then show ?case
    by (auto split: if_splits prod.splits dest!: validateChild_grows intro: grows_trans)
qed simp

lemma validateTypes_grows:
  "validateTypes C m a svc items ks c = Inr (stop, c') \<Longrightarrow> grows c c'"
proof (induction ks arbitrary: c)
  case (Cons k ks)
  then show ?case
    by (auto simp del: validateItems.simps split: if_splits prod.splits option.splits list.splits
        dest!: validateItems_grows intro: grows_trans)
qed simp

lemma validateManual_grows:
  "validateManual C m a svc mapped es c = Inr (stop, c') \<Longrightarrow> grows c c'"
proof (induction es arbitrary: c)
  case (Cons e es)
  then show ?case
    by (cases e)
      (auto split: if_splits prod.splits dest!: validateChild_grows intro: grows_trans)
qed simp

subsection \<open>Rules that ignore no value object\<close>

fun noIgnoreStmt :: "('r, 'o) ruleStmt \<Rightarrow> bool" and noIgnore :: "('r, 'o) ruleStmt list \<Rightarrow> bool" where
  "noIgnoreStmt (IgnoreValueObjectStmt name) = False"
| "noIgnoreStmt (IfModeStmt ms body) = noIgnore body"
| "noIgnoreStmt (WhenStmt P body) = noIgnore body"
| "noIgnoreStmt st = True"
| "noIgnore [] = True"
| "noIgnore (st # sts) = (noIgnoreStmt st \<and> noIgnore sts)"

lemma exec_noIgnore:
  "execStmt h st r s = (out, r', s') \<Longrightarrow> noIgnoreStmt st \<Longrightarrow> ignoredVOs r' = ignoredVOs r"
  "execStmts h sts r s = (out, r', s') \<Longrightarrow> noIgnore sts \<Longrightarrow> ignoredVOs r' = ignoredVOs r"
proof (induction h st r s and h sts r s arbitrary: out r' s' and out r' s'
    rule: execStmt_execStmts.induct)
  case (6 h name f r s)
  then show ?case by (auto simp: ValidateValueObject_def split: option.splits)
next
  case (7 h r s)
  then show ?case by (auto simp: StopIfInvalid_def split: if_splits option.splits)
next
  case (13 h st sts r s)
  obtain out1 r1 s1 where 1: "execStmt h st r s = (out1, r1, s1)" by (cases "execStmt h st r s")
  from "13.prems"(2) have n: "noIgnoreStmt st" "noIgnore sts" by simp_all
  show ?case
  proof (cases "out1 = Completed")
    case True
    with "13.prems"(1) 1 have "execStmts h sts r1 s1 = (out, r', s')" by simp
    from "13.IH"(2) [OF 1 [symmetric] True refl this n(2)] "13.IH"(1) [OF 1 n(1)]
    show ?thesis by simp
  next
    case False
    with "13.prems"(1) 1 have "r' = r1" by (cases out1) simp_all
    with "13.IH"(1) [OF 1 n(1)] show ?thesis by simp
  qed
qed (auto dest: emitField_rules split: if_splits sum.splits)

lemma buildRules_noIgnore:
  "buildRules h body r s = (p, r', s') \<Longrightarrow> noIgnore body \<Longrightarrow> ignoredVOs r' = ignoredVOs r"
  by (erule buildRules_exec) (rule exec_noIgnore(2))

subsection \<open>What a silent pass has accepted\<close>

definition fieldAccepted :: "goType option \<Rightarrow> voField \<Rightarrow> bool" where
  "fieldAccepted t f \<longleftrightarrow>
     voAnonymous f \<or> \<not> voExported f \<or> voNilPointer f \<or>
     (case validatorFor (voContent f) of
        None \<Rightarrow> True
      | Some vd \<Rightarrow> (case validatorMessages vd (voName f) t of Inr (ok, []) \<Rightarrow> True | _ \<Rightarrow> False))"

text \<open>An accepted enum field holds a declared member.\<close>

lemma fieldAccepted_enum:
  assumes "fieldAccepted t f" "\<not> voAnonymous f" "voExported f" "\<not> voNilPointer f"
    and "asRaw (voContent f) = None" "asEnum (voContent f) = Some (E, e)"
  shows "\<exists>ms. Values E = Some ms \<and> e \<in> set ms"
  using assms
  by (auto simp: fieldAccepted_def validatorFor_def enumIsMember_def split: option.splits if_splits)

lemma silent_fields:
  assumes "validateValueObjectFields fs v [] forced c = Inr c" "distinct (map voName fs)" "f \<in> set fs"
  shows "fieldAccepted (viewEntityType v c) f"
proof (cases "voAnonymous f \<or> \<not> voExported f \<or> voNilPointer f \<or> validatorFor (voContent f) = None")
  case True
  then show ?thesis by (auto simp: fieldAccepted_def)
next
  case False
  then obtain vd where vd: "validatorFor (voContent f) = Some vd" by auto
  with False assms(2,3) have "(voName f, vd) \<in> set (discovered [] fs [])"
    by (intro discovered_complete) auto
  then have "(voName f, vd) \<in> set (validationPlan fs [] forced)"
    by (simp add: validationPlan_def Let_def)
  with runValidators_silent [of v "validationPlan fs [] forced" c c] assms(1)
  have "\<exists>ok. validatorMessages vd (voName f) (viewEntityType v c) = Inr (ok, [])"
    by (auto simp: validateValueObjectFields_plan)
  with vd show ?thesis by (auto simp: fieldAccepted_def)
qed

definition childAccepted :: "('v, 'd) entityClass \<Rightarrow> 'v avo \<Rightarrow> bool" where
  "childAccepted C a \<longleftrightarrow>
     (\<forall>f\<in>set (childVOFields C a). fieldAccepted (Some (childTypeOf C (avoClass a))) f)"

lemma scopedForType_view: "scopedForType t seg ss RootCtx = ScopedCtx (seg # ss) t"
  by (simp add: scopedForType_def Scoped_def)

lemma validateChild_silent:
  assumes "validateChild C m a svc x (ScopedCtx pre (Some (childTypeOf C (avoClass x)))) (Some False) c
      = Inr (stop, c')"
    and "messages c' = []"
    and "\<forall>b. childBuildRules C (avoClass x) a svc = Some b \<longrightarrow> noIgnore b"
    and "distinct (map voName (childVOFields C x))"
  shows "\<not> stop \<and> c' = c \<and> childAccepted C x"
proof -
  let ?v = "ScopedCtx pre (Some (childTypeOf C (avoClass x)))"
  let ?r = "(NewRules m (Some ?v) (Some (childTypeOf C (avoClass x))))\<lparr>halted := Some False\<rparr>"
  obtain p r c1 where 1: "buildAVORules (childBuildRules C (avoClass x) a svc) x ?v ?r c = (p, r, c1)"
    by (metis prod_cases3)
  with assms(1) obtain b where p: "p = None" and b: "childBuildRules C (avoClass x) a svc = Some b"
    by (auto simp: validateChild_def buildAVORules_def split: option.splits)
  obtain x1 where body: "buildRules (childHost ?v) b ?r (x, c) = (None, r, (x1, c1))"
    using 1 b p by (auto simp: buildAVORules_def split: prod.splits)
  have ign: "ignoredVOs r = []"
    using buildRules_noIgnore [OF body] assms(3) b by (simp add: NewRules_def)
  have cc: "c' = c" by (rule grows_silent [OF validateChild_grows [OF assms(1)] assms(2)])
  show ?thesis
  proof (cases "halted r = Some True")
    case True
    with child_rules.halted_is_invalid [OF body] have "messages c1 \<noteq> []"
      by (simp add: childHost_def HasErrors_def)
    moreover from True assms(1) 1 p have "c' = c1" by (simp add: validateChild_def)
    ultimately show ?thesis using assms(2) by simp
  next
    case False
    with assms(1) 1 p ign have vo: "validateValueObjectFields (childVOFields C x) ?v [] (forcedVOs r) c1 = Inr c'"
      and stop: "\<not> stop" by (auto simp: validateChild_def)
    have "c' = c1"
      using vo assms(2) by (auto simp: validateValueObjectFields_plan dest: runValidators_grows intro: grows_silent)
    with vo have "\<forall>f\<in>set (childVOFields C x). fieldAccepted (viewEntityType ?v c1) f"
      using silent_fields [OF _ assms(4)] by blast
    with stop cc show ?thesis by (simp add: childAccepted_def)
  qed
qed

text \<open>Rules of the children that ignore no value object, over structs with distinct field names.\<close>

definition childRulesClean :: "('v, 'd) entityClass \<Rightarrow> string \<Rightarrow> string option \<Rightarrow> bool" where
  "childRulesClean C a svc \<longleftrightarrow>
     (\<forall>cls b. childBuildRules C cls a svc = Some b \<longrightarrow> noIgnore b) \<and>
     (\<forall>x. distinct (map voName (childVOFields C x)))"

lemma validateItems_silent:
  assumes "validateItems C m a svc coll idx its c = Inr (stop, c')" "messages c' = []"
    "childRulesClean C a svc"
  shows "\<not> stop \<and> c' = c \<and>
    (\<forall>it\<in>set its. CurrentStatus it \<noteq> StatusRemoved \<longrightarrow> childAccepted C (Item it))"
  using assms(1)
proof (induction its arbitrary: idx c)
  case (Cons it its)
  show ?case
  proof (cases "CurrentStatus it = StatusRemoved")
    case True
    with Cons.prems have "validateItems C m a svc coll idx its c = Inr (stop, c')" by simp
    from Cons.IH [OF this] True show ?thesis by simp
  next
    case False
    let ?v = "ScopedCtx [NameSegment coll, IndexSegment idx] (Some (childTypeOf C (avoClass (Item it))))"
    from False Cons.prems obtain st c1 where
      1: "validateChild C m a svc (Item it) ?v (Some False) c = Inr (st, c1)"
      and 2: "if st then stop \<and> c' = c1 else validateItems C m a svc coll (idx + 1) its c1 = Inr (stop, c')"
      by (auto simp: scopedForType_view split: if_splits)
    have "grows c1 c'" using 2 validateItems_grows by (auto split: if_splits)
    from this assms(2) have c1: "c' = c1" by (rule grows_silent)
    have acc: "\<not> st \<and> c1 = c \<and> childAccepted C (Item it)"
      using validateChild_silent [OF 1] c1 assms(2,3) by (auto simp: childRulesClean_def)
    with 2 have "validateItems C m a svc coll (idx + 1) its c1 = Inr (stop, c')" by simp
    from Cons.IH [OF this] acc show ?thesis by simp
  qed
qed simp

lemma validateTypes_silent:
  assumes "validateTypes C m a svc items ks c = Inr (stop, c')" "messages c' = []"
    "childRulesClean C a svc"
  shows "\<not> stop \<and> c' = c \<and> (\<forall>k\<in>set ks. \<forall>its. items k = Some its \<longrightarrow>
    (\<forall>it\<in>set its. CurrentStatus it \<noteq> StatusRemoved \<longrightarrow> childAccepted C (Item it)))"
  using assms(1)
proof (induction ks arbitrary: c)
  case (Cons k ks)
  show ?case
  proof (cases "items k = None \<or> items k = Some []")
    case True
    with Cons.prems have "validateTypes C m a svc items ks c = Inr (stop, c')" by auto
    from Cons.IH [OF this] True show ?thesis by auto
  next
    case False
    then obtain it its where k: "items k = Some (it # its)" by (cases "items k"; force simp: neq_Nil_conv)
    with Cons.prems obtain coll st c1 where
      1: "validateItems C m a svc coll 0 (it # its) c = Inr (st, c1)"
      and 2: "if st then stop \<and> c' = c1 else validateTypes C m a svc items ks c1 = Inr (stop, c')"
      by (auto simp del: validateItems.simps split: if_splits)
    have "grows c1 c'" using 2 validateTypes_grows by (auto split: if_splits)
    from this assms(2) have c1: "c' = c1" by (rule grows_silent)
    note s = validateItems_silent [OF 1 _ assms(3)]
    with c1 assms(2) have "\<not> st" "c1 = c"
      "\<forall>i\<in>set (it # its). CurrentStatus i \<noteq> StatusRemoved \<longrightarrow> childAccepted C (Item i)" by blast+
    moreover from 2 \<open>\<not> st\<close> have "validateTypes C m a svc items ks c1 = Inr (stop, c')" by simp
    ultimately show ?thesis using Cons.IH [of c1] k by auto
  qed
qed simp

definition childrenAccepted :: "('v, 'd) entityClass \<Rightarrow> ('v, 'd) Entity \<Rightarrow> bool" where
  "childrenAccepted C e \<longleftrightarrow>
     (\<forall>k. \<forall>x\<in>set (entriesOf e k). isActive x \<longrightarrow> childAccepted C (item x))"

lemma runAggregate_silent:
  assumes "runAggregateValidations C order m a e c = Inr c'" "messages c' = []"
    and "childRulesClean C a (service e)" "isProvider C"
    and "\<And>k. entriesOf e k \<noteq> [] \<Longrightarrow> k \<in> set order"
  shows "c' = c \<and> childrenAccepted C e"
proof -
  from assms(1,4) obtain st c1 where
    1: "validateTypes C m a (service e) (AllAggregateItems e) order c = Inr (st, c1)"
    and 2: "st \<and> c' = c1 \<or> \<not> st \<and> (\<exists>y. validateManual C m a (service e)
      (\<lambda>k. k \<in> dom (AllAggregateItems e)) (avos e) c1 = Inr (y, c'))"
    by (auto simp: runAggregateValidations_def Let_def split: if_splits)
  have "grows c1 c'" using 2 validateManual_grows by auto
  from this assms(2) have c1: "c' = c1" by (rule grows_silent)
  from validateTypes_silent [OF 1 _ assms(3)] c1 assms(2)
  have "c1 = c" and acc: "\<forall>k\<in>set order. \<forall>its. AllAggregateItems e k = Some its \<longrightarrow>
    (\<forall>it\<in>set its. CurrentStatus it \<noteq> StatusRemoved \<longrightarrow> childAccepted C (Item it))" by auto
  have "childAccepted C (item x)" if x: "x \<in> set (entriesOf e k)" "isActive x" for k x
  proof -
    obtain am where am: "aggregates e = Some am"
      using x(1) by (cases "aggregates e") (auto simp: entriesOf_def)
    obtain l where "am k = Some l" "x \<in> set l"
      using x(1) am by (cases "am k") (auto simp: entriesOf_def)
    with am have its: "AllAggregateItems e k = Some (map toAggregateItem l)"
      "toAggregateItem x \<in> set (map toAggregateItem l)" by (auto simp: AllAggregateItems_def)
    from x(1) have "k \<in> set order" by (intro assms(5)) auto
    with acc its x(2) show ?thesis by (auto simp: toAggregateItem_def isActive_def)
  qed
  with c1 \<open>c1 = c\<close> show ?thesis by (simp add: childrenAccepted_def)
qed

subsection \<open>What the steps after the rules keep\<close>

definition payload :: "('v, 'd) Entity \<Rightarrow> 'd \<times> 'v aggregateMap option" where
  "payload e = (data e, aggregates e)"

lemma payload_updates [simp]:
  "payload (e\<lparr>notifCtx := c\<rparr>) = payload e"
  "payload (e\<lparr>mode := m\<rparr>) = payload e"
  "payload (e\<lparr>requestedMode := q\<rparr>) = payload e"
  by (simp_all add: payload_def)

lemma payload_ensureContext [simp]: "payload (ensureContext e) = payload e"
  by (simp add: payload_def ensureContext_def Let_def split: option.split)

lemma payload_onContext [simp]: "payload (onContext f e) = payload e"
  by (simp add: onContext_def Let_def)

lemma payload_emit [simp]: "payload (entity_AddNotificationMessage m e) = payload e"
  by (simp add: entity_AddNotificationMessage_def)

lemma payload_gates [simp]:
  "payload (modeGate C m seg key func e) = payload e"
  "payload (idGate C key func e) = payload e"
  "payload (noIDGate func e) = payload e"
  by (simp_all add: modeGate_def idGate_def noIDGate_def entity_AddNotificationMessage_def
      split: option.split)

lemma payload_runAutomatic:
  "runAutomaticValidations C order m a r e = (p, e') \<Longrightarrow> payload e' = payload e"
  by (auto simp: runAutomaticValidations_def Let_def split: if_splits sum.splits)

lemma payload_checkAll: "checkAllNotifications e = (err, e') \<Longrightarrow> payload e' = payload e"
  by (auto simp: checkAllNotifications_def collectContexts_def applyFieldAliases_def Let_def
      split: prod.splits option.splits list.splits)

lemma entriesOf_payload: "payload e' = payload e \<Longrightarrow> entriesOf e' = entriesOf e"
  by (rule ext) (simp add: payload_def entriesOf_def)

subsection \<open>A successful pass\<close>

lemma applyAliases_messages_Nil [simp]: "messages (applyAliases kvs c) = [] \<longleftrightarrow> messages c = []"
  by (induction kvs c rule: applyAliases.induct) simp_all

lemma applyAliases_type [simp]: "entityType (applyAliases kvs c) = entityType c"
  by (induction kvs c rule: applyAliases.induct) (simp_all add: applyGoFieldAlias_def)

lemma theContext_ensureContext [simp]: "theContext (ensureContext b) = theContext b"
  by (simp add: theContext_def ensureContext_def Let_def split: option.split)

lemma theContext_onContext [simp]: "theContext (onContext f b) = f (theContext b)"
proof -
  have "theContext (onContext f b) = f (theContext (ensureContext b))"
    by (simp add: onContext_def Let_def theContext_def [of "x\<lparr>notifCtx := c\<rparr>" for x c])
  then show ?thesis by simp
qed

lemma theContext_applyFieldAliases:
  "messages (theContext (applyFieldAliases e)) = [] \<longleftrightarrow> messages (theContext e) = []"
  "entityType (theContext (applyFieldAliases e)) = entityType (theContext e)"
  by (simp_all add: applyFieldAliases_def split: option.split list.split)

lemma contexts_keep [simp]:
  "contexts (ensureContext b) = contexts b"
  "contexts (onContext f b) = contexts b"
  "contexts (applyFieldAliases b) = contexts b"
  by (simp_all add: applyFieldAliases_def onContext_def ensureContext_def Let_def
      split: option.split list.split)

lemma checkAll_None:
  assumes "checkAllNotifications e = (None, e')"
  shows "messages (theContext e) = [] \<and> messages (theContext e') = [] \<and>
    entityType (theContext e') = entityType (theContext e) \<and>
    contexts e' = contexts e \<and> (\<forall>c\<in>set (contexts e). \<not> HasErrors c)"
  using assms
  by (auto simp: checkAllNotifications_def collectContexts_def Let_def HasErrors_def
      theContext_applyFieldAliases filter_empty_conv split: if_splits prod.splits)

lemma checkAll_Some:
  assumes "checkAllNotifications e = (Some err, e')"
  shows "err = filter HasErrors (theContext e' # contexts e') \<and> err \<noteq> []"
  using assms
  by (auto simp: checkAllNotifications_def collectContexts_def Let_def split: if_splits prod.splits)

lemma checkAll_iff: "fst (checkAllNotifications e) = None \<longleftrightarrow>
    messages (theContext e) = [] \<and> (\<forall>c\<in>set (contexts e). \<not> HasErrors c)"
  by (auto simp: checkAllNotifications_def collectContexts_def Let_def HasErrors_def
      theContext_applyFieldAliases filter_empty_conv split: prod.splits)

lemma runAutomatic_grows:
  "runAutomaticValidations C order m a r e = (None, e') \<Longrightarrow> grows (theContext e) (theContext e')"
proof -
  have *: "theContext (x\<lparr>notifCtx := Some c\<rparr>) = c" for x :: "('v, 'd) Entity" and c
    by (simp add: theContext_def)
  show "runAutomaticValidations C order m a r e = (None, e') \<Longrightarrow> grows (theContext e) (theContext e')"
    by (auto simp: runAutomaticValidations_def runAggregateValidations_def Let_def *
        validateValueObjectFields_plan split: if_splits sum.splits
        dest!: runValidators_grows validateTypes_grows validateManual_grows intro: grows_trans)
qed

definition gateLike :: "(('v, 'd) Entity \<Rightarrow> ('v, 'd) Entity) \<Rightarrow> bool" where
  "gateLike g \<longleftrightarrow> (\<forall>x. core (g x) = core x \<and> payload (g x) = payload x \<and>
     grows (theContext x) (theContext (g x)) \<and> contexts (g x) = contexts x)"

lemma grows_ID_IsValid: "grows c (snd (ID_IsValid parse i f (Some v) c))"
  by (simp add: ID_IsValid_def grows_emit split: option.split)

lemma theContext_emit [simp]:
  "theContext (entity_AddNotificationMessage m b) = AddNotificationMessage (Some RootCtx) m (theContext b)"
  by (simp add: entity_AddNotificationMessage_def)

lemma contexts_emit [simp]: "contexts (entity_AddNotificationMessage m b) = contexts b"
  by (simp add: entity_AddNotificationMessage_def)

lemma gateLike_modeGate: "gateLike (modeGate C m seg key func)"
  by (auto simp: gateLike_def modeGate_def grows_append)

lemma gateLike_idGate: "gateLike (idGate C key func)"
  by (auto simp: gateLike_def idGate_def grows_append grows_ID_IsValid split: option.split)

lemma gateLike_noIDGate: "gateLike (noIDGate func)"
  by (auto simp: gateLike_def noIDGate_def grows_append split: option.split)

lemma gateLike_comp: "gateLike f \<Longrightarrow> gateLike g \<Longrightarrow> gateLike (f \<circ> g)"
  using grows_trans by (fastforce simp: gateLike_def)

lemmas gate_intros = gateLike_comp gateLike_modeGate gateLike_idGate gateLike_noIDGate

lemma checkService_None:
  assumes "checkService C a e = (None, e1)"
  shows "e1 = e"
proof (cases "service e = None \<and> RequiresService C")
  case True
  let ?e = "entity_AddNotificationMessage ((message_of (kernelNotification ''ServiceIsRequiredNotification''))
                \<lparr>Path := [NameSegment ''service''], FuncName := a\<rparr>) e"
  have "fst (checkAllNotifications ?e) \<noteq> None" by (simp add: checkAll_iff appendMessage_def)
  with True assms show ?thesis by (simp add: checkService_def)
next
  case False
  with assms show ?thesis by (simp add: checkService_def)
qed

definition rulesOf :: "('v, 'd) entityClass \<Rightarrow> EntityMode \<Rightarrow> Rules" where
  "rulesOf C m = (NewRules m (Some RootCtx) (Some (rootType (rootOf C))))\<lparr>halted := Some False\<rparr>"

text \<open>The anatomy of a pass that got past the service check.\<close>

lemma validatePass_steps:
  assumes "validatePass C order m gates a e = (Inr res, e')"
  shows "(\<exists>err. fst (checkService C a (e\<lparr>mode := m\<rparr>)) = Some err \<and> res = Some err) \<or>
    (\<exists>r e2 e3 e4. core e2 = core e \<and> payload e2 = payload e \<and>
       buildRulesInWindow (avoEnvOf C) (rootOf C) (BuildRules C a (service e)) (rulesOf C m) e2
         = (None, r, e3) \<and>
       runAutomaticValidations C order m a r (gates e3) = (None, e4) \<and>
       checkAllNotifications e4 = (res, e'))"
proof -
  obtain serr e1 where 1: "checkService C a (e\<lparr>mode := m\<rparr>) = (serr, e1)"
    by (cases "checkService C a (e\<lparr>mode := m\<rparr>)")
  show ?thesis
  proof (cases serr)
    case (Some err)
    with assms 1 show ?thesis by (auto simp: validatePass_def)
  next
    case None
    with 1 checkService_None have "e1 = e\<lparr>mode := m\<rparr>" by blast
    then have c: "core (ensureContext e1) = core e" "payload (ensureContext e1) = payload e" by simp_all
    then have "service (ensureContext e1) = service e" by (simp add: core_def)
    with assms 1 None obtain r e3 e4 where
      "buildRulesInWindow (avoEnvOf C) (rootOf C) (BuildRules C a (service e)) (rulesOf C m)
         (ensureContext e1) = (None, r, e3)"
      "runAutomaticValidations C order m a r (gates e3) = (None, e4)"
      "checkAllNotifications e4 = (res, e')"
      by (auto simp: validatePass_def rulesOf_def Let_def split: prod.splits option.splits)
    with c show ?thesis by blast
  qed
qed

lemma window_halted:
  assumes "buildRulesInWindow env c body r e = (p, r', e')" "halted r = Some False"
  shows "halted r' = Some False \<or> halted r' = Some True \<and> p = None \<and> messages (theContext e') \<noteq> []"
proof -
  obtain e1 where e1: "buildRules (rootHost env c) body r (e\<lparr>rulesWindow := True\<rparr>) = (p, r', e1)"
    "e' = e1\<lparr>rulesWindow := False\<rparr>"
    using assms(1) by (auto simp: buildRulesInWindow_def split: prod.splits)
  obtain out where out: "execStmts (rootHost env c) body r (e\<lparr>rulesWindow := True\<rparr>) = (out, r', e1)"
    using e1(1) by (rule buildRules_exec)
  show ?thesis
  proof (cases "halted r' = Some True")
    case True
    with root_rules.halted_is_invalid [OF e1(1) assms(2)] e1(2) show ?thesis
      by (simp add: rootHost_def entityHasErrors_def HasErrors_def theContext_def)
  next
    case False
    with execStmts_frame [OF out] assms(2) show ?thesis by (auto split: if_splits)
  qed
qed

lemma validatePass_ok:
  assumes "validatePass C order m gates a e = (Inr None, e')" "gateLike gates"
  obtains r e2 e3 e4 where
    "core e2 = core e" "payload e2 = payload e"
    "buildRulesInWindow (avoEnvOf C) (rootOf C) (BuildRules C a (service e)) (rulesOf C m) e2
       = (None, r, e3)"
    "halted r = Some False" "theContext (gates e3) = theContext e3" "messages (theContext e3) = []"
    "runAutomaticValidations C order m a r (gates e3) = (None, e4)"
    "theContext e4 = theContext e3" "checkAllNotifications e4 = (None, e')"
    "payload e' = payload e3"
proof -
  from validatePass_steps [OF assms(1)] obtain r e2 e3 e4 where
    s: "core e2 = core e" "payload e2 = payload e"
      "buildRulesInWindow (avoEnvOf C) (rootOf C) (BuildRules C a (service e)) (rulesOf C m) e2
         = (None, r, e3)"
      "runAutomaticValidations C order m a r (gates e3) = (None, e4)"
      "checkAllNotifications e4 = (None, e')" by auto
  have m4: "messages (theContext e4) = []" using checkAll_None [OF s(5)] by simp
  have c4: "theContext e4 = theContext (gates e3)"
    by (rule grows_silent [OF runAutomatic_grows [OF s(4)] m4])
  have c3: "theContext (gates e3) = theContext e3"
    by (rule grows_silent) (use assms(2) m4 c4 in \<open>auto simp: gateLike_def\<close>)
  have "halted r = Some False"
    using window_halted [OF s(3)] m4 c4 c3 by (simp add: rulesOf_def)
  moreover have "payload e' = payload e3"
    using payload_checkAll [OF s(5)] payload_runAutomatic [OF s(4)] assms(2) by (simp add: gateLike_def)
  ultimately show thesis using that s c3 c4 m4 by simp
qed

end
