(* ===== verification/Pipeline_Contract.thy ===== *)
theory Pipeline_Contract
  imports Pipeline_Props "HOL-Library.Multiset"
begin

section \<open>The contract of the validation pipeline\<close>

text \<open>
  What a sealed write guarantees, what a rejected one reports, what the barrier cuts, and how the
  snapshot, the rules window and the requested mode behave over a whole \<^verbatim>\<open>Get*\<close>. Each property
  has a run of a small entity where it applies.
\<close>

subsection \<open>The anatomy of a seal\<close>

lemma updateGates_silent:
  assumes "theContext ((idGate C key func \<circ> modeGate C m seg key' func') e) = theContext e"
    and "messages (theContext e) = []"
  shows "modeAllowed C m \<and> (\<exists>i. mid (managed e) = Some i \<and> IsUUID (parseUUID C) i)"
proof -
  let ?e1 = "modeGate C m seg key' func' e"
  have g: "grows (theContext ?e1) (theContext (idGate C key func ?e1))"
    using gateLike_idGate by (auto simp: gateLike_def)
  from assms have m: "messages (theContext (idGate C key func ?e1)) = []" by simp
  with g have c1: "theContext (idGate C key func ?e1) = theContext ?e1" by (metis grows_silent)
  with m have "modeAllowed C m" by (auto simp: modeGate_def appendMessage_def split: if_splits)
  moreover from this m have "\<exists>i. mid (managed e) = Some i \<and> IsUUID (parseUUID C) i"
    by (auto simp: modeGate_def idGate_def ID_IsValid_def IsUUID_def appendMessage_def
        split: option.splits)
  ultimately show ?thesis by simp
qed

lemma insertGates_silent:
  assumes "theContext ((noIDGate func \<circ> modeGate C m seg key' func') e) = theContext e"
    and "messages (theContext e) = []"
  shows "modeAllowed C m \<and> mid (managed e) = None"
proof -
  let ?e1 = "modeGate C m seg key' func' e"
  have g: "grows (theContext ?e1) (theContext (noIDGate func ?e1))"
    using gateLike_noIDGate by (auto simp: gateLike_def)
  from assms have m: "messages (theContext (noIDGate func ?e1)) = []" by simp
  with g have c1: "theContext (noIDGate func ?e1) = theContext ?e1" by (metis grows_silent)
  with m have "modeAllowed C m" by (auto simp: modeGate_def appendMessage_def split: if_splits)
  moreover from this m have "mid (managed e) = None"
    by (auto simp: modeGate_def noIDGate_def appendMessage_def split: option.splits)
  ultimately show ?thesis by simp
qed

lemma core_prepare [simp]: "core (prepare svc e) = core (e\<lparr>service := svc\<rparr>)"
  by (simp add: core_def prepare_def resetEntity_def)

lemma payload_prepare [simp]: "payload (prepare svc e) = payload e"
  by (simp add: payload_def prepare_def resetEntity_def)

lemma pass_with_id_ok:
  assumes "validatePass C order m (idGate C key func \<circ> modeGate C m seg key' func') a (prepare svc e)
      = (Inr None, e')"
  shows "emitted e' = [] \<and> (\<forall>c\<in>set (contexts e'). \<not> HasErrors c) \<and> modeAllowed C m \<and>
    (\<exists>i. mid (managed e') = Some i \<and> IsUUID (parseUUID C) i)"
proof -
  let ?g = "idGate C key func \<circ> modeGate C m seg key' func'"
  have g: "gateLike ?g" by (intro gate_intros)
  obtain r e2 e3 e4 where s: "theContext (?g e3) = theContext e3" "messages (theContext e3) = []"
    "runAutomaticValidations C order m a r (?g e3) = (None, e4)" "checkAllNotifications e4 = (None, e')"
    using assms g by (rule validatePass_ok)
  have "managed e' = managed e3"
    using core_checkAll [OF s(4)] core_runAutomatic [OF s(3)] g by (simp add: gateLike_def core_def)
  with updateGates_silent [OF s(1,2)] checkAll_None [OF s(4)] show ?thesis
    by (simp add: emitted_def)
qed

lemma sealWith_ok:
  assumes "sealWith res f = (Inr (Inr t), e')"
  obtains e where "res = (Inr None, e)" "f e = (Inr t, e')"
  using assms
  by (auto simp: sealWith_def split: prod.splits sum.splits option.splits)

lemma getUpdatable_ok:
  assumes "getUpdatable C order now app svc a isPartial e = (Inr (Inr u), e')"
  obtains e2 e3 where "ruleCore (captureOldIfAbsent C (ensureInit C e)) e2"
    "validateForUpdate C order a (prepare svc e2) = (Inr None, e3)"
    "sealUpdate C now a isPartial e3 = (Inr u, e')"
proof -
  let ?e1 = "captureOldIfAbsent C (ensureInit C e)"
  have "\<exists>e2. ruleCore ?e1 e2 \<and>
      sealWith (validateForUpdate C order a (prepare svc e2)) (sealUpdate C now a isPartial)
       = (Inr (Inr u), e')"
  proof (cases app)
    case None
    with assms have "sealWith (validateForUpdate C order a (prepare svc ?e1))
      (sealUpdate C now a isPartial) = (Inr (Inr u), e')" by (simp add: getUpdatable_def Let_def)
    then show ?thesis using ruleCore_refl by blast
  next
    case (Some fn)
    with assms show ?thesis
      by (auto simp: getUpdatable_def Let_def split: option.splits prod.splits sum.splits
          dest: runCalls_core)
  qed
  then obtain e2 where e2: "ruleCore ?e1 e2"
    "sealWith (validateForUpdate C order a (prepare svc e2)) (sealUpdate C now a isPartial)
       = (Inr (Inr u), e')" by blast
  from e2(2) obtain e3 where "validateForUpdate C order a (prepare svc e2) = (Inr None, e3)"
    "sealUpdate C now a isPartial e3 = (Inr u, e')" by (rule sealWith_ok)
  with e2(1) that show thesis by blast
qed

lemma captureOld_keeps:
  "requestedMode (captureOldIfAbsent C (ensureInit C e)) = requestedMode e \<and>
   rulesWindow (captureOldIfAbsent C (ensureInit C e)) = rulesWindow e"
proof -
  have "core (ensureInit C e) = core e" by (simp add: ensureInit_def)
  then show ?thesis
    by (auto simp: captureOldIfAbsent_def captureOld_def core_def split: option.split)
qed

lemma validateForUpdate_core:
  assumes "validateForUpdate C order a e = (res, e')" "\<not> rulesWindow e"
  shows "service e' = service e \<and> old e' = old e \<and> \<not> rulesWindow e' \<and>
    requestedMode e' \<in> {requestedMode e, ModeArchive}"
  using assms(1) unfolding validateForUpdate_def Let_def
  by (rule validatePass_core) (simp_all add: assms(2))

lemma sealUpdate_ok:
  assumes "sealUpdate C now a isPartial e = (Inr u, e')"
  shows "e' = e\<lparr>requestedMode := ModeUnknown\<rparr> \<and> mid (managed e) = Some (updateID u) \<and>
    entityMode u = (if requestedMode e \<noteq> ModeUnknown then requestedMode e else ModeUpdate) \<and>
    (requestedMode e \<noteq> ModeUnknown \<longrightarrow> modeAllowed C (requestedMode e)) \<and>
    partial u = isPartial"
  using assms
  by (auto simp: sealUpdate_def takeRequestedMode_def derefID_def ValidEntity.defs Updatable.defs
      split: if_splits option.splits)

text \<open>C1: A sealed update is a valid one. When \<^verbatim>\<open>GetUpdatable\<close> (or its partial twin) returns a
  token, no notification is on the entity or on any context attached to it, the entity declares
  the update mode, the sealed id is the entity's id and a UUID, the operation is an update or an
  archive the entity declares, the request that made it an archive has been consumed, and the
  rules window is closed.\<close>

theorem GetUpdatable_seals_only_valid:
  assumes "getUpdatable C order now app svc a isPartial e = (Inr (Inr u), e')"
    and "requestedMode e \<in> {ModeUnknown, ModeArchive}" "\<not> rulesWindow e"
  shows "emitted e' = [] \<and> (\<forall>c\<in>set (contexts e'). \<not> HasErrors c) \<and>
    modeAllowed C ModeUpdate \<and> mid (managed e') = Some (updateID u) \<and>
    IsUUID (parseUUID C) (updateID u) \<and> partial u = isPartial \<and>
    entityMode u \<in> {ModeUpdate, ModeArchive} \<and> modeAllowed C (entityMode u) \<and>
    requestedMode e' = ModeUnknown \<and> \<not> rulesWindow e'"
proof -
  obtain e2 e3 where s: "ruleCore (captureOldIfAbsent C (ensureInit C e)) e2"
    "validateForUpdate C order a (prepare svc e2) = (Inr None, e3)"
    "sealUpdate C now a isPartial e3 = (Inr u, e')" using assms(1) by (rule getUpdatable_ok)
  have w: "\<not> rulesWindow (prepare svc e2)" "requestedMode (prepare svc e2) \<in> {ModeUnknown, ModeArchive}"
    using s(1) captureOld_keeps [of C e] assms(2,3)
    by (auto simp: ruleCore_def prepare_def resetEntity_def)
  have v: "emitted e3 = [] \<and> (\<forall>c\<in>set (contexts e3). \<not> HasErrors c) \<and> modeAllowed C ModeUpdate \<and>
      (\<exists>i. mid (managed e3) = Some i \<and> IsUUID (parseUUID C) i)"
    using s(2) unfolding validateForUpdate_def Let_def by (rule pass_with_id_ok)
  have "emitted e' = emitted e3" "contexts e' = contexts e3" "managed e' = managed e3"
    using sealUpdate_ok [OF s(3)] by simp_all
  with v sealUpdate_ok [OF s(3)] validateForUpdate_core [OF s(2) w(1)] w(2) show ?thesis
    by (auto simp: emitted_def)
qed

subsection \<open>A small entity\<close>

text \<open>
  A user with a kind (an enum) and a flag; an update of a closed user finishes as an archive, and
  a user without a name of any kind is rejected at the barrier.
\<close>

definition kindType :: enumType where
  "kindType = \<lparr>enumName = ''Kind'', Values = Some [EnumInt 1, EnumInt 2], zeroValue = EnumInt 0,
               UnknownNotification = RequiredFieldNotification None\<rparr>"

definition kindField :: "int \<times> bool \<Rightarrow> voField" where
  "kindField d = \<lparr>voName = ''Kind'', voAnonymous = False, voExported = True, voNilPointer = False,
     voContent = \<lparr>asRaw = None, asEnum = Some (kindType, EnumInt (fst d))\<rparr>\<rparr>"

definition userRules :: "((nat, int \<times> bool) Entity, (nat, int \<times> bool) rootCall) ruleStmt list" where
  "userRules =
     [WhenStmt (\<lambda>e. fst (data e) < 0) [AddNotificationNamedStmt ''Kind'' (RequiredFieldNotification None) None],
      StopIfInvalidStmt,
      IfUpdate [WhenStmt (\<lambda>e. snd (data e)) [CallStmt CallCompleteAsArchive]]]"

definition userClass :: "(nat, int \<times> bool) entityClass" where
  "userClass =
     \<lparr>rootOf = \<lparr>rootName = ''User'',
        rootType = \<lparr>goTypeName = ''User'', labelPlan = (\<lambda>_. \<lparr>label = [], wire = []\<rparr>)\<rparr>,
        AggregateChildren = []\<rparr>,
      avoEnvOf = \<lparr>declaredName = (\<lambda>_. ''Addresses''), wideAlnum = (\<lambda>_. False),
                  IsSameBusinessIdentity = IsSameByBusinessFields\<rparr>,
      Modes = [ModeInsert, ModeUpdate, ModeArchive], RequiresService = False,
      BuildRules = (\<lambda>_ _. userRules), voFieldsOf = (\<lambda>d. [kindField d]), isProvider = True,
      childBuildRules = (\<lambda>_ _ _. Some []),
      childTypeOf = (\<lambda>c. \<lparr>goTypeName = c, labelPlan = (\<lambda>_. \<lparr>label = [], wire = []\<rparr>)\<rparr>),
      childVOFields = (\<lambda>_. []),
      parseUUID = (\<lambda>s. if s = ''u1'' then None else Some ''invalid UUID format''),
      jsonClone = Some\<rparr>"

definition storedUser :: "int \<Rightarrow> bool \<Rightarrow> (nat, int \<times> bool) Entity" where
  "storedUser kind closed =
     \<lparr>managed = newManaged\<lparr>mid := Some ''u1''\<rparr>, mode = ModeUnknown, service = None, notifCtx = None,
      contexts = [], events = [], avos = [], old = None, aliases = None, className = [],
      requestedMode = ModeUnknown, rulesWindow = False, aggregates = None, data = (kind, closed)\<rparr>"

definition sealedToken :: "('v, 'd, 't) getResult \<Rightarrow> 't option" where
  "sealedToken res = (case fst res of Inr (Inr t) \<Rightarrow> Some t | _ \<Rightarrow> None)"

lemma sealedToken_SomeD: "sealedToken res = Some t \<Longrightarrow> res = (Inr (Inr t), snd res)"
  by (cases res) (auto simp: sealedToken_def split: sum.splits)

lemma sealedToken_exE:
  assumes "sealedToken res \<noteq> None"
  obtains t e' where "res = (Inr (Inr t), e')"
  using assms by (cases res) (auto simp: sealedToken_def split: sum.splits)

lemma userClass_seals:
  "map_option entityMode (sealedToken
     (getUpdatable userClass [] 0 None None ''GetUpdatable'' False (storedUser 1 True))) = Some ModeArchive"
  by code_simp

theorem GetUpdatable_seals_only_valid_witness:
  "\<exists>u e'. getUpdatable userClass [] 0 None None ''GetUpdatable'' False (storedUser 1 True)
      = (Inr (Inr u), e') \<and> emitted e' = [] \<and> IsUUID (parseUUID userClass) (updateID u) \<and>
    entityMode u \<in> {ModeUpdate, ModeArchive} \<and> \<not> rulesWindow e'"
proof -
  let ?res = "getUpdatable userClass [] 0 None None ''GetUpdatable'' False (storedUser 1 True)"
  obtain u where u: "?res = (Inr (Inr u), snd ?res)"
    using userClass_seals sealedToken_SomeD by (metis option.map_disc_iff not_None_eq option.distinct(1))
  from GetUpdatable_seals_only_valid [OF u] u show ?thesis
    by (intro exI [of _ u] exI [of _ "snd ?res"]) (simp add: storedUser_def)
qed

subsection \<open>Value objects\<close>

lemma window_noIgnore:
  assumes "buildRulesInWindow env c body r e = (p, r', e')" "noIgnore body"
  shows "ignoredVOs r' = ignoredVOs r"
  using assms by (auto simp: buildRulesInWindow_def split: prod.splits dest: buildRules_noIgnore)

lemma runAutomatic_silent:
  assumes "runAutomaticValidations C order m a r e = (None, e')" "halted r = Some False"
    and "theContext e' = theContext e" "messages (theContext e) = []" "ignoredVOs r = []"
    and "distinct (map voName (voFieldsOf C (data e)))"
    and "childRulesClean C a (service e)" "isProvider C"
    and "\<And>k. entriesOf e k \<noteq> [] \<Longrightarrow> k \<in> set order"
  shows "(\<forall>f\<in>set (voFieldsOf C (data e)). fieldAccepted (entityType (theContext e)) f) \<and>
    childrenAccepted C e"
proof -
  let ?e = "ensureContext e"
  have p: "payload ?e = payload e" "core ?e = core e" by simp_all
  have d: "data ?e = data e" "service ?e = service e" using p by (simp_all add: payload_def core_def)
  have ent: "entriesOf ?e = entriesOf e" by (rule entriesOf_payload) simp
  from assms(1,2,5) obtain c1 c2 where
    c1: "validateValueObjectFields (voFieldsOf C (data e)) RootCtx [] (forcedVOs r) (theContext e) = Inr c1"
    and c2: "runAggregateValidations C order m a ?e c1 = Inr c2" "e' = ?e\<lparr>notifCtx := Some c2\<rparr>"
    by (auto simp: runAutomaticValidations_def Let_def d split: sum.splits)
  have m2: "messages c2 = []" using assms(3,4) c2(2) by (simp add: theContext_def)
  have g: "c2 = c1 \<and> childrenAccepted C ?e"
    using runAggregate_silent [OF c2(1) m2] assms(7-9) d ent by simp
  have "grows (theContext e) c1"
    using c1 by (auto simp: validateValueObjectFields_plan dest: runValidators_grows)
  with g m2 have "c1 = theContext e" by (metis grows_silent)
  with c1 silent_fields [OF _ assms(6)]
  have "\<forall>f\<in>set (voFieldsOf C (data e)). fieldAccepted (viewEntityType RootCtx (theContext e)) f" by blast
  with g ent show ?thesis by (simp add: childrenAccepted_def)
qed

text \<open>C3: A sealed update has validated every value object it carries. If the rules of the entity and
  of its children ignore none, every exported value-object field of the sealed entity and of every
  active child was accepted: a raw value object reported nothing, an enum holds one of its declared
  members (and not the unknown sentinel).\<close>

theorem GetUpdatable_validates_every_value_object:
  assumes "getUpdatable C order now app svc a isPartial e = (Inr (Inr u), e')"
    and "noIgnore (BuildRules C a svc)" "childRulesClean C a svc" "isProvider C" "\<not> rulesWindow e"
    and "distinct (map voName (voFieldsOf C (data e')))"
    and "\<forall>k. entriesOf e' k \<noteq> [] \<longrightarrow> k \<in> set order"
  shows "(\<forall>f\<in>set (voFieldsOf C (data e')). fieldAccepted (entityType (theContext e')) f) \<and>
    childrenAccepted C e'"
proof -
  obtain e2 e3 where s: "ruleCore (captureOldIfAbsent C (ensureInit C e)) e2"
    "validateForUpdate C order a (prepare svc e2) = (Inr None, e3)"
    "sealUpdate C now a isPartial e3 = (Inr u, e')" using assms(1) by (rule getUpdatable_ok)
  define func where "func = ''Update.'' @ a @ ''()''"
  define g where "g = idGate C ''UnableToUpdateWithoutIDNotification'' func \<circ>
    modeGate C ModeUpdate ''updatable'' ''UpdateNotAllowedNotification'' func"
  have gl: "gateLike g" unfolding g_def by (intro gate_intros)
  have "validatePass C order ModeUpdate g a (prepare svc e2) = (Inr None, e3)"
    using s(2) by (simp add: validateForUpdate_def g_def func_def Let_def)
  then obtain r ea eb ec where t:
    "core ea = core (prepare svc e2)"
    "buildRulesInWindow (avoEnvOf C) (rootOf C) (BuildRules C a (service (prepare svc e2)))
       (rulesOf C ModeUpdate) ea = (None, r, eb)"
    "halted r = Some False" "theContext (g eb) = theContext eb" "messages (theContext eb) = []"
    "runAutomaticValidations C order ModeUpdate a r (g eb) = (None, ec)"
    "theContext ec = theContext eb" "checkAllNotifications ec = (None, e3)" "payload e3 = payload eb"
    using gl by (rule validatePass_ok)
  have svc: "service (prepare svc e2) = svc" by (simp add: prepare_def)
  have ign: "ignoredVOs r = []"
    using window_noIgnore [OF t(2)] assms(2) svc by (simp add: rulesOf_def NewRules_def)
  have seb: "service (g eb) = svc"
    using gl window_body_core [OF t(2)] t(1) svc by (simp add: gateLike_def core_def)
  have pay: "payload (g eb) = payload e'" "entityType (theContext e') = entityType (theContext (g eb))"
    using gl t(9) sealUpdate_ok [OF s(3)] checkAll_None [OF t(8)] t(4,7)
    by (simp_all add: gateLike_def theContext_def)
  note ent = entriesOf_payload [OF pay(1)]
  have d: "data (g eb) = data e'" using pay(1) by (simp add: payload_def)
  have "(\<forall>f\<in>set (voFieldsOf C (data (g eb))). fieldAccepted (entityType (theContext (g eb))) f) \<and>
      childrenAccepted C (g eb)"
    by (rule runAutomatic_silent [OF t(6,3)])
      (use t(4,5,7) ign assms(3,4,6,7) seb ent d in auto)
  then show ?thesis using d pay(2) ent by (simp add: childrenAccepted_def)
qed

lemma userClass_entity:
  "sealedToken (getUpdatable userClass [] 0 None None ''GetUpdatable'' False (storedUser 1 True)) \<noteq> None"
  "data (snd (getUpdatable userClass [] 0 None None ''GetUpdatable'' False (storedUser 1 True))) = (1, True)"
  "aggregates (snd (getUpdatable userClass [] 0 None None ''GetUpdatable'' False (storedUser 1 True))) = None"
  by code_simp+

theorem GetUpdatable_validates_every_value_object_witness:
  "\<exists>u e'. getUpdatable userClass [] 0 None None ''GetUpdatable'' False (storedUser 1 True)
      = (Inr (Inr u), e') \<and> data e' = (1, True) \<and>
     (\<forall>f\<in>set (voFieldsOf userClass (data e')). fieldAccepted (entityType (theContext e')) f) \<and>
     childrenAccepted userClass e'"
proof -
  obtain u e' where u: "getUpdatable userClass [] 0 None None ''GetUpdatable'' False (storedUser 1 True)
      = (Inr (Inr u), e')" using userClass_entity(1) by (rule sealedToken_exE)
  have d: "data e' = (1, True)" "aggregates e' = None"
    using userClass_entity(2,3) unfolding u by simp_all
  have "(\<forall>f\<in>set (voFieldsOf userClass (data e')). fieldAccepted (entityType (theContext e')) f) \<and>
      childrenAccepted userClass e'"
    by (rule GetUpdatable_validates_every_value_object [OF u])
      (simp_all add: d entriesOf_def userClass_def userRules_def IfUpdate_def childRulesClean_def
        storedUser_def)
  with u d show ?thesis by blast
qed

subsection \<open>The other verbs\<close>

text \<open>A sealed insert is a valid one: nothing was emitted, no attached context has an error, the
  entity declares the insert mode and carries no id.\<close>

theorem GetInsertable_seals_only_valid:
  assumes "getInsertable C order now svc a e = (Inr (Inr u), e')"
  shows "emitted e' = [] \<and> (\<forall>c\<in>set (contexts e'). \<not> HasErrors c) \<and>
    modeAllowed C ModeInsert \<and> mid (managed e') = None \<and> insertID u = None"
proof -
  define func where "func = ''Insert.'' @ a @ ''()''"
  let ?g = "noIDGate func \<circ> modeGate C ModeInsert ''insertable'' ''InsertNotAllowedNotification'' func"
  have g: "gateLike ?g" by (intro gate_intros)
  from assms have v: "validatePass C order ModeInsert ?g a (prepare svc (ensureInit C e)) = (Inr None, e')"
    and u: "insertID u = mid (managed e')"
    by (auto simp: getInsertable_def validateForInsert_def func_def Let_def ValidEntity.defs
        Insertable.defs elim!: sealWith_ok)
  obtain r e2 e3 e4 where s: "theContext (?g e3) = theContext e3" "messages (theContext e3) = []"
    "runAutomaticValidations C order ModeInsert a r (?g e3) = (None, e4)"
    "checkAllNotifications e4 = (None, e')"
    using v g by (rule validatePass_ok)
  have "managed e' = managed e3"
    using core_checkAll [OF s(4)] core_runAutomatic [OF s(3)] g by (simp add: gateLike_def core_def)
  with insertGates_silent [OF s(1,2)] checkAll_None [OF s(4)] u show ?thesis
    by (simp add: emitted_def)
qed

definition newUser :: "(nat, int \<times> bool) Entity" where
  "newUser = (storedUser 2 False)\<lparr>managed := newManaged\<rparr>"

theorem GetInsertable_seals_only_valid_witness:
  "\<exists>u e'. getInsertable userClass [] 0 None ''GetInsertable'' newUser = (Inr (Inr u), e') \<and>
    emitted e' = [] \<and> modeAllowed userClass ModeInsert \<and> insertID u = None"
proof -
  have "sealedToken (getInsertable userClass [] 0 None ''GetInsertable'' newUser) \<noteq> None" by code_simp
  then obtain u e' where u: "getInsertable userClass [] 0 None ''GetInsertable'' newUser
      = (Inr (Inr u), e')" by (rule sealedToken_exE)
  from GetInsertable_seals_only_valid [OF u] u show ?thesis by blast
qed

text \<open>C29: A sealed delete, archive or unarchive is a valid one: nothing was emitted, the entity
  declares the verb's mode, and the sealed id is the entity's own, a UUID. In particular the
  dereference of the id pointer that builds the token never meets a nil.\<close>

theorem transitions_seal_only_valid:
  "(getDeletable C order now svc a e = (Inr (Inr d), e') \<longrightarrow>
      emitted e' = [] \<and> modeAllowed C ModeDelete \<and> mid (managed e') = Some (deleteID d) \<and>
      IsUUID (parseUUID C) (deleteID d)) \<and>
   (getArchivable C order now svc a e = (Inr (Inr x), e') \<longrightarrow>
      emitted e' = [] \<and> modeAllowed C ModeArchive \<and> mid (managed e') = Some (archiveID x) \<and>
      IsUUID (parseUUID C) (archiveID x)) \<and>
   (getUnarchivable C order now svc a e = (Inr (Inr y), e') \<longrightarrow>
      emitted e' = [] \<and> modeAllowed C ModeUnarchive \<and> mid (managed e') = Some (unarchiveID y) \<and>
      IsUUID (parseUUID C) (unarchiveID y))"
proof -
  have del: "emitted e' = [] \<and> modeAllowed C ModeDelete \<and> mid (managed e') = Some (deleteID d) \<and>
      IsUUID (parseUUID C) (deleteID d)" if "getDeletable C order now svc a e = (Inr (Inr d), e')"
  proof -
  from that have "mid (managed e') = Some (deleteID d)"
    and "validateForDelete C order a (prepare svc (captureOldIfAbsent C (ensureInit C e))) = (Inr None, e')"
    by (auto simp: getDeletable_def derefID_def ValidEntity.defs Deletable.defs elim!: sealWith_ok
        split: option.splits)
  then show ?thesis
    unfolding validateForDelete_def Let_def by (auto dest!: pass_with_id_ok)
  qed
  have arc: "emitted e' = [] \<and> modeAllowed C ModeArchive \<and> mid (managed e') = Some (archiveID x) \<and>
      IsUUID (parseUUID C) (archiveID x)" if "getArchivable C order now svc a e = (Inr (Inr x), e')"
  proof -
  from that have "mid (managed e') = Some (archiveID x)"
    and "validateForArchive C order a (prepare svc (captureOldIfAbsent C (ensureInit C e))) = (Inr None, e')"
    by (auto simp: getArchivable_def derefID_def ValidEntity.defs Archivable.defs elim!: sealWith_ok
        split: option.splits)
  then show ?thesis
    unfolding validateForArchive_def Let_def by (auto dest!: pass_with_id_ok)
  qed
  have una: "emitted e' = [] \<and> modeAllowed C ModeUnarchive \<and> mid (managed e') = Some (unarchiveID y) \<and>
      IsUUID (parseUUID C) (unarchiveID y)" if "getUnarchivable C order now svc a e = (Inr (Inr y), e')"
  proof -
  from that have "mid (managed e') = Some (unarchiveID y)"
    and "validateForUnarchive C order a (prepare svc (captureOldIfAbsent C (ensureInit C e))) = (Inr None, e')"
    by (auto simp: getUnarchivable_def derefID_def ValidEntity.defs Unarchivable.defs
        elim!: sealWith_ok split: option.splits)
  then show ?thesis
    unfolding validateForUnarchive_def Let_def by (auto dest!: pass_with_id_ok)
  qed
  from del arc una show ?thesis by simp
qed

theorem transitions_seal_only_valid_witness:
  "\<exists>x e'. getArchivable userClass [] 0 None ''GetArchivable'' (storedUser 1 False) = (Inr (Inr x), e') \<and>
    emitted e' = [] \<and> mid (managed e') = Some (archiveID x)"
proof -
  have "sealedToken (getArchivable userClass [] 0 None ''GetArchivable'' (storedUser 1 False)) \<noteq> None"
    by code_simp
  then obtain x e' where x: "getArchivable userClass [] 0 None ''GetArchivable'' (storedUser 1 False)
      = (Inr (Inr x), e')" by (rule sealedToken_exE)
  from transitions_seal_only_valid [THEN conjunct2, THEN conjunct1, rule_format, OF x] x
  show ?thesis by blast
qed

end
