(* ===== verification/Rules_Contract.thy ===== *)
theory Rules_Contract
  imports Pipeline_Contract
begin

section \<open>Rules: the barrier, the window, the snapshot\<close>

text \<open>
  Properties of a pass that concern its control flow and the private state of the entity: what
  \<^verbatim>\<open>StopIfInvalid\<close> cuts, what a rejection reports, when \<^verbatim>\<open>CompleteAsArchive\<close> can be called, which
  snapshot \<^verbatim>\<open>Old()\<close> answers, and that the order of field aliases does not matter.
\<close>

subsection \<open>The barrier\<close>

text \<open>C7: Once a rule above it has rejected the write, nothing below \<^verbatim>\<open>StopIfInvalid\<close> runs, in a root
  or in a child: the outcome and the state are those of the body cut at the barrier, whatever
  follows. With nothing emitted the barrier is transparent.\<close>

theorem StopIfInvalid_is_a_barrier:
  "(execStmts (rootHost env c) pre r e = (Completed, r1, e1) \<and> rctx r \<noteq> None \<longrightarrow>
      execStmts (rootHost env c) (pre @ StopIfInvalidStmt # post) r e =
        (if entityHasErrors e1 then execStmts (rootHost env c) (pre @ [StopIfInvalidStmt]) r e
         else execStmts (rootHost env c) post r1 e1)) \<and>
   (execStmts (childHost v) cpre r s = (Completed, r1, (x1, ctx1)) \<and> rctx r \<noteq> None \<longrightarrow>
      execStmts (childHost v) (cpre @ StopIfInvalidStmt # cpost) r s =
        (if HasErrors ctx1 then execStmts (childHost v) (cpre @ [StopIfInvalidStmt]) r s
         else execStmts (childHost v) cpost r1 (x1, ctx1)))"
proof -
  have "execStmts (rootHost env c) (pre @ StopIfInvalidStmt # post) r e =
        (if entityHasErrors e1 then execStmts (rootHost env c) (pre @ [StopIfInvalidStmt]) r e
         else execStmts (rootHost env c) post r1 e1)"
    if "execStmts (rootHost env c) pre r e = (Completed, r1, e1)" "rctx r \<noteq> None"
  proof (cases "entityHasErrors e1")
    case True
    then have "hHasErrors (rootHost env c) e1" by (simp add: rootHost_def)
    from root_rules.barrier [OF that(1) this that(2)] True show ?thesis by simp
  next
    case False
    then have "\<not> hHasErrors (rootHost env c) e1" by (simp add: rootHost_def)
    from root_rules.pass_through [OF that(1) this] False show ?thesis by simp
  qed
  moreover have "execStmts (childHost v) (cpre @ StopIfInvalidStmt # cpost) r s =
        (if HasErrors ctx1 then execStmts (childHost v) (cpre @ [StopIfInvalidStmt]) r s
         else execStmts (childHost v) cpost r1 (x1, ctx1))"
    if "execStmts (childHost v) cpre r s = (Completed, r1, (x1, ctx1))" "rctx r \<noteq> None"
  proof (cases "HasErrors ctx1")
    case True
    then have "hHasErrors (childHost v) (x1, ctx1)" by (simp add: childHost_def)
    from child_rules.barrier [OF that(1) this that(2)] True show ?thesis by simp
  next
    case False
    then have "\<not> hHasErrors (childHost v) (x1, ctx1)" by (simp add: childHost_def)
    from child_rules.pass_through [OF that(1) this] False show ?thesis by simp
  qed
  ultimately show ?thesis by blast
qed

theorem StopIfInvalid_is_a_barrier_witness:
  "execStmts (rootHost (avoEnvOf userClass) (rootOf userClass))
      ([AddNotificationNamedStmt ''Kind'' (RequiredFieldNotification None) None] @
        StopIfInvalidStmt # [CallStmt CallCompleteAsArchive])
      (rulesOf userClass ModeUpdate) (storedUser 0 False)
   = execStmts (rootHost (avoEnvOf userClass) (rootOf userClass))
      ([AddNotificationNamedStmt ''Kind'' (RequiredFieldNotification None) None] @ [StopIfInvalidStmt])
      (rulesOf userClass ModeUpdate) (storedUser 0 False)"
proof -
  let ?h = "rootHost (avoEnvOf userClass) (rootOf userClass)" and ?r = "rulesOf userClass ModeUpdate"
  let ?pre = "[AddNotificationNamedStmt ''Kind'' (RequiredFieldNotification None) None]"
  obtain e1 where e1: "execStmts ?h ?pre ?r (storedUser 0 False) = (Completed, ?r, e1)"
    "entityHasErrors e1"
    by (simp add: AddNotificationNamedRule_def rulesOf_def NewRules_def rootHost_def)
  have "rctx ?r \<noteq> None" by (simp add: rulesOf_def NewRules_def)
  with e1 StopIfInvalid_is_a_barrier [THEN conjunct1, rule_format, OF conjI, OF e1(1),
      of "[CallStmt CallCompleteAsArchive]"]
  show ?thesis by simp
qed

text \<open>C27: A halted pass is a rejected one. When the rules of an entity were stopped at a barrier, the
  value objects and the children are skipped, and what the structural gates make of the entity is
  rejected with at least one context: a stop cannot turn an invalid write into a valid one.\<close>

theorem halted_pass_is_rejected:
  assumes "buildRulesInWindow env c body (rulesOf C m) e = (p, r, e3)" "halted r = Some True"
    and "gateLike gates"
  shows "p = None \<and> runAutomaticValidations C order m a r (gates e3) = (None, gates e3) \<and>
    (\<exists>err e5. checkAllNotifications (gates e3) = (Some err, e5) \<and> err \<noteq> [])"
proof -
  have w: "p = None" "messages (theContext e3) \<noteq> []"
    using window_halted [OF assms(1)] assms(2) by (auto simp: rulesOf_def)
  have "grows (theContext e3) (theContext (gates e3))" using assms(3) by (simp add: gateLike_def)
  with w(2) have "messages (theContext (gates e3)) \<noteq> []" by (auto simp: grows_def)
  then have "fst (checkAllNotifications (gates e3)) \<noteq> None" by (simp add: checkAll_iff)
  then obtain err e5 where "checkAllNotifications (gates e3) = (Some err, e5)"
    by (cases "checkAllNotifications (gates e3)") auto
  with checkAll_Some w(1) assms(2) show ?thesis by (auto simp: runAutomaticValidations_def)
qed

theorem halted_pass_is_rejected_witness:
  "\<exists>r e3 err e5. buildRulesInWindow (avoEnvOf userClass) (rootOf userClass) userRules
      (rulesOf userClass ModeUpdate) (storedUser (- 1) False) = (None, r, e3) \<and>
    checkAllNotifications (noIDGate [] e3) = (Some err, e5) \<and> err \<noteq> []"
proof -
  have "case buildRulesInWindow (avoEnvOf userClass) (rootOf userClass) userRules
      (rulesOf userClass ModeUpdate) (storedUser (- 1) False) of (p, r, e3) \<Rightarrow> halted r = Some True"
    by code_simp
  then obtain p r e3 where b: "buildRulesInWindow (avoEnvOf userClass) (rootOf userClass) userRules
      (rulesOf userClass ModeUpdate) (storedUser (- 1) False) = (p, r, e3)" "halted r = Some True"
    by (auto split: prod.splits)
  from halted_pass_is_rejected [OF b gateLike_noIDGate] b show ?thesis by blast
qed

text \<open>A rejected pass reports everything that is wrong and nothing else: the error carries exactly
  the contexts with notifications, first the entity's own, then the attached ones in order, and is
  never empty. Conversely the final gate passes an entity exactly when neither its own context nor
  any attached one holds a notification.\<close>

theorem checkAllNotifications_reports:
  "(case checkAllNotifications e of
      (None, e') \<Rightarrow> messages (theContext e) = [] \<and> (\<forall>c\<in>set (contexts e). \<not> HasErrors c)
    | (Some err, e') \<Rightarrow> err \<noteq> [] \<and> err = filter HasErrors (theContext e' # contexts e) \<and>
        (messages (theContext e) \<noteq> [] \<or> (\<exists>c\<in>set (contexts e). HasErrors c)))"
proof (cases "checkAllNotifications e")
  case (Pair res e')
  have "contexts e' = contexts e"
    using Pair by (auto simp: checkAllNotifications_def collectContexts_def Let_def split: prod.splits)
  then show ?thesis
    using Pair checkAll_Some [of e] checkAll_iff [of e] by (cases res) auto
qed

theorem checkAllNotifications_reports_witness:
  "\<exists>err e'. checkAllNotifications (entity_AddNotificationMessage
        (message_of (RequiredFieldNotification None)) (storedUser 1 False)) = (Some err, e') \<and>
     err \<noteq> [] \<and> err = filter HasErrors [theContext e']"
proof -
  let ?e = "entity_AddNotificationMessage (message_of (RequiredFieldNotification None)) (storedUser 1 False)"
  have "fst (checkAllNotifications ?e) \<noteq> None" by (simp add: checkAll_iff appendMessage_def)
  then obtain err e' where r: "checkAllNotifications ?e = (Some err, e')"
    by (cases "checkAllNotifications ?e") auto
  have c: "contexts ?e = []" by (simp add: storedUser_def)
  from checkAllNotifications_reports [of ?e] have "err \<noteq> [] \<and> err = filter HasErrors [theContext e']"
    unfolding r c by (auto split: if_splits)
  with r show ?thesis by blast
qed

subsection \<open>The rules window\<close>

lemma sealUpdate_core:
  assumes "sealUpdate C now a isPartial e = (res, e')"
  shows "old e' = old e \<and> rulesWindow e' = rulesWindow e"
  using assms by (auto simp: sealUpdate_def takeRequestedMode_def Let_def split: if_splits)

lemma sealWith_last:
  assumes "sealWith res f = (out, e')"
  shows "(\<exists>x. res = (x, e')) \<or> (\<exists>e o'. res = (Inr None, e) \<and> f e = (o', e'))"
  using assms
  by (auto simp: sealWith_def split: prod.splits sum.splits option.splits)

lemma getUpdatable_last:
  assumes "getUpdatable C order now app svc a isPartial e = (out, e')" "\<not> rulesWindow e"
  shows "old e' = old (captureOldIfAbsent C (ensureInit C e)) \<and> \<not> rulesWindow e'"
proof -
  let ?e1 = "captureOldIfAbsent C (ensureInit C e)"
  have w1: "\<not> rulesWindow ?e1" using captureOld_keeps [of C e] assms(2) by simp
  have go: "old e' = old ?e1 \<and> \<not> rulesWindow e'"
    if "ruleCore ?e1 e2" "sealWith (validateForUpdate C order a (prepare svc e2))
      (sealUpdate C now a isPartial) = (out, e')" for e2
  proof -
    have w2: "\<not> rulesWindow (prepare svc e2)" "old (prepare svc e2) = old ?e1"
      using that(1) w1 by (auto simp: ruleCore_def prepare_def resetEntity_def)
    from sealWith_last [OF that(2)] show ?thesis
      using validateForUpdate_core [OF _ w2(1)] sealUpdate_core w2(2) by metis
  qed
  show ?thesis
  proof (cases app)
    case None
    with assms(1) have "sealWith (validateForUpdate C order a (prepare svc ?e1))
      (sealUpdate C now a isPartial) = (out, e')" by (simp add: getUpdatable_def Let_def)
    then show ?thesis by (rule go [OF ruleCore_refl])
  next
    case (Some fn)
    obtain calls err where fn: "fn = (calls, err)" by (cases fn)
    show ?thesis
    proof (cases "runCalls (avoEnvOf C) (rootOf C) calls ?e1")
      case (Inl p)
      with assms(1) Some fn w1 show ?thesis by (auto simp: getUpdatable_def Let_def)
    next
      case (Inr e2)
      note rc = runCalls_core [OF Inr]
      show ?thesis
      proof (cases "err e2")
        case None
        with assms(1) Some fn Inr show ?thesis by (intro go [OF rc]) (auto simp: getUpdatable_def Let_def)
      next
        case (Some msg)
        with assms(1) \<open>app = Some fn\<close> fn Inr rc w1 show ?thesis
          by (auto simp: getUpdatable_def Let_def ruleCore_def)
      qed
    qed
  qed
qed

text \<open>The door to finish an update as an archive is open only inside the rules. However
  \<^verbatim>\<open>GetUpdatable\<close> ends (a token, a rejection, an error of the mutation, or a panic in a rule), the
  rules window is closed afterwards and \<^verbatim>\<open>CompleteAsArchive\<close> on the entity panics.\<close>

theorem rules_window_is_closed_after_GetUpdatable:
  assumes "getUpdatable C order now app svc a isPartial e = (out, e')" "\<not> rulesWindow e"
  shows "\<not> rulesWindow e' \<and> CompleteAsArchive e' = Inl (completionMisuse e')"
  using getUpdatable_last [OF assms] by (simp add: CompleteAsArchive_def)

theorem rules_window_is_closed_after_GetUpdatable_witness:
  "\<exists>out e'. getUpdatable userClass [] 0 None None ''GetUpdatable'' False (storedUser (- 1) False) = (out, e') \<and>
     CompleteAsArchive e' = Inl (completionMisuse e')"
proof -
  obtain out e' where r: "getUpdatable userClass [] 0 None None ''GetUpdatable'' False
      (storedUser (- 1) False) = (out, e')" by (cases "getUpdatable userClass [] 0 None None
        ''GetUpdatable'' False (storedUser (- 1) False)")
  from rules_window_is_closed_after_GetUpdatable [OF r] r show ?thesis
    by (auto simp: storedUser_def)
qed

subsection \<open>The snapshot\<close>

text \<open>\<^verbatim>\<open>Old()\<close> answers the state the entity was born with. However \<^verbatim>\<open>GetUpdatable\<close> ends, a snapshot
  taken at hydration is untouched; without one, the snapshot is the entity as it was handed in,
  before the mutation ran: its own fields through the JSON round trip and its tracked children.\<close>

theorem Old_is_the_birth_snapshot:
  assumes "getUpdatable C order now app svc a isPartial e = (out, e')" "\<not> rulesWindow e"
    and "jsonClone C (data e) = Some d" "isProvider C"
  shows "old e' = (case old e of
      Some g \<Rightarrow> Some g
    | None \<Rightarrow> Some \<lparr>ghostData = d, ghostAggregates = aggregates e\<rparr>)"
proof -
  have i: "old (ensureInit C e) = old e" "data (ensureInit C e) = data e"
    "aggregates (ensureInit C e) = aggregates e"
    by (simp_all add: ensureInit_def ensureRootInit_def initWithName_def ensureContext_def Let_def
        split: option.split)
  show ?thesis
    using getUpdatable_last [OF assms(1,2)] assms(3,4) i
    by (auto simp: captureOldIfAbsent_def captureOld_def copyAggregateMap_def split: option.splits)
qed

theorem Old_is_the_birth_snapshot_witness:
  "\<exists>out e'. getUpdatable userClass [] 0 (Some ([Mutate (\<lambda>d. Inr (2, snd d))], \<lambda>_. None)) None
       ''GetUpdatable'' False (storedUser 1 False) = (out, e') \<and>
     map_option ghostData (old e') = Some (1, False)"
proof -
  obtain out e' where r: "getUpdatable userClass [] 0 (Some ([Mutate (\<lambda>d. Inr (2, snd d))], \<lambda>_. None)) None
       ''GetUpdatable'' False (storedUser 1 False) = (out, e')"
    by (cases "getUpdatable userClass [] 0 (Some ([Mutate (\<lambda>d. Inr (2, snd d))], \<lambda>_. None)) None
       ''GetUpdatable'' False (storedUser 1 False)")
  have "old e' = Some \<lparr>ghostData = (1, False), ghostAggregates = None\<rparr>"
    using Old_is_the_birth_snapshot [OF r, of "(1, False)"] by (simp add: storedUser_def userClass_def)
  with r show ?thesis by auto
qed

subsection \<open>A request that outlives its pass\<close>


subsection \<open>Field aliases\<close>

lemma applyAliases_fold: "applyAliases kvs c = fold (\<lambda>(g, w). applyGoFieldAlias g w) kvs c"
  by (induction kvs c rule: applyAliases.induct) simp_all

text \<open>The order in which Go ranges over the alias map does not matter: applying the aliases of an
  entity in any two orders renames the same leaves to the same wire names.\<close>

theorem alias_order_is_irrelevant:
  assumes "distinct (map fst kvs)" "mset kvs = mset kvs'"
  shows "applyAliases kvs c = applyAliases kvs' c"
proof -
  have "fold (\<lambda>(g, w). applyGoFieldAlias g w) kvs = fold (\<lambda>(g, w). applyGoFieldAlias g w) kvs'"
  proof (rule fold_multiset_equiv [OF _ assms(2)])
    fix x y :: "string \<times> string"
    assume xy: "x \<in> set kvs" "y \<in> set kvs"
    show "(case x of (g, w) \<Rightarrow> applyGoFieldAlias g w) \<circ> (case y of (g, w) \<Rightarrow> applyGoFieldAlias g w) =
        (case y of (g, w) \<Rightarrow> applyGoFieldAlias g w) \<circ> (case x of (g, w) \<Rightarrow> applyGoFieldAlias g w)"
    proof (cases "fst x = fst y")
      case True
      with xy assms(1) have "x = y" by (metis eq_key_imp_eq_value prod.collapse)
      then show ?thesis by simp
    next
      case False
      then show ?thesis by (cases x; cases y) (simp add: fun_eq_iff applyGoFieldAlias_commute)
    qed
  qed
  then show ?thesis by (simp add: applyAliases_fold)
qed

theorem alias_order_is_irrelevant_witness:
  "applyAliases [(''Email'', ''mail''), (''Name'', ''nome'')] (NewNotificationContext ''User'') =
   applyAliases [(''Name'', ''nome''), (''Email'', ''mail'')] (NewNotificationContext ''User'')"
  by (rule alias_order_is_irrelevant) (simp_all add: add_mset_commute)

end
