(* ===== verification/Vocabulary_Contract.thy ===== *)
theory Vocabulary_Contract
  imports Value_Objects
begin

section \<open>Names, messages, stamps and value objects\<close>

text \<open>
  The properties of the leaf components: the wire vocabulary, the notification context, the stamp
  requests of the managed carrier, the enumerations and the discovery of value-object fields.
\<close>

subsection \<open>The wire vocabulary\<close>

text \<open>Casing a dotted path for the wire is stable: it keeps the number of segments and the length,
  treats each segment on its own, and casing a path that is already cased changes nothing.\<close>

theorem WireFieldPath_is_stable:
  "splitDots (WireFieldPath s) = map toLowerCamel (splitDots s) \<and>
   WireFieldPath (WireFieldPath s) = WireFieldPath s \<and>
   length (splitDots (WireFieldPath s)) = length (splitDots s)"
proof -
  have "WireFieldPath (WireFieldPath s) = joinDots (map toLowerCamel (map toLowerCamel (splitDots s)))"
    by (simp add: WireFieldPath_segments [of "WireFieldPath s"] splitDots_WireFieldPath)
  then show ?thesis by (simp add: splitDots_WireFieldPath comp_def) (simp add: WireFieldPath_segments)
qed

text \<open>The index of a child on the wire reads back: for every 64-bit integer but the least, the
  decimal rendering is read back as the same integer, and it fits the 20-byte buffer.\<close>

theorem itoa_reads_back:
  assumes "- (2 ^ 63) < i" "i < 2 ^ 63"
  shows "readInt (itoa i) = i \<and> length (itoa i) \<le> 20"
proof -
  consider "i = 0" | "0 < i" | "i < 0" by linarith
  then show ?thesis
  proof cases
    case 1
    then show ?thesis by (simp add: itoa_def readInt_def readDigits_def digitVal_def)
  next
    case 2
    then have "itoa i = itoaDigits i []" by (simp add: itoa_def Let_def)
    moreover have "length (itoaDigits i []) \<le> length ([] :: string) + 20"
      by (rule length_itoaDigits) (use 2 assms(2) in simp_all)
    ultimately show ?thesis
      using 2 by (simp add: readInt_nominus [OF minus_notin_itoaDigits] readDigits_itoaDigits)
  next
    case 3
    then have "itoa i = CHR ''-'' # itoaDigits (- i) []"
      using assms(1) by (simp add: itoa_def neg64_def Let_def)
    moreover have "length (itoaDigits (- i) []) \<le> length ([] :: string) + 19"
      by (rule length_itoaDigits) (use 3 assms(1) in simp_all)
    ultimately show ?thesis using 3 by (simp add: readInt_def readDigits_itoaDigits)
  qed
qed

theorem itoa_reads_back_witness: "readInt (itoa (- 407)) = - 407 \<and> length (itoa (- 407)) \<le> 20"
  by (rule itoa_reads_back) simp_all

text \<open>The least 64-bit integer has no rendering: negating it wraps to itself, the digit loop does
  not run, and what is rendered is a lone minus sign.\<close>

theorem itoa_of_the_least_int: "itoa (- (2 ^ 63)) = ''-''"
  by (simp add: itoa_def neg64_def Let_def itoaDigits.simps)

text \<open>A notification a child emits on one of its fields reaches the wire under the child's
  collection and position: through the view scoped to collection \<open>coll\<close> and index \<open>i\<close>, a message on
  the field \<open>f\<close> is the last one of the root and its field name is the cased collection, the index in
  brackets, a dot and the cased field.\<close>

theorem child_field_on_the_wire:
  assumes "coll \<noteq> []" "f \<noteq> []" "Override m = []" "Path m = [NameSegment f]"
  shows "ResolveFieldName (last (messages (AddNotificationMessage
      (Some (scopedForType t (NameSegment coll) [IndexSegment i] RootCtx)) m root))) =
    toLowerCamel coll @ ''['' @ itoa i @ '']'' @ ''.'' @ toLowerCamel f"
  using assms
  by (simp add: scopedForType_def Scoped_def appendMessage_def ResolveFieldName_def renderPath_def
      NameSegment_def IndexSegment_def)

theorem child_field_on_the_wire_witness:
  "ResolveFieldName (last (messages (AddNotificationMessage
      (Some (scopedForType None (NameSegment ''Addresses'') [IndexSegment 0] RootCtx))
      ((message_of (RequiredFieldNotification None))\<lparr>Path := [NameSegment ''ZipCode'']\<rparr>)
      (NewNotificationContext ''User'')))) = ''addresses[0].zipCode''"
proof -
  have "toLowerCamel ''Addresses'' @ ''['' @ itoa 0 @ '']'' @ ''.'' @ toLowerCamel ''ZipCode'' =
      ''addresses[0].zipCode''" by code_simp
  then show ?thesis
    using child_field_on_the_wire [of "''Addresses''" "''ZipCode''"
        "(message_of (RequiredFieldNotification None))\<lparr>Path := [NameSegment ''ZipCode'']\<rparr>" None 0
        "NewNotificationContext ''User''"]
    by (simp add: message_of_def)
qed

subsection \<open>Contexts\<close>

text \<open>However deep views are nested, there is one list of messages and nothing is lost: a message
  emitted through any chain of scopes is appended to the root context under the concatenation of
  the scopes' segments, or verbatim when it has no path; the name, the variables and the type of
  the root are untouched.\<close>

theorem nested_scopes_emit_on_the_root:
  "let root' = AddNotificationMessage (Some (scopes ss RootCtx)) m root in
   messages root' = messages root @ [if Path m = [] then m else m\<lparr>Path := concat ss @ Path m\<rparr>] \<and>
   ctxName root' = ctxName root \<and> contextVars root' = contextVars root \<and> entityType root' = entityType root"
  using scopes_prefix [of ss RootCtx] by (simp add: Let_def placeIn_prefix)

subsection \<open>Stamp requests\<close>

fun runStamps :: "(string \<times> StampOp) list \<Rightarrow> Managed \<Rightarrow> Managed" where
  "runStamps [] m = m"
| "runStamps ((f, op) # cs) m = runStamps cs (stampAs f op m)"

lemma runStamps_append: "runStamps (cs @ ds) m = runStamps ds (runStamps cs m)"
  by (induction cs m rule: runStamps.induct) simp_all

text \<open>For any sequence of stamp calls on a fresh carrier, there is one request per field, in the
  order in which the fields were first named, and the verb of each is the last one asked for.\<close>

theorem stamps_last_verb_wins:
  "StampFields (stamps (runStamps cs newManaged)) = rev (remdups (rev (map fst cs))) \<and>
   distinct (StampFields (stamps (runStamps cs newManaged))) \<and>
   stampOf (runStamps cs newManaged) = map_of (rev cs)"
proof -
  have "map Field (stamps (runStamps cs newManaged)) = rev (remdups (rev (map fst cs))) \<and>
     stampOf (runStamps cs newManaged) = map_of (rev cs)"
  proof (induction cs rule: rev_induct)
    case Nil
    show ?case by (simp add: newManaged_def stampOf_def fun_eq_iff)
  next
    case (snoc c cs)
    obtain f op where c: "c = (f, op)" by (cases c)
    have "Field ` set (stamps (runStamps cs newManaged)) = fst ` set cs"
      using arg_cong [OF conjunct1 [OF snoc], of set] by simp
    with snoc show ?case
      by (auto simp: c runStamps_append stampAs_stamps stampOf_stampAs fun_eq_iff)
  qed
  then show ?thesis by (simp add: StampFields_def)
qed

subsection \<open>Enumerations\<close>

text \<open>Parsing converges: whatever arrives off the wire, the result is a declared member with that
  underlying value, or the unknown sentinel when no member has it; a member always parses back to
  itself, and the reflective twin used by the persistence layer gives the same answer.\<close>

theorem EnumByValue_converges:
  assumes "Values E = Some ms"
  shows "(EnumByValue E raw \<in> set ms \<and> sameUnderlying (EnumByValue E raw) raw \<or>
      EnumByValue E raw = zeroValue E \<and> (\<forall>m\<in>set ms. \<not> sameUnderlying m raw)) \<and>
    (\<forall>m\<in>set ms. EnumByValue E (rawOf m) = m) \<and>
    EnumByValue E raw = enumMemberOrUnknown E raw"
proof -
  have "EnumByValue E (rawOf m) = m" if "m \<in> set ms" for m
    using firstMember_cases [of "rawOf m" "zeroValue E" ms] that assms
    by (auto simp: EnumByValue_def sameUnderlying_rawOf)
  then show ?thesis
    using firstMember_cases [of raw "zeroValue E" ms] assms
    by (auto simp: EnumByValue_def enumMemberOrUnknown_def)
qed

theorem EnumByValue_converges_witness:
  "EnumByValue EventType (RawFloat 3) = EnumInt 3 \<and> EnumByValue EventType (RawInt 9) = EnumInt 0 \<and>
   EnumByValue EventType (rawOf (EnumInt 4)) = EnumInt 4"
proof -
  have "Values EventType = Some [EnumInt 1, EnumInt 2, EnumInt 3, EnumInt 4]" by (simp add: EventType_def)
  from EnumByValue_converges [OF this, of "RawFloat 3"] EnumByValue_converges [OF this, of "RawInt 9"]
  show ?thesis by (auto simp: sameUnderlying_def asInt64_def EventType_def)
qed

subsection \<open>Discovery of value objects\<close>

text \<open>C30: The two loops of \<^verbatim>\<open>validateValueObjectFields\<close> run each value object once: they run the
  validators of one plan, in order, in which no name occurs twice and no ignored name occurs, and
  which contains every exported, non-embedded, present field that is a value object and is not
  ignored.\<close>

theorem every_value_object_is_validated_once:
  assumes "distinct (map voName fs)"
  shows "validateValueObjectFields fs v ignored forced root =
      runValidators v (validationPlan fs ignored forced) root \<and>
    distinct (map fst (validationPlan fs ignored forced)) \<and>
    set (map fst (validationPlan fs ignored forced)) \<inter> set ignored = {} \<and>
    (\<forall>f\<in>set fs. \<forall>vd. \<not> voAnonymous f \<and> voExported f \<and> \<not> voNilPointer f \<and>
       voName f \<notin> set ignored \<and> validatorFor (voContent f) = Some vd \<longrightarrow>
       (voName f, vd) \<in> set (validationPlan fs ignored forced))"
proof -
  have "(voName f, vd) \<in> set (validationPlan fs ignored forced)"
    if "f \<in> set fs" "\<not> voAnonymous f" "voExported f" "\<not> voNilPointer f" "voName f \<notin> set ignored"
      "validatorFor (voContent f) = Some vd" for f vd
    using discovered_complete [OF that(1-4,6) assms that(5), of "[]"]
    by (simp add: validationPlan_def Let_def)
  then show ?thesis
    using validateValueObjectFields_plan validationPlan_names by blast
qed

definition sampleField :: "string \<Rightarrow> int \<Rightarrow> voField" where
  "sampleField name v = \<lparr>voName = name, voAnonymous = False, voExported = True, voNilPointer = False,
     voContent = \<lparr>asRaw = None, asEnum = Some (EventType, EnumInt v)\<rparr>\<rparr>"

theorem every_value_object_is_validated_once_witness:
  "map fst (validationPlan [sampleField ''Type'' 1, sampleField ''Kind'' 7] [''Kind''] []) = [''Type''] \<and>
   (\<exists>vd. (''Type'', vd) \<in> set (validationPlan [sampleField ''Type'' 1, sampleField ''Kind'' 7] [''Kind''] []))"
proof -
  let ?fs = "[sampleField ''Type'' 1, sampleField ''Kind'' 7]"
  have "distinct (map voName ?fs)" by (simp add: sampleField_def)
  note p = every_value_object_is_validated_once [OF this, of RootCtx "[''Kind'']" "[]"
      "NewNotificationContext []"]
  have "validatorFor (voContent (sampleField ''Type'' 1)) = Some (EnumMembershipValidator EventType (EnumInt 1))"
    by (simp add: sampleField_def validatorFor_def)
  with p have "(voName (sampleField ''Type'' 1), EnumMembershipValidator EventType (EnumInt 1))
      \<in> set (validationPlan ?fs [''Kind''] [])" by (simp add: sampleField_def)
  moreover have "map fst (validationPlan ?fs [''Kind''] []) = [''Type'']"
    by (simp add: validationPlan_def sampleField_def validatorFor_def Let_def)
  ultimately show ?thesis by (auto simp: sampleField_def)
qed

end
