(* ===== verification/Go_Lib.thy ===== *)
theory Go_Lib
  imports Wire_Names
begin

section \<open>The parts of Go and of its standard library that the infrastructure uses\<close>

text \<open>
  Integers of 64 bits with their wrap-around, instants and durations in nanoseconds, the string
  functions of \<^verbatim>\<open>strings\<close> and \<^verbatim>\<open>strconv\<close>, and HTTP header maps.

  A string is the list of its bytes. \<^verbatim>\<open>strings.ToLower\<close>, \<^verbatim>\<open>ToUpper\<close>, \<^verbatim>\<open>EqualFold\<close> and
  \<^verbatim>\<open>TrimSpace\<close> are given on ASCII: the code applies them to configuration tokens, HTTP methods
  and header directives, which are ASCII; other bytes pass through unchanged.
\<close>

subsection \<open>Integers and durations\<close>

text \<open>A value of type \<^verbatim>\<open>int\<close>, \<^verbatim>\<open>int64\<close> or \<^verbatim>\<open>time.Duration\<close>: arithmetic wraps modulo
  \<open>2 ^ 64\<close> into the signed range.\<close>

definition maxInt64 :: int where
  "maxInt64 = 9223372036854775807"

definition minInt64 :: int where
  "minInt64 = - 9223372036854775808"

definition wrap64 :: "int \<Rightarrow> int" where
  "wrap64 x = (x + 9223372036854775808) mod 18446744073709551616 - 9223372036854775808"

definition inInt64 :: "int \<Rightarrow> bool" where
  "inInt64 x \<longleftrightarrow> minInt64 \<le> x \<and> x \<le> maxInt64"

lemma wrap64_in [simp]: "inInt64 (wrap64 x)"
proof -
  have "0 \<le> (x + 9223372036854775808) mod 18446744073709551616"
    and "(x + 9223372036854775808) mod 18446744073709551616 < 18446744073709551616"
    by simp_all
  then show ?thesis by (simp only: inInt64_def wrap64_def minInt64_def maxInt64_def) linarith
qed

lemma wrap64_id [simp]: "inInt64 x \<Longrightarrow> wrap64 x = x"
  by (simp add: inInt64_def wrap64_def minInt64_def maxInt64_def)

lemma inInt64_mono: "inInt64 a \<Longrightarrow> inInt64 b \<Longrightarrow> a \<le> x \<Longrightarrow> x \<le> b \<Longrightarrow> inInt64 x"
  by (simp add: inInt64_def)

lemma wrap64_small: "- 9223372036854775808 \<le> x \<Longrightarrow> x < 9223372036854775808 \<Longrightarrow> wrap64 x = x"
  by (simp add: wrap64_def)

text \<open>\<^verbatim>\<open>x << k\<close> on a signed 64-bit value; a shift of 64 or more is zero.\<close>

definition shl64 :: "int \<Rightarrow> nat \<Rightarrow> int" where
  "shl64 x k = wrap64 (x * 2 ^ k)"

text \<open>Instants are nanoseconds; \<^verbatim>\<open>Time.Sub\<close> saturates at the range of a duration.\<close>

type_synonym instant = int
type_synonym duration = int

definition timeSub :: "instant \<Rightarrow> instant \<Rightarrow> duration" where
  "timeSub t u = max minInt64 (min maxInt64 (t - u))"

definition millisecond :: duration where
  "millisecond = 1000000"

definition second :: duration where
  "second = 1000000000"

subsection \<open>Strings\<close>

definition isLowerRune :: "char \<Rightarrow> bool" where
  "isLowerRune r \<longleftrightarrow> (97::nat) \<le> of_char r \<and> of_char r \<le> (122::nat)"

definition toUpperRune :: "char \<Rightarrow> char" where
  "toUpperRune r = (if isLowerRune r then char_of (of_char r - (32::nat)) else r)"

definition ToLower :: "string \<Rightarrow> string" where
  "ToLower s = map toLowerRune s"

definition ToUpper :: "string \<Rightarrow> string" where
  "ToUpper s = map toUpperRune s"

definition EqualFold :: "string \<Rightarrow> string \<Rightarrow> bool" where
  "EqualFold s t \<longleftrightarrow> ToLower s = ToLower t"

definition isSpaceByte :: "char \<Rightarrow> bool" where
  "isSpaceByte c \<longleftrightarrow> of_char c = (32::nat) \<or> ((9::nat) \<le> of_char c \<and> of_char c \<le> (13::nat))"

definition TrimSpace :: "string \<Rightarrow> string" where
  "TrimSpace s = rev (dropWhile isSpaceByte (rev (dropWhile isSpaceByte s)))"

text \<open>\<^verbatim>\<open>strings.Split\<close> with a one-byte separator.\<close>

fun splitOn :: "char \<Rightarrow> string \<Rightarrow> string list" where
  "splitOn sep [] = [[]]"
| "splitOn sep (c # cs) =
     (if c = sep then [] # splitOn sep cs
      else (case splitOn sep cs of [] \<Rightarrow> [[c]] | seg # segs \<Rightarrow> (c # seg) # segs))"

fun HasPrefix :: "string \<Rightarrow> string \<Rightarrow> bool" where
  "HasPrefix s [] = True"
| "HasPrefix [] (p # ps) = False"
| "HasPrefix (c # cs) (p # ps) = (c = p \<and> HasPrefix cs ps)"

definition TrimPrefix :: "string \<Rightarrow> string \<Rightarrow> string" where
  "TrimPrefix s p = (if HasPrefix s p then drop (length p) s else s)"

lemma HasPrefix_iff: "HasPrefix s p \<longleftrightarrow> (\<exists>t. s = p @ t)"
  by (induction s p rule: HasPrefix.induct) auto

lemma splitOn_nonempty [simp]: "splitOn sep s \<noteq> []"
  by (cases s) (auto split: list.splits)

lemma splitOn_no_sep: "seg \<in> set (splitOn sep s) \<Longrightarrow> sep \<notin> set seg"
  by (induction sep s arbitrary: seg rule: splitOn.induct) (auto split: list.splits if_splits)

subsection \<open>Decimal parsing\<close>

definition isDigit :: "char \<Rightarrow> bool" where
  "isDigit c \<longleftrightarrow> (48::nat) \<le> of_char c \<and> of_char c \<le> (57::nat)"

fun decimal :: "string \<Rightarrow> int \<Rightarrow> int option" where
  "decimal [] acc = Some acc"
| "decimal (c # cs) acc =
     (if isDigit c then decimal cs (10 * acc + (of_char c - 48)) else None)"

text \<open>\<^verbatim>\<open>strconv.Atoi\<close>: an optional sign, at least one digit, and a value of the range of
  \<^verbatim>\<open>int\<close>; \<open>None\<close> is the error.\<close>

definition Atoi :: "string \<Rightarrow> int option" where
  "Atoi s =
     (let (neg, ds) = (case s of
            [] \<Rightarrow> (False, [])
          | c # cs \<Rightarrow> if c = CHR ''-'' then (True, cs) else if c = CHR ''+'' then (False, cs) else (False, s))
      in if ds = [] then None
         else case decimal ds 0 of
            None \<Rightarrow> None
          | Some n \<Rightarrow>
              let m = (if neg then - n else n) in if inInt64 m then Some m else None)"

lemma Atoi_in: "Atoi s = Some n \<Longrightarrow> inInt64 n"
  by (auto simp: Atoi_def Let_def split: list.splits option.splits if_splits)

text \<open>\<^verbatim>\<open>strconv.Itoa\<close>, and \<^verbatim>\<open>%q\<close> of a string of printable characters without quotes and
  backslashes.\<close>

definition Itoa :: "int \<Rightarrow> string" where
  "Itoa n = (if n = 0 then ''0'' else if n < 0 then CHR ''-'' # itoaDigits (- n) [] else itoaDigits n [])"

definition quoted :: "string \<Rightarrow> string" where
  "quoted s = [CHR 0x22] @ s @ [CHR 0x22]"

subsection \<open>HTTP headers\<close>

text \<open>
  \<^verbatim>\<open>http.Header\<close> is a map from canonical names to value lists; \<^verbatim>\<open>Get\<close> and \<^verbatim>\<open>Set\<close> canonicalise
  the name they are given: letters at the start and after a hyphen become upper case, all
  others lower case, and a name with a byte that no header name may have is left as it is.
\<close>

type_synonym httpHeader = "string \<rightharpoonup> string list"

definition validHeaderByte :: "char \<Rightarrow> bool" where
  "validHeaderByte c \<longleftrightarrow>
     isUpperRune c \<or> isLowerRune c \<or> isDigit c \<or> c \<in> set ''!#$%&'' \<or>
     c \<in> set [CHR 0x27, CHR ''*'', CHR ''+'', CHR ''-'', CHR ''.'', CHR ''^'', CHR ''_'', CHR 0x60, CHR ''|'', CHR ''~'']"

fun canonicalBytes :: "bool \<Rightarrow> string \<Rightarrow> string" where
  "canonicalBytes up [] = []"
| "canonicalBytes up (c # cs) =
     (if up then toUpperRune c else toLowerRune c) # canonicalBytes (c = CHR ''-'') cs"

definition CanonicalHeaderKey :: "string \<Rightarrow> string" where
  "CanonicalHeaderKey s =
     (if list_all validHeaderByte s then canonicalBytes True s else s)"

definition headerGet :: "httpHeader \<Rightarrow> string \<Rightarrow> string" where
  "headerGet h k =
     (case h (CanonicalHeaderKey k) of Some (v # vs) \<Rightarrow> v | _ \<Rightarrow> [])"

definition headerSet :: "httpHeader \<Rightarrow> string \<Rightarrow> string \<Rightarrow> httpHeader" where
  "headerSet h k v = h(CanonicalHeaderKey k \<mapsto> [v])"

lemma headerGet_headerSet [simp]: "headerGet (headerSet h k v) k = v"
  by (simp add: headerGet_def headerSet_def)

lemma headerGet_headerSet_other:
  "CanonicalHeaderKey k \<noteq> CanonicalHeaderKey k' \<Longrightarrow> headerGet (headerSet h k v) k' = headerGet h k'"
  by (simp add: headerGet_def headerSet_def)

end
