(* ===== verification/Resilience.thy ===== *)
theory Resilience
  imports Go_Lib
begin

section \<open>Circuit breaker and backoff curves\<close>

text \<open>
  Model of \<^verbatim>\<open>src/infra/resilience/breaker.go\<close> and \<^verbatim>\<open>backoff.go\<close>, the cores that the HTTP and
  gRPC clients share.

  Each method of \<^verbatim>\<open>Breaker\<close> holds the mutex for its whole body, so concurrent callers are a
  sequence of whole operations: a method is a function on the breaker, the reading of the
  clock is an argument, and a nil receiver is \<open>None\<close>. \<open>BreakerOther\<close> stands for the values of the
  integer type that are none of its constants. The draws of \<^verbatim>\<open>rand.Int63n\<close> are an argument.
\<close>

subsection \<open>Circuit breaker\<close>

datatype BreakerState = BreakerClosed | BreakerOpen | BreakerHalfOpen | BreakerOther int

fun breakerStateString :: "BreakerState \<Rightarrow> string" where
  "breakerStateString BreakerOpen = ''open''"
| "breakerStateString BreakerHalfOpen = ''half-open''"
| "breakerStateString BreakerClosed = ''closed''"
| "breakerStateString (BreakerOther n) = ''closed''"

record BreakerPolicy =
  Enabled :: bool
  FailureThreshold :: int
  SuccessThreshold :: int
  OpenFor :: duration

record Breaker =
  bpolicy :: BreakerPolicy
  bstate :: BreakerState
  failureCount :: int
  successCount :: int
  openedAt :: instant
  probeInFlight :: bool

text \<open>The instant of a fresh breaker is the zero \<^verbatim>\<open>time.Time\<close>, in nanoseconds from 1970.\<close>

definition zeroTime :: instant where
  "zeroTime = - 62135596800000000000"

definition NewBreaker :: "BreakerPolicy \<Rightarrow> Breaker" where
  "NewBreaker p =
     \<lparr>bpolicy = p, bstate = BreakerClosed, failureCount = 0, successCount = 0,
      openedAt = zeroTime, probeInFlight = False\<rparr>"

definition Allow :: "instant \<Rightarrow> Breaker option \<Rightarrow> (bool \<times> string) \<times> Breaker option" where
  "Allow now ob =
     (case ob of
        None \<Rightarrow> ((True, ''closed''), None)
      | Some b \<Rightarrow>
          if \<not> Enabled (bpolicy b) then ((True, ''closed''), Some b)
          else (case bstate b of
             BreakerClosed \<Rightarrow> ((True, ''closed''), Some b)
           | BreakerOpen \<Rightarrow>
               if timeSub now (openedAt b) \<ge> OpenFor (bpolicy b)
               then ((True, ''half-open''),
                     Some (b\<lparr>bstate := BreakerHalfOpen, successCount := 0, failureCount := 0,
                             probeInFlight := True\<rparr>))
               else ((False, ''open''), Some b)
           | BreakerHalfOpen \<Rightarrow>
               if probeInFlight b then ((False, ''open''), Some b)
               else ((True, ''half-open''), Some (b\<lparr>probeInFlight := True\<rparr>))
           | BreakerOther _ \<Rightarrow> ((True, ''closed''), Some b)))"

definition RecordSuccess :: "Breaker option \<Rightarrow> Breaker option" where
  "RecordSuccess ob =
     (case ob of
        None \<Rightarrow> None
      | Some b \<Rightarrow>
          if \<not> Enabled (bpolicy b) then Some b
          else (case bstate b of
             BreakerHalfOpen \<Rightarrow>
               let b1 = b\<lparr>probeInFlight := False, successCount := wrap64 (successCount b + 1)\<rparr> in
               Some (if successCount b1 \<ge> SuccessThreshold (bpolicy b1)
                     then b1\<lparr>bstate := BreakerClosed, successCount := 0, failureCount := 0\<rparr>
                     else b1)
           | BreakerClosed \<Rightarrow> Some (b\<lparr>failureCount := 0\<rparr>)
           | _ \<Rightarrow> Some b))"

definition RecordFailure :: "instant \<Rightarrow> Breaker option \<Rightarrow> Breaker option" where
  "RecordFailure now ob =
     (case ob of
        None \<Rightarrow> None
      | Some b \<Rightarrow>
          if \<not> Enabled (bpolicy b) then Some b
          else (case bstate b of
             BreakerClosed \<Rightarrow>
               let b1 = b\<lparr>failureCount := wrap64 (failureCount b + 1)\<rparr> in
               Some (if failureCount b1 \<ge> FailureThreshold (bpolicy b1)
                     then b1\<lparr>bstate := BreakerOpen, openedAt := now, failureCount := 0, successCount := 0\<rparr>
                     else b1)
           | BreakerHalfOpen \<Rightarrow>
               Some (b\<lparr>probeInFlight := False, bstate := BreakerOpen, openedAt := now,
                       failureCount := 0, successCount := 0\<rparr>)
           | _ \<Rightarrow> Some b))"

definition SnapshotState :: "Breaker option \<Rightarrow> string" where
  "SnapshotState ob =
     (case ob of
        None \<Rightarrow> ''closed''
      | Some b \<Rightarrow> if \<not> Enabled (bpolicy b) then ''closed'' else breakerStateString (bstate b))"

subsection \<open>Backoff\<close>

datatype BackoffStrategy =
  BackoffConstant | BackoffLinear | BackoffExponential | BackoffExponentialJitter | BackoffOther int

record BackoffPolicy =
  Strategy :: BackoffStrategy
  InitialDelay :: duration
  MaxDelay :: duration

definition Jitter :: "(int \<Rightarrow> int) \<Rightarrow> int \<Rightarrow> int" where
  "Jitter int63n maxNS = (if maxNS \<le> 0 then 0 else int63n maxNS)"

definition backoffCurve :: "(int \<Rightarrow> int) \<Rightarrow> BackoffPolicy \<Rightarrow> int \<Rightarrow> duration" where
  "backoffCurve int63n p k =
     (case Strategy p of
        BackoffConstant \<Rightarrow> InitialDelay p
      | BackoffLinear \<Rightarrow> wrap64 (InitialDelay p * k)
      | BackoffExponential \<Rightarrow> shl64 (InitialDelay p) (nat (k - 1))
      | BackoffExponentialJitter \<Rightarrow>
          let c = shl64 (InitialDelay p) (nat (k - 1)); c' = (if c > MaxDelay p then MaxDelay p else c)
          in Jitter int63n c'
      | BackoffOther _ \<Rightarrow> InitialDelay p)"

definition Backoff :: "(int \<Rightarrow> int) \<Rightarrow> BackoffPolicy \<Rightarrow> int \<Rightarrow> duration" where
  "Backoff int63n p attempt =
     (if InitialDelay p \<le> 0 then 0
      else let k = (if attempt < 1 then 1 else attempt);
               d = backoffCurve int63n p k;
               d1 = (if d > MaxDelay p then MaxDelay p else d)
           in if d1 < 0 then MaxDelay p else d1)"

text \<open>\<^verbatim>\<open>SleepCtx\<close>: whether the wait ran to its end; \<open>cancelled d\<close> says whether the context fires
  within \<open>d\<close> (already fired, for a non-positive wait).\<close>

definition SleepCtx :: "(duration \<Rightarrow> bool) \<Rightarrow> duration \<Rightarrow> bool" where
  "SleepCtx cancelled d = (if d \<le> 0 then \<not> cancelled 0 else \<not> cancelled d)"

subsection \<open>Invariant of the breaker\<close>

text \<open>
  The operations, in the order in which the mutex admits them. A breaker in use has a declared
  state, claims a probe only while half open, keeps its counters below the thresholds that
  would have moved it on, and keeps its policy.
\<close>

datatype breakerOp = OpAllow instant | OpSuccess | OpFailure instant

fun breakerStep :: "Breaker option \<Rightarrow> breakerOp \<Rightarrow> Breaker option" where
  "breakerStep b (OpAllow now) = snd (Allow now b)"
| "breakerStep b OpSuccess = RecordSuccess b"
| "breakerStep b (OpFailure now) = RecordFailure now b"

definition breakerInv :: "BreakerPolicy \<Rightarrow> Breaker option \<Rightarrow> bool" where
  "breakerInv p ob \<longleftrightarrow>
     (case ob of
        None \<Rightarrow> False
      | Some b \<Rightarrow>
          bpolicy b = p \<and>
          (case bstate b of
             BreakerClosed \<Rightarrow> \<not> probeInFlight b \<and> 0 \<le> failureCount b \<and> successCount b = 0 \<and>
                              failureCount b < FailureThreshold p
           | BreakerOpen \<Rightarrow> \<not> probeInFlight b \<and> failureCount b = 0 \<and> successCount b = 0
           | BreakerHalfOpen \<Rightarrow> failureCount b = 0 \<and> 0 \<le> successCount b \<and>
                                successCount b < SuccessThreshold p
           | BreakerOther _ \<Rightarrow> False))"

definition soundPolicy :: "BreakerPolicy \<Rightarrow> bool" where
  "soundPolicy p \<longleftrightarrow>
     Enabled p \<and> 0 < FailureThreshold p \<and> FailureThreshold p \<le> maxInt64 \<and>
     0 < SuccessThreshold p \<and> SuccessThreshold p \<le> maxInt64"

lemma wrap64_succ:
  "0 \<le> n \<Longrightarrow> n < maxInt64 \<Longrightarrow> wrap64 (n + 1) = n + 1"
  by (rule wrap64_id) (simp add: inInt64_def minInt64_def)

lemma breakerInv_New: "soundPolicy p \<Longrightarrow> breakerInv p (Some (NewBreaker p))"
  by (simp add: breakerInv_def NewBreaker_def soundPolicy_def)

lemma breakerInv_Allow:
  "soundPolicy p \<Longrightarrow> breakerInv p b \<Longrightarrow> breakerInv p (snd (Allow now b))"
  by (auto simp: breakerInv_def Allow_def soundPolicy_def split: option.splits BreakerState.splits)

lemma breakerInv_RecordSuccess:
  "soundPolicy p \<Longrightarrow> breakerInv p b \<Longrightarrow> breakerInv p (RecordSuccess b)"
  by (auto simp: breakerInv_def RecordSuccess_def soundPolicy_def Let_def wrap64_succ
      split: option.splits BreakerState.splits)

lemma breakerInv_RecordFailure:
  "soundPolicy p \<Longrightarrow> breakerInv p b \<Longrightarrow> breakerInv p (RecordFailure now b)"
  by (auto simp: breakerInv_def RecordFailure_def soundPolicy_def Let_def wrap64_succ
      split: option.splits BreakerState.splits)

lemmas breakerInv_ops [inv_intros] =
  breakerInv_Allow breakerInv_RecordSuccess breakerInv_RecordFailure

lemma breakerInv_step: "soundPolicy p \<Longrightarrow> breakerInv p b \<Longrightarrow> breakerInv p (breakerStep b c)"
  by (cases c) (auto intro: inv_intros)

interpretation breaker_runs: step_invariant breakerStep "\<lambda>b. soundPolicy p \<and> breakerInv p b" for p
  by unfold_locales (auto intro: breakerInv_step)

end
