(* ===== verification/Resilience_Contract.thy ===== *)
theory Resilience_Contract
  imports Resilience
begin

section \<open>What the circuit breaker and the backoff curves guarantee\<close>

text \<open>
  The breaker is studied alone (its invariant, when it trips, how it recovers) and under
  concurrent traffic: \<open>traffic\<close> is the breaker with the calls that it admitted and that have not
  reported yet, and a step admits a call, rejects one, or reports the outcome of one.
\<close>

subsection \<open>Consecutive failures\<close>

text \<open>The outcomes that a closed breaker observed, latest first: its run of failures is the
  leading \<open>False\<close> entries.\<close>

definition failureRun :: "bool list \<Rightarrow> nat" where
  "failureRun outcomes = length (takeWhile Not outcomes)"

text \<open>Reporting a list of outcomes, the oldest being the last of the list.\<close>

fun reportAll :: "instant \<Rightarrow> Breaker option \<Rightarrow> bool list \<Rightarrow> Breaker option" where
  "reportAll now b [] = b"
| "reportAll now b (ok # os) =
     (if ok then RecordSuccess (reportAll now b os) else RecordFailure now (reportAll now b os))"

text \<open>No part of the history had the threshold of failures in a row.\<close>

fun belowThreshold :: "int \<Rightarrow> bool list \<Rightarrow> bool" where
  "belowThreshold t [] = True"
| "belowThreshold t (ok # os) = (int (failureRun (ok # os)) < t \<and> belowThreshold t os)"

lemma failureRun_below:
  "soundPolicy p \<Longrightarrow> belowThreshold (FailureThreshold p) os \<Longrightarrow>
   int (failureRun os) < FailureThreshold p \<and>
   wrap64 (int (failureRun os) + 1) = int (failureRun os) + 1"
  by (cases os) (auto simp: soundPolicy_def wrap64_small maxInt64_def failureRun_def)

lemma reportAll_closed:
  assumes "soundPolicy p" and "belowThreshold (FailureThreshold p) os"
  shows "reportAll now (Some (NewBreaker p)) os =
           Some (NewBreaker p\<lparr>failureCount := int (failureRun os)\<rparr>)"
  using assms(2)
proof (induction os)
  case Nil
  then show ?case by (simp add: failureRun_def NewBreaker_def)
next
  case (Cons ok os)
  then show ?case
    using failureRun_below [OF assms(1), of os] assms(1)
    by (cases ok) (auto simp: RecordSuccess_def RecordFailure_def soundPolicy_def NewBreaker_def
        failureRun_def Let_def)
qed

text \<open>C12: A breaker with a sound policy, in whatever order the mutex admits its callers, keeps its
  invariant: a declared state, a probe claimed only while half open, no leftover counters when
  open, and counters strictly below the thresholds that would have moved it on.\<close>

theorem breaker_invariant:
  assumes "soundPolicy p"
  shows "breakerInv p (run_steps breakerStep (Some (NewBreaker p)) ops)"
  using breaker_runs.run_keeps [of p "Some (NewBreaker p)" ops] assms
  by (simp add: breakerInv_New)

theorem breaker_invariant_witness:
  "breakerInv \<lparr>Enabled = True, FailureThreshold = 2, SuccessThreshold = 1, OpenFor = 30\<rparr>
     (run_steps breakerStep
        (Some (NewBreaker \<lparr>Enabled = True, FailureThreshold = 2, SuccessThreshold = 1, OpenFor = 30\<rparr>))
        [OpAllow 1, OpFailure 2, OpFailure 3, OpAllow 40, OpSuccess])"
  by (rule breaker_invariant) (simp add: soundPolicy_def maxInt64_def)

text \<open>A closed breaker opens exactly when the configured number of calls failed in a row. For
  every sequence of outcomes in which no shorter history already reached the threshold, the
  breaker is still closed and counts the current run of failures; one more failure opens it,
  with the clock read at that failure, precisely when it completes the threshold, and one
  success resets the count.\<close>

theorem breaker_trips_on_consecutive_failures:
  assumes "soundPolicy p" and "belowThreshold (FailureThreshold p) os"
  shows "reportAll now (Some (NewBreaker p)) os =
           Some (NewBreaker p\<lparr>failureCount := int (failureRun os)\<rparr>) \<and>
         reportAll now (Some (NewBreaker p)) (True # os) = Some (NewBreaker p) \<and>
         reportAll now (Some (NewBreaker p)) (False # os) =
           Some (if int (failureRun os) + 1 = FailureThreshold p
                 then NewBreaker p\<lparr>bstate := BreakerOpen, openedAt := now\<rparr>
                 else NewBreaker p\<lparr>failureCount := int (failureRun os) + 1\<rparr>)"
  using reportAll_closed [OF assms, of now] failureRun_below [OF assms] assms(1)
  by (auto simp: RecordSuccess_def RecordFailure_def soundPolicy_def NewBreaker_def Let_def)

theorem breaker_trips_on_consecutive_failures_witness:
  "reportAll 7 (Some (NewBreaker \<lparr>Enabled = True, FailureThreshold = 2, SuccessThreshold = 1, OpenFor = 30\<rparr>))
     [False, False, True, False] =
   Some (NewBreaker \<lparr>Enabled = True, FailureThreshold = 2, SuccessThreshold = 1, OpenFor = 30\<rparr>
           \<lparr>bstate := BreakerOpen, openedAt := 7\<rparr>)"
  using breaker_trips_on_consecutive_failures
    [of "\<lparr>Enabled = True, FailureThreshold = 2, SuccessThreshold = 1, OpenFor = 30\<rparr>" "[False, True, False]" 7]
  by (simp add: soundPolicy_def maxInt64_def failureRun_def del: reportAll.simps)

subsection \<open>Recovery\<close>

text \<open>One probe after the other: the breaker is asked, and when it admits the call the call
  succeeds. The result says whether every probe was admitted.\<close>

fun probeAll :: "instant list \<Rightarrow> Breaker option \<Rightarrow> bool \<times> Breaker option" where
  "probeAll [] b = (True, b)"
| "probeAll (t # ts) b =
     (case Allow t b of
        ((False, _), b1) \<Rightarrow> (False, b1)
      | ((True, _), b1) \<Rightarrow> probeAll ts (RecordSuccess b1))"

lemma probe_succeeds:
  assumes "soundPolicy p" and "breakerInv p (Some b)" and "bstate b = BreakerHalfOpen"
    and "\<not> probeInFlight b"
  shows "Allow t (Some b) = ((True, ''half-open''), Some (b\<lparr>probeInFlight := True\<rparr>))"
    and "RecordSuccess (Some (b\<lparr>probeInFlight := True\<rparr>)) =
           Some (if successCount b + 1 = SuccessThreshold p
                 then b\<lparr>bstate := BreakerClosed, successCount := 0, failureCount := 0\<rparr>
                 else b\<lparr>successCount := successCount b + 1\<rparr>)"
  using assms
  by (cases b; auto simp: breakerInv_def soundPolicy_def Allow_def RecordSuccess_def wrap64_succ Let_def)+

lemma probeAll_half_open:
  assumes "soundPolicy p" and "breakerInv p (Some b)" and "bstate b = BreakerHalfOpen"
    and "\<not> probeInFlight b" and "int (length ts) = SuccessThreshold p - successCount b"
  shows "probeAll ts (Some b) =
           (True, Some (b\<lparr>bstate := BreakerClosed, successCount := 0, failureCount := 0\<rparr>))"
  using assms(2-5)
proof (induction ts arbitrary: b)
  case Nil
  then show ?case by (simp add: breakerInv_def)
next
  case (Cons t ts)
  note step = probe_succeeds [OF assms(1) Cons.prems(1-3)]
  show ?case
  proof (cases "successCount b + 1 = SuccessThreshold p")
    case True
    then have "length ts = 0" using Cons.prems(4) unfolding list.size by linarith
    then have "ts = []" by simp
    then show ?thesis by (simp add: step True)
  next
    case False
    let ?b = "b\<lparr>successCount := successCount b + 1\<rparr>"
    have "breakerInv p (Some ?b)" using Cons.prems(1,2) False by (auto simp: breakerInv_def)
    then have "probeAll ts (Some ?b) =
        (True, Some (?b\<lparr>bstate := BreakerClosed, successCount := 0, failureCount := 0\<rparr>))"
      using Cons.prems by (intro Cons.IH) auto
    then show ?thesis by (simp add: step False)
  qed
qed



subsection \<open>Concurrent traffic\<close>

text \<open>
  A call that was admitted holds the label that \<open>Allow\<close> gave it until it reports. Calls report in
  any order, at any later time, and nothing else ties a report to the state that admitted the
  call: \<^verbatim>\<open>breakerMiddleware\<close> calls \<open>allow\<close>, dispatches, and records.
\<close>

type_synonym traffic = "Breaker option \<times> string list"

inductive trafficStep :: "traffic \<Rightarrow> traffic \<Rightarrow> bool" where
  admit: "Allow now b = ((True, l), b') \<Longrightarrow> trafficStep (b, fl) (b', l # fl)"
| reject: "Allow now b = ((False, l), b') \<Longrightarrow> trafficStep (b, fl) (b', fl)"
| success: "l \<in> set fl \<Longrightarrow> trafficStep (b, fl) (RecordSuccess b, remove1 l fl)"
| failure: "l \<in> set fl \<Longrightarrow> trafficStep (b, fl) (RecordFailure now b, remove1 l fl)"

text \<open>No call admitted by the closed circuit is still out while the circuit is half open.\<close>

definition drained :: "traffic \<Rightarrow> bool" where
  "drained s \<longleftrightarrow>
     (case s of (b, fl) \<Rightarrow>
        (case b of None \<Rightarrow> True | Some x \<Rightarrow> bstate x = BreakerHalfOpen \<longrightarrow> ''closed'' \<notin> set fl))"

inductive trafficRun :: "(traffic \<Rightarrow> bool) \<Rightarrow> traffic \<Rightarrow> traffic \<Rightarrow> bool" for ok where
  refl: "trafficRun ok s s"
| step: "trafficRun ok s t \<Longrightarrow> ok t \<Longrightarrow> trafficStep t u \<Longrightarrow> trafficRun ok s u"

definition probesOut :: "traffic \<Rightarrow> nat" where
  "probesOut s = count_list (snd s) ''half-open''"

definition trafficInv :: "BreakerPolicy \<Rightarrow> traffic \<Rightarrow> bool" where
  "trafficInv p s \<longleftrightarrow>
     breakerInv p (fst s) \<and> set (snd s) \<subseteq> {''closed'', ''half-open''} \<and>
     (case fst s of
        None \<Rightarrow> False
      | Some b \<Rightarrow> probesOut s = (if bstate b = BreakerHalfOpen \<and> probeInFlight b then 1 else 0))"

lemma count_list_remove1:
  "l \<in> set fl \<Longrightarrow> count_list (remove1 l fl) x = count_list fl x - (if x = l then 1 else 0)"
  by (induction fl) (auto simp: count_list_0_iff)

lemma trafficInv_step:
  assumes "soundPolicy p" and "trafficInv p s" and "drained s" and "trafficStep s t"
  shows "trafficInv p t"
proof -
  obtain b fl where s: "s = (b, fl)" by (cases s)
  have inv: "breakerInv p b" "set fl \<subseteq> {''closed'', ''half-open''}"
    using assms(2) by (auto simp: trafficInv_def s)
  then obtain x where b: "b = Some x" by (cases b) (auto simp: breakerInv_def)
  show ?thesis
    using assms(4) unfolding s
  proof cases
    case (admit now l b')
    then have "breakerInv p b'" using breakerInv_Allow [OF assms(1) inv(1), of now] by simp
    with admit assms(1,2) inv show ?thesis
      by (auto simp: trafficInv_def s b Allow_def probesOut_def soundPolicy_def breakerInv_def
          split: BreakerState.splits if_splits)
  next
    case (reject now l b')
    then have "breakerInv p b'" using breakerInv_Allow [OF assms(1) inv(1), of now] by simp
    with reject assms(1,2) inv show ?thesis
      by (auto simp: trafficInv_def s b Allow_def probesOut_def soundPolicy_def breakerInv_def
          split: BreakerState.splits if_splits)
  next
    case (success l)
    have "breakerInv p (RecordSuccess b)" by (rule breakerInv_RecordSuccess [OF assms(1) inv(1)])
    with success assms(1-3) inv set_remove1_subset [of l fl] show ?thesis
      by (auto simp: trafficInv_def s b RecordSuccess_def probesOut_def soundPolicy_def breakerInv_def
          drained_def count_list_remove1 Let_def split: BreakerState.splits if_splits)
  next
    case (failure l now)
    have "breakerInv p (RecordFailure now b)" by (rule breakerInv_RecordFailure [OF assms(1) inv(1)])
    with failure assms(1-3) inv set_remove1_subset [of l fl] show ?thesis
      by (auto simp: trafficInv_def s b RecordFailure_def probesOut_def soundPolicy_def breakerInv_def
          drained_def count_list_remove1 Let_def split: BreakerState.splits if_splits)
  qed
qed

lemma trafficInv_run:
  assumes "soundPolicy p" and "trafficRun drained s t" and "trafficInv p s"
  shows "trafficInv p t"
  using assms(2,3) by (induction rule: trafficRun.induct) (auto intro: trafficInv_step [OF assms(1)])

text \<open>C34: As long as no call that the closed circuit admitted is still out while the circuit is half
  open, half-open traffic is one probe at a time: in every interleaving of admissions,
  rejections and reports at most one probe is out, and there is one exactly when the breaker is
  half open and holds its probe flag.\<close>

theorem one_probe_at_a_time:
  assumes "soundPolicy p" and "trafficRun drained (Some (NewBreaker p), []) (Some b, calls)"
  shows "probesOut (Some b, calls) \<le> 1 \<and>
         (probesOut (Some b, calls) = 1 \<longleftrightarrow> bstate b = BreakerHalfOpen \<and> probeInFlight b)"
proof -
  have "trafficInv p (Some (NewBreaker p), [])"
    using breakerInv_New [OF assms(1)] by (simp add: trafficInv_def probesOut_def NewBreaker_def)
  from trafficInv_run [OF assms(1,2) this] show ?thesis by (auto simp: trafficInv_def)
qed

lemma one_probe_run:
  "trafficRun drained
     (Some (NewBreaker \<lparr>Enabled = True, FailureThreshold = 1, SuccessThreshold = 2, OpenFor = 30\<rparr>), [])
     (Some (NewBreaker \<lparr>Enabled = True, FailureThreshold = 1, SuccessThreshold = 2, OpenFor = 30\<rparr>
              \<lparr>bstate := BreakerHalfOpen, openedAt := 5, probeInFlight := True\<rparr>), [''half-open''])"
proof -
  let ?p = "\<lparr>Enabled = True, FailureThreshold = 1, SuccessThreshold = 2, OpenFor = 30\<rparr> :: BreakerPolicy"
  let ?b0 = "NewBreaker ?p" and ?b1 = "NewBreaker ?p\<lparr>bstate := BreakerOpen, openedAt := 5\<rparr>"
  have 1: "trafficStep (Some ?b0, []) (Some ?b0, [''closed''])"
    by (rule trafficStep.admit [where now = 1]) (simp add: Allow_def NewBreaker_def)
  have 2: "trafficStep (Some ?b0, [''closed'']) (Some ?b1, [])"
    using trafficStep.failure [of "''closed''" "[''closed'']" "Some ?b0" 5]
    by (simp add: RecordFailure_def NewBreaker_def Let_def wrap64_def)
  have 3: "trafficStep (Some ?b1, [])
      (Some (NewBreaker ?p\<lparr>bstate := BreakerHalfOpen, openedAt := 5, probeInFlight := True\<rparr>), [''half-open''])"
    by (rule trafficStep.admit [where now = 40])
       (simp add: Allow_def NewBreaker_def timeSub_def maxInt64_def minInt64_def)
  have "trafficRun drained (Some ?b0, []) (Some ?b0, [''closed''])"
    by (rule trafficRun.step [OF trafficRun.refl _ 1]) (simp add: drained_def)
  then have "trafficRun drained (Some ?b0, []) (Some ?b1, [])"
    by (rule trafficRun.step [OF _ _ 2]) (simp add: drained_def NewBreaker_def)
  then show ?thesis by (rule trafficRun.step [OF _ _ 3]) (simp add: drained_def)
qed

theorem one_probe_at_a_time_witness:
  "probesOut
     (Some (NewBreaker \<lparr>Enabled = True, FailureThreshold = 1, SuccessThreshold = 2, OpenFor = 30\<rparr>
              \<lparr>bstate := BreakerHalfOpen, openedAt := 5, probeInFlight := True\<rparr>), [''half-open'']) = 1"
  using one_probe_at_a_time [OF _ one_probe_run]
  by (simp add: soundPolicy_def maxInt64_def NewBreaker_def)

text \<open>The one-probe promise of the half-open state does not survive slow calls. Two calls enter
  the closed circuit, the first one fails and opens it, the window passes and a probe is
  admitted; the report of the second call, which belongs to the closed era, is taken for the
  probe's: it frees the probe slot while the probe is still out, and the next caller is admitted
  as a second probe.\<close>

theorem late_report_admits_a_second_probe:
  "\<exists>b. trafficRun (\<lambda>_. True)
          (Some (NewBreaker \<lparr>Enabled = True, FailureThreshold = 1, SuccessThreshold = 2, OpenFor = 30\<rparr>), [])
          (Some b, [''half-open'', ''half-open'']) \<and>
       bstate b = BreakerHalfOpen \<and> probesOut (Some b, [''half-open'', ''half-open'']) = 2"
proof -
  let ?p = "\<lparr>Enabled = True, FailureThreshold = 1, SuccessThreshold = 2, OpenFor = 30\<rparr> :: BreakerPolicy"
  let ?b0 = "NewBreaker ?p" and ?b1 = "NewBreaker ?p\<lparr>bstate := BreakerOpen, openedAt := 5\<rparr>"
  let ?b2 = "NewBreaker ?p\<lparr>bstate := BreakerHalfOpen, openedAt := 5, probeInFlight := True\<rparr>"
  let ?b3 = "NewBreaker ?p\<lparr>bstate := BreakerHalfOpen, openedAt := 5, successCount := 1\<rparr>"
  let ?b4 = "NewBreaker ?p\<lparr>bstate := BreakerHalfOpen, openedAt := 5, successCount := 1, probeInFlight := True\<rparr>"
  note evals = Allow_def RecordSuccess_def RecordFailure_def NewBreaker_def timeSub_def maxInt64_def
    minInt64_def Let_def wrap64_def
  have 1: "trafficStep (Some ?b0, fl) (Some ?b0, ''closed'' # fl)" for fl
    by (rule trafficStep.admit [where now = 1]) (simp add: evals)
  have 2: "trafficStep (Some ?b0, [''closed'', ''closed'']) (Some ?b1, [''closed''])"
    using trafficStep.failure [of "''closed''" "[''closed'', ''closed'']" "Some ?b0" 5] by (simp add: evals)
  have 3: "trafficStep (Some ?b1, [''closed'']) (Some ?b2, [''half-open'', ''closed''])"
    by (rule trafficStep.admit [where now = 40]) (simp add: evals)
  have 4: "trafficStep (Some ?b2, [''half-open'', ''closed'']) (Some ?b3, [''half-open''])"
    using trafficStep.success [of "''closed''" "[''half-open'', ''closed'']" "Some ?b2"] by (simp add: evals)
  have 5: "trafficStep (Some ?b3, [''half-open'']) (Some ?b4, [''half-open'', ''half-open''])"
    by (rule trafficStep.admit [where now = 41]) (simp add: evals)
  note go = trafficRun.step [where ok = "\<lambda>_. True", OF _ TrueI]
  have "trafficRun (\<lambda>_. True) (Some ?b0, []) (Some ?b4, [''half-open'', ''half-open''])"
    by (rule go [OF _ 5], rule go [OF _ 4], rule go [OF _ 3], rule go [OF _ 2],
        rule go [OF _ 1], rule go [OF _ 1], rule trafficRun.refl)
  then show ?thesis by (intro exI [of _ ?b4]) (simp add: probesOut_def)
qed

subsection \<open>Backoff curves\<close>

text \<open>C37: Whatever the strategy, the attempt and the draw, the wait between two attempts lies between
  zero and the configured maximum; and where the exponential curve stays in the range of a
  duration it is the doubled initial delay capped at the maximum.\<close>

theorem Backoff_bounds:
  assumes "0 \<le> MaxDelay p"
  shows "0 \<le> Backoff int63n p attempt \<and> Backoff int63n p attempt \<le> MaxDelay p \<and>
         (Strategy p = BackoffExponential \<and> 0 < InitialDelay p \<and> 1 \<le> attempt \<and>
            InitialDelay p * 2 ^ nat (attempt - 1) \<le> maxInt64 \<longrightarrow>
          Backoff int63n p attempt = min (InitialDelay p * 2 ^ nat (attempt - 1)) (MaxDelay p))"
proof (intro conjI impI)
  show "0 \<le> Backoff int63n p attempt" and "Backoff int63n p attempt \<le> MaxDelay p"
    using assms by (simp_all add: Backoff_def Let_def)
  assume asm: "Strategy p = BackoffExponential \<and> 0 < InitialDelay p \<and> 1 \<le> attempt \<and>
                 InitialDelay p * 2 ^ nat (attempt - 1) \<le> maxInt64"
  then have nonneg: "0 \<le> InitialDelay p * 2 ^ nat (attempt - 1)" by simp
  with asm have "wrap64 (InitialDelay p * 2 ^ nat (attempt - 1)) = InitialDelay p * 2 ^ nat (attempt - 1)"
    by (intro wrap64_id) (unfold inInt64_def minInt64_def, linarith)
  with asm assms nonneg show "Backoff int63n p attempt = min (InitialDelay p * 2 ^ nat (attempt - 1)) (MaxDelay p)"
    by (auto simp: Backoff_def backoffCurve_def shl64_def Let_def mult_less_0_iff)
qed

theorem Backoff_bounds_witness:
  "Backoff (\<lambda>n. n - 1) \<lparr>Strategy = BackoffExponential, InitialDelay = 100, MaxDelay = 5000\<rparr> 4 = 800"
  using Backoff_bounds
    [of "\<lparr>Strategy = BackoffExponential, InitialDelay = 100, MaxDelay = 5000\<rparr>" "\<lambda>n. n - 1" 4]
  by (simp add: maxInt64_def)

text \<open>The exponential curve overflows into no wait at all. With the default initial delay of
  100 milliseconds and the default maximum of 5 seconds, the wait after the 57th attempt is zero
  rather than the maximum, because the doubled delay wraps to zero, which the check for a
  negative value does not see; the jittered curve has the same hole.\<close>

theorem Backoff_overflow_is_no_wait:
  "Backoff int63n \<lparr>Strategy = BackoffExponential, InitialDelay = 100 * millisecond, MaxDelay = 5 * second\<rparr> 57 = 0 \<and>
   Backoff int63n \<lparr>Strategy = BackoffExponentialJitter, InitialDelay = 100 * millisecond, MaxDelay = 5 * second\<rparr> 57 = 0 \<and>
   Backoff int63n \<lparr>Strategy = BackoffExponential, InitialDelay = 100 * millisecond, MaxDelay = 5 * second\<rparr> 30 = 5 * second"
  by (simp add: Backoff_def backoffCurve_def shl64_def wrap64_def Jitter_def millisecond_def second_def Let_def)

end
