(* ===== verification/Memory_Cache.thy ===== *)
theory Memory_Cache
  imports Go_Lib
begin

section \<open>The byte cache: in-process LRU and Redis backends\<close>

text \<open>
  Model of \<^verbatim>\<open>src/infra/cache/cache.go\<close>, \<^verbatim>\<open>memory.go\<close> and \<^verbatim>\<open>redis.go\<close>.

  The in-process backend keeps a doubly linked list of items, most recently used first, and a
  map from keys to the elements of that list. An element is an address; the list is the
  sequence of its addresses with their items, and the map points into it. A method holds the
  mutex for its whole body, so it is a function on the state, with the clock as an argument.
  \<^verbatim>\<open>Get\<close> and \<^verbatim>\<open>Set\<close> copy the bytes, so values are not shared with callers.

  The Redis client is a third-party package: its three commands are arguments.
\<close>

subsection \<open>In-process backend\<close>

record memoryItem =
  ikey :: string
  ivalue :: string
  iexpires :: "instant option"

record memoryCache =
  maxLen :: int
  order :: "(nat \<times> memoryItem) list"
  entries :: "string \<rightharpoonup> nat"
  nextElement :: nat

definition frameworkMemoryMaxEntries :: int where
  "frameworkMemoryMaxEntries = 10000"

definition NewMemory :: "int \<Rightarrow> memoryCache" where
  "NewMemory maxEntries =
     (let m = (if maxEntries = 0 then frameworkMemoryMaxEntries else maxEntries);
          m' = (if m < 0 then 0 else m)
      in \<lparr>maxLen = m', order = [], entries = Map.empty, nextElement = 0\<rparr>)"

text \<open>\<^verbatim>\<open>list.Remove\<close> and \<^verbatim>\<open>list.MoveToFront\<close> on an element of the list.\<close>

definition removeElement :: "nat \<Rightarrow> (nat \<times> memoryItem) list \<Rightarrow> (nat \<times> memoryItem) list" where
  "removeElement a xs = filter (\<lambda>e. fst e \<noteq> a) xs"

definition moveToFront :: "nat \<Rightarrow> memoryItem \<Rightarrow> (nat \<times> memoryItem) list \<Rightarrow> (nat \<times> memoryItem) list" where
  "moveToFront a it xs = (a, it) # removeElement a xs"

definition expired :: "instant \<Rightarrow> instant option \<Rightarrow> bool" where
  "expired now e \<longleftrightarrow> (case e of None \<Rightarrow> False | Some t \<Rightarrow> now > t)"

definition memory_Get :: "instant \<Rightarrow> string \<Rightarrow> memoryCache \<Rightarrow> string option \<times> memoryCache" where
  "memory_Get now key c =
     (case entries c key of
        None \<Rightarrow> (None, c)
      | Some a \<Rightarrow>
          (case map_of (order c) a of
             None \<Rightarrow> (None, c)
           | Some it \<Rightarrow>
               if expired now (iexpires it)
               then (None, c\<lparr>order := removeElement a (order c), entries := (entries c)(key := None)\<rparr>)
               else (Some (ivalue it), c\<lparr>order := moveToFront a it (order c)\<rparr>)))"

datatype cacheError = ErrInvalidTTL | CacheTransport string | CacheDecode string | CacheEncode string

text \<open>The eviction of \<^verbatim>\<open>Set\<close>: when the list is full its last element goes, with its entry.\<close>

definition evictBack :: "memoryCache \<Rightarrow> memoryCache" where
  "evictBack c =
     (if maxLen c > 0 \<and> int (length (order c)) \<ge> maxLen c \<and> order c \<noteq> [] then
        c\<lparr>order := butlast (order c),
          entries := (entries c)(ikey (snd (last (order c))) := None)\<rparr>
      else c)"

definition memory_Set ::
  "instant \<Rightarrow> string \<Rightarrow> string \<Rightarrow> duration \<Rightarrow> memoryCache \<Rightarrow> cacheError option \<times> memoryCache" where
  "memory_Set now key v ttl c =
     (if ttl < 0 then (Some ErrInvalidTTL, c)
      else let exp = (if ttl > 0 then Some (now + ttl) else None) in
        case entries c key of
          Some a \<Rightarrow>
            (case map_of (order c) a of
               None \<Rightarrow> (None, c)
             | Some it \<Rightarrow>
                 (None, c\<lparr>order := moveToFront a (it\<lparr>ivalue := v, iexpires := exp\<rparr>) (order c)\<rparr>))
        | None \<Rightarrow>
            let c1 = evictBack c; a = nextElement c1 in
            (None, c1\<lparr>order := (a, \<lparr>ikey = key, ivalue = v, iexpires = exp\<rparr>) # order c1,
                      entries := (entries c1)(key \<mapsto> a),
                      nextElement := Suc a\<rparr>))"

definition memory_Delete :: "string \<Rightarrow> memoryCache \<Rightarrow> memoryCache" where
  "memory_Delete key c =
     (case entries c key of
        None \<Rightarrow> c
      | Some a \<Rightarrow> c\<lparr>order := removeElement a (order c), entries := (entries c)(key := None)\<rparr>)"

definition memory_len :: "memoryCache \<Rightarrow> int" where
  "memory_len c = int (length (order c))"

subsection \<open>Typed helpers\<close>

text \<open>\<^verbatim>\<open>GetJSON\<close> and \<^verbatim>\<open>SetJSON\<close> over any backend: \<open>get\<close> and \<open>put\<close> are its methods, a nil cache
  is \<open>None\<close>, and the JSON codec of the value type is an argument.\<close>

definition GetJSON ::
  "(string \<Rightarrow> 'a option) \<Rightarrow> (string \<Rightarrow> 'c \<Rightarrow> (cacheError + string option) \<times> 'c) \<Rightarrow> string \<Rightarrow> 'c option \<Rightarrow>
   (cacheError + 'a option) \<times> 'c option" where
  "GetJSON dec get key oc =
     (case oc of
        None \<Rightarrow> (Inr None, None)
      | Some c \<Rightarrow>
          (case get key c of
             (Inl e, c1) \<Rightarrow> (Inl e, Some c1)
           | (Inr None, c1) \<Rightarrow> (Inr None, Some c1)
           | (Inr (Some raw), c1) \<Rightarrow>
               (case dec raw of None \<Rightarrow> (Inl (CacheDecode key), Some c1)
                | Some x \<Rightarrow> (Inr (Some x), Some c1))))"

definition SetJSON ::
  "('a \<Rightarrow> string option) \<Rightarrow> (string \<Rightarrow> string \<Rightarrow> duration \<Rightarrow> 'c \<Rightarrow> cacheError option \<times> 'c) \<Rightarrow>
   string \<Rightarrow> 'a \<Rightarrow> duration \<Rightarrow> 'c option \<Rightarrow> cacheError option \<times> 'c option" where
  "SetJSON enc put key x ttl oc =
     (case oc of
        None \<Rightarrow> (None, None)
      | Some c \<Rightarrow>
          (case enc x of
             None \<Rightarrow> (Some (CacheEncode key), Some c)
           | Some raw \<Rightarrow> (case put key raw ttl c of (e, c1) \<Rightarrow> (e, Some c1))))"

subsection \<open>Redis backend\<close>

record RedisConfig =
  Addr :: string
  DB :: int
  KeyPrefix :: string
  FailMode :: string
  TimeoutMs :: int

definition redisErrors :: "RedisConfig \<Rightarrow> string list" where
  "redisErrors cfg =
     (if TrimSpace (Addr cfg) = [] then [''addr: required''] else []) @
     (if DB cfg < 0 then [''db: must be non-negative''] else []) @
     (if TimeoutMs cfg < 0 then [''timeoutMs: must be non-negative''] else []) @
     (if ToLower (TrimSpace (FailMode cfg)) \<in> {[], ''open'', ''closed''} then []
      else [''failMode: '' @ quoted (FailMode cfg) @ '' is not valid (open | closed)''])"

definition RedisConfig_Validate :: "RedisConfig option \<Rightarrow> string list option" where
  "RedisConfig_Validate oc =
     (case oc of
        None \<Rightarrow> Some [''redis config is required'']
      | Some cfg \<Rightarrow> if redisErrors cfg = [] then None else Some (redisErrors cfg))"

text \<open>A transport reply: \<open>Inl\<close> an error, \<open>Inr None\<close> the reply \<^verbatim>\<open>redis.Nil\<close>.\<close>

record 's redisClient =
  clientGet :: "string \<Rightarrow> 's \<Rightarrow> (string + string option) \<times> 's"
  clientSet :: "string \<Rightarrow> string \<Rightarrow> duration \<Rightarrow> 's \<Rightarrow> string option \<times> 's"
  clientDel :: "string \<Rightarrow> 's \<Rightarrow> string option \<times> 's"

record 's redisCache =
  client :: "'s redisClient"
  keyPrefix :: string
  timeout :: duration
  failOpen :: bool

definition NewRedis :: "'s redisClient \<Rightarrow> RedisConfig option \<Rightarrow> string list + 's redisCache" where
  "NewRedis cl oc =
     (case RedisConfig_Validate oc of
        Some errs \<Rightarrow> Inl errs
      | None \<Rightarrow>
          (case oc of
             None \<Rightarrow> Inl []
           | Some cfg \<Rightarrow>
               Inr \<lparr>client = cl, keyPrefix = KeyPrefix cfg,
                    timeout = (if TimeoutMs cfg > 0 then wrap64 (TimeoutMs cfg * millisecond)
                               else 100 * millisecond),
                    failOpen = (\<not> EqualFold (TrimSpace (FailMode cfg)) ''closed'')\<rparr>))"

definition fullKey :: "'s redisCache \<Rightarrow> string \<Rightarrow> string" where
  "fullKey r key = (if keyPrefix r = [] then key else keyPrefix r @ '':'' @ key)"

definition handleTransport :: "'s redisCache \<Rightarrow> string \<Rightarrow> cacheError option" where
  "handleTransport r err = (if failOpen r then None else Some (CacheTransport err))"

definition redis_Get ::
  "'s redisCache option \<Rightarrow> string \<Rightarrow> 's \<Rightarrow> (cacheError + string option) \<times> 's" where
  "redis_Get r key s =
     (case r of
        None \<Rightarrow> (Inr None, s)
      | Some r \<Rightarrow>
          (case clientGet (client r) (fullKey r key) s of
             (Inl err, s1) \<Rightarrow>
               (case handleTransport r err of None \<Rightarrow> Inr None | Some e \<Rightarrow> Inl e, s1)
           | (Inr v, s1) \<Rightarrow> (Inr v, s1)))"

definition redis_Set ::
  "'s redisCache option \<Rightarrow> string \<Rightarrow> string \<Rightarrow> duration \<Rightarrow> 's \<Rightarrow> cacheError option \<times> 's" where
  "redis_Set r key v ttl s =
     (if ttl < 0 then (Some ErrInvalidTTL, s)
      else case r of
        None \<Rightarrow> (None, s)
      | Some r \<Rightarrow>
          (case clientSet (client r) (fullKey r key) v ttl s of
             (Some err, s1) \<Rightarrow> (handleTransport r err, s1)
           | (None, s1) \<Rightarrow> (None, s1)))"

definition redis_Delete :: "'s redisCache option \<Rightarrow> string \<Rightarrow> 's \<Rightarrow> cacheError option \<times> 's" where
  "redis_Delete r key s =
     (case r of
        None \<Rightarrow> (None, s)
      | Some r \<Rightarrow>
          (case clientDel (client r) (fullKey r key) s of
             (Some err, s1) \<Rightarrow> (handleTransport r err, s1)
           | (None, s1) \<Rightarrow> (None, s1)))"

subsection \<open>Abstract LRU list\<close>

text \<open>What the in-process backend promises: a list of keyed values with deadlines, most recently
  used first, whose last entry goes when a new key arrives and the list is full.\<close>

type_synonym lru = "(string \<times> string \<times> instant option) list"

definition lruWithout :: "string \<Rightarrow> lru \<Rightarrow> lru" where
  "lruWithout k xs = filter (\<lambda>e. fst e \<noteq> k) xs"

definition lruGet :: "instant \<Rightarrow> string \<Rightarrow> lru \<Rightarrow> string option \<times> lru" where
  "lruGet now k xs =
     (case map_of xs k of
        None \<Rightarrow> (None, xs)
      | Some (v, e) \<Rightarrow>
          if expired now e then (None, lruWithout k xs) else (Some v, (k, v, e) # lruWithout k xs))"

definition lruSet :: "int \<Rightarrow> instant \<Rightarrow> string \<Rightarrow> string \<Rightarrow> duration \<Rightarrow> lru \<Rightarrow> lru" where
  "lruSet cap now k v ttl xs =
     (if ttl < 0 then xs
      else let room = (if k \<notin> fst ` set xs \<and> cap > 0 \<and> int (length xs) \<ge> cap then butlast xs else xs)
           in (k, v, if ttl > 0 then Some (now + ttl) else None) # lruWithout k room)"

definition absCache :: "memoryCache \<Rightarrow> lru" where
  "absCache c = map (\<lambda>(a, it). (ikey it, ivalue it, iexpires it)) (order c)"

definition memoryInv :: "memoryCache \<Rightarrow> bool" where
  "memoryInv c \<longleftrightarrow>
     distinct (map fst (order c)) \<and> distinct (map (\<lambda>e. ikey (snd e)) (order c)) \<and>
     (\<forall>k a. entries c k = Some a \<longleftrightarrow> (\<exists>it. (a, it) \<in> set (order c) \<and> ikey it = k)) \<and>
     (\<forall>e\<in>set (order c). fst e < nextElement c) \<and>
     (maxLen c > 0 \<longrightarrow> int (length (order c)) \<le> maxLen c)"

end
