(* ===== verification/Cache_Contract.thy ===== *)
theory Cache_Contract
  imports Memory_Cache
begin

section \<open>The in-process cache implements an LRU list\<close>

text \<open>
  First the two structures of the backend agree: an element of the list is addressed by the map
  under its own key, and by no other. Under that invariant every method is the method of the
  abstract list. The locale \<open>byte_cache\<close> is the interface that clients of the cache rely on; it is
  interpreted on the in-process backend.
\<close>

subsection \<open>The list and the map agree\<close>

lemma memoryInvD:
  assumes "memoryInv c"
  shows "distinct (map fst (order c))" and "distinct (map (\<lambda>e. ikey (snd e)) (order c))"
    and "entries c k = Some a \<longleftrightarrow> (\<exists>it. (a, it) \<in> set (order c) \<and> ikey it = k)"
    and "\<forall>e\<in>set (order c). fst e < nextElement c"
    and "maxLen c > 0 \<longrightarrow> int (length (order c)) \<le> maxLen c"
  using assms unfolding memoryInv_def by blast+

lemma entries_element:
  assumes "memoryInv c" and "entries c k = Some a"
  obtains it where "map_of (order c) a = Some it" and "(a, it) \<in> set (order c)" and "ikey it = k"
  using memoryInvD(3) [OF assms(1), of k a] memoryInvD(1) [OF assms(1)] assms(2)
  by (metis map_of_is_SomeI)

lemma same_element:
  assumes "memoryInv c" and "(a, it) \<in> set (order c)" and "e \<in> set (order c)"
  shows "fst e = a \<longleftrightarrow> ikey (snd e) = ikey it"
proof -
  have addr: "inj_on fst (set (order c))" and keys: "inj_on (\<lambda>e. ikey (snd e)) (set (order c))"
    using memoryInvD(1,2) [OF assms(1)] by (simp_all add: distinct_map)
  show ?thesis
    using inj_onD [OF addr, of e "(a, it)"] inj_onD [OF keys, of e "(a, it)"] assms(2,3)
    by (cases e) auto
qed

lemma absCache_keys: "map fst (absCache c) = map (\<lambda>e. ikey (snd e)) (order c)"
  by (simp add: absCache_def case_prod_beta comp_def)

lemma absCache_lookup:
  assumes "memoryInv c" and "(a, it) \<in> set (order c)"
  shows "map_of (absCache c) (ikey it) = Some (ivalue it, iexpires it)"
proof (rule map_of_is_SomeI)
  show "distinct (map fst (absCache c))"
    by (simp only: absCache_keys memoryInvD(2) [OF assms(1)])
  show "(ikey it, ivalue it, iexpires it) \<in> set (absCache c)"
    using assms(2) by (force simp: absCache_def)
qed

lemma absCache_lookup_None:
  assumes "memoryInv c" and "entries c k = None"
  shows "k \<notin> fst ` set (absCache c)" and "map_of (absCache c) k = None"
proof -
  have "ikey it \<noteq> k" if "(a, it) \<in> set (order c)" for a it
    using memoryInvD(3) [OF assms(1), of k a] assms(2) that by auto
  then show "k \<notin> fst ` set (absCache c)" by (force simp: absCache_def)
  then show "map_of (absCache c) k = None" by (simp add: map_of_eq_None_iff)
qed

lemma absCache_remove:
  assumes "memoryInv c" and "(a, it) \<in> set (order c)"
  shows "map (\<lambda>(a, it). (ikey it, ivalue it, iexpires it)) (removeElement a (order c)) =
         lruWithout (ikey it) (absCache c)"
  unfolding removeElement_def lruWithout_def absCache_def filter_map
  by (rule arg_cong [where f = "map _"], rule filter_cong)
     (auto dest: same_element [OF assms] simp: case_prod_beta)

lemma length_removeElement:
  "length (removeElement a xs) \<le> length xs"
  by (simp add: removeElement_def)

lemma length_removeElement_less:
  "(a, it) \<in> set xs \<Longrightarrow> length (removeElement a xs) < length xs"
  unfolding removeElement_def by (rule length_filter_less [of "(a, it)"]) auto

subsection \<open>Every method keeps the invariant\<close>

lemma memoryInv_New: "memoryInv (NewMemory n)"
  by (simp add: memoryInv_def NewMemory_def Let_def)

lemma memoryInv_entries:
  assumes "memoryInv c" and "(a, it) \<in> set (order c)"
  shows "entries c k = Some b \<longleftrightarrow>
         (if b = a then k = ikey it else \<exists>i. (b, i) \<in> set (removeElement a (order c)) \<and> ikey i = k)"
proof -
  have "entries c k = Some b \<longleftrightarrow> (\<exists>i. (b, i) \<in> set (order c) \<and> ikey i = k)"
    by (rule memoryInvD(3) [OF assms(1)])
  moreover have "ikey i = ikey it" if "(a, i) \<in> set (order c)" for i
    using same_element [OF assms that] by simp
  ultimately show ?thesis using assms(2) by (cases "b = a") (metis, simp add: removeElement_def)
qed

lemma set_removeElement [simp]: "set (removeElement a xs) = {e \<in> set xs. fst e \<noteq> a}"
  by (simp add: removeElement_def)

lemma memoryInv_removeElement:
  assumes "memoryInv c"
  shows "distinct (map fst (removeElement a (order c)))"
    and "distinct (map (\<lambda>e. ikey (snd e)) (removeElement a (order c)))"
    and "\<forall>e\<in>set (removeElement a (order c)). fst e < nextElement c"
    and "maxLen c > 0 \<longrightarrow> int (length (removeElement a (order c))) \<le> maxLen c"
  using memoryInvD(1,2,4,5) [OF assms] length_removeElement [of a "order c"]
  by (auto simp: removeElement_def distinct_map_filter simp del: length_filter_le)

lemma memoryInv_remove:
  assumes "memoryInv c" and "(a, it) \<in> set (order c)"
  shows "memoryInv (c\<lparr>order := removeElement a (order c), entries := (entries c)(ikey it := None)\<rparr>)"
  unfolding memoryInv_def
proof (intro conjI allI)
  fix k b
  show "entries (c\<lparr>order := removeElement a (order c), entries := (entries c)(ikey it := None)\<rparr>) k = Some b \<longleftrightarrow>
        (\<exists>i. (b, i) \<in> set (order (c\<lparr>order := removeElement a (order c), entries := (entries c)(ikey it := None)\<rparr>)) \<and>
             ikey i = k)"
  proof (cases "b = a")
    case True
    then show ?thesis using memoryInv_entries [OF assms, of k b] by simp
  next
    case False
    then have "\<not> (\<exists>i. (b, i) \<in> set (order c) \<and> ikey i = ikey it)"
      using same_element [OF assms, of "(b, _)"] by auto
    then show ?thesis using False memoryInv_entries [OF assms, of k b] by auto
  qed
qed (use memoryInv_removeElement [OF assms(1), of a] in simp_all)

lemma memoryInv_front:
  assumes "memoryInv c" and "(a, it) \<in> set (order c)" and "ikey it' = ikey it"
  shows "memoryInv (c\<lparr>order := moveToFront a it' (order c)\<rparr>)"
  unfolding memoryInv_def
proof (intro conjI allI)
  fix k b
  show "entries (c\<lparr>order := moveToFront a it' (order c)\<rparr>) k = Some b \<longleftrightarrow>
        (\<exists>i. (b, i) \<in> set (order (c\<lparr>order := moveToFront a it' (order c)\<rparr>)) \<and> ikey i = k)"
    using memoryInv_entries [OF assms(1,2), of k b] assms(3)
    by (cases "b = a") (auto simp: moveToFront_def)
next
  show "distinct (map (\<lambda>e. ikey (snd e)) (order (c\<lparr>order := moveToFront a it' (order c)\<rparr>)))"
  proof -
    have "ikey it \<notin> (\<lambda>e. ikey (snd e)) ` set (removeElement a (order c))"
      using same_element [OF assms(1,2)] by force
    then show ?thesis
      using memoryInv_removeElement(2) [OF assms(1), of a] assms(3)
      by (simp only: moveToFront_def) simp
  qed
next
  show "maxLen (c\<lparr>order := moveToFront a it' (order c)\<rparr>) > 0 \<longrightarrow>
        int (length (order (c\<lparr>order := moveToFront a it' (order c)\<rparr>)))
          \<le> maxLen (c\<lparr>order := moveToFront a it' (order c)\<rparr>)"
    using memoryInvD(5) [OF assms(1)] length_removeElement_less [OF assms(2)] by (auto simp: moveToFront_def)
next
  show "\<forall>e\<in>set (order (c\<lparr>order := moveToFront a it' (order c)\<rparr>)).
          fst e < nextElement (c\<lparr>order := moveToFront a it' (order c)\<rparr>)"
    using memoryInvD(4) [OF assms(1)] assms(2) by (auto simp: moveToFront_def)
next
  show "distinct (map fst (order (c\<lparr>order := moveToFront a it' (order c)\<rparr>)))"
    using memoryInv_removeElement(1) [OF assms(1), of a] by (auto simp: moveToFront_def)
qed

subsection \<open>Every method is the abstract method\<close>

lemma memory_Get_miss: "entries c k = None \<Longrightarrow> memory_Get now k c = (None, c)"
  by (simp add: memory_Get_def)

lemma memory_Get_refines:
  assumes "memoryInv c"
  shows "memoryInv (snd (memory_Get now k c)) \<and>
         lruGet now k (absCache c) = (fst (memory_Get now k c), absCache (snd (memory_Get now k c)))"
proof (cases "entries c k")
  case None
  then show ?thesis
    using assms absCache_lookup_None(2) [OF assms None] by (simp add: memory_Get_miss lruGet_def)
next
  case (Some a)
  obtain it where it: "map_of (order c) a = Some it" "(a, it) \<in> set (order c)" "ikey it = k"
    by (rule entries_element [OF assms Some])
  show ?thesis
  proof (cases "expired now (iexpires it)")
    case True
    then show ?thesis
      using absCache_lookup [OF assms it(2)] absCache_remove [OF assms it(2)] memoryInv_remove [OF assms it(2)] it Some
      by (simp add: memory_Get_def lruGet_def absCache_def)
  next
    case False
    then show ?thesis
      using absCache_lookup [OF assms it(2)] absCache_remove [OF assms it(2)] memoryInv_front [OF assms it(2) refl] it Some
      by (simp add: memory_Get_def lruGet_def absCache_def moveToFront_def)
  qed
qed

lemma memory_Delete_refines:
  assumes "memoryInv c"
  shows "memoryInv (memory_Delete k c) \<and> absCache (memory_Delete k c) = lruWithout k (absCache c)"
proof (cases "entries c k")
  case None
  then have "lruWithout k (absCache c) = absCache c"
    using absCache_lookup_None(1) [OF assms None] by (force simp: lruWithout_def filter_id_conv)
  then show ?thesis using assms None by (simp add: memory_Delete_def)
next
  case (Some a)
  obtain it where it: "map_of (order c) a = Some it" "(a, it) \<in> set (order c)" "ikey it = k"
    by (rule entries_element [OF assms Some])
  then show ?thesis
    using absCache_remove [OF assms it(2)] memoryInv_remove [OF assms it(2)] Some
    by (simp add: memory_Delete_def absCache_def)
qed

lemma evictBack_last:
  assumes "memoryInv c" and "order c \<noteq> []"
  shows "butlast (order c) = removeElement (fst (last (order c))) (order c)"
proof -
  obtain ys y where ys: "order c = ys @ [y]" using assms(2) by (cases "order c" rule: rev_cases) auto
  have "fst y \<notin> fst ` set ys" using memoryInvD(1) [OF assms(1)] ys by simp
  then have "removeElement (fst y) ys = ys"
    unfolding removeElement_def filter_id_conv by (metis image_eqI)
  with ys show ?thesis by (simp add: removeElement_def)
qed

lemma evictBack_refines:
  assumes "memoryInv c"
  shows "memoryInv (evictBack c) \<and>
         absCache (evictBack c) =
           (if maxLen c > 0 \<and> int (length (absCache c)) \<ge> maxLen c then butlast (absCache c) else absCache c) \<and>
         maxLen (evictBack c) = maxLen c \<and> nextElement (evictBack c) = nextElement c \<and>
         (maxLen c > 0 \<longrightarrow> int (length (order (evictBack c))) < maxLen c)"
proof (cases "maxLen c > 0 \<and> int (length (order c)) \<ge> maxLen c \<and> order c \<noteq> []")
  case True
  let ?e = "last (order c)"
  have e: "(fst ?e, snd ?e) \<in> set (order c)" using True by simp
  have "memoryInv (evictBack c)"
    using memoryInv_remove [OF assms e] evictBack_last [OF assms] True by (simp add: evictBack_def)
  then show ?thesis using True memoryInvD(5) [OF assms]
    by (simp add: evictBack_def absCache_def map_butlast)
next
  case False
  then have "evictBack c = c" by (auto simp: evictBack_def)
  moreover have "absCache c = [] \<longleftrightarrow> order c = []" "length (absCache c) = length (order c)"
    by (simp_all add: absCache_def)
  ultimately show ?thesis using False assms by auto
qed

lemma evictBack_order: "set (order (evictBack c)) \<subseteq> set (order c)"
  by (auto simp: evictBack_def dest: in_set_butlastD)

lemma memoryInv_push:
  assumes "memoryInv c" and "entries c k = None" and "maxLen c > 0 \<longrightarrow> int (length (order c)) < maxLen c"
  shows "memoryInv (c\<lparr>order := (nextElement c, \<lparr>ikey = k, ivalue = v, iexpires = e\<rparr>) # order c,
                      entries := (entries c)(k \<mapsto> nextElement c), nextElement := Suc (nextElement c)\<rparr>)"
  unfolding memoryInv_def
proof (intro conjI allI)
  have fresh: "b \<noteq> nextElement c" if "(b, i) \<in> set (order c)" for b i
    using memoryInvD(4) [OF assms(1)] that by auto
  have other: "ikey i \<noteq> k" if "(b, i) \<in> set (order c)" for b i
    using memoryInvD(3) [OF assms(1), of k b] assms(2) that by auto
  let ?c = "c\<lparr>order := (nextElement c, \<lparr>ikey = k, ivalue = v, iexpires = e\<rparr>) # order c,
              entries := (entries c)(k \<mapsto> nextElement c), nextElement := Suc (nextElement c)\<rparr>"
  show "distinct (map fst (order ?c))" using memoryInvD(1) [OF assms(1)] fresh by force
  show "distinct (map (\<lambda>e. ikey (snd e)) (order ?c))" using memoryInvD(2) [OF assms(1)] other by force
  show "\<forall>e\<in>set (order ?c). fst e < nextElement ?c" using memoryInvD(4) [OF assms(1)] by auto
  show "maxLen ?c > 0 \<longrightarrow> int (length (order ?c)) \<le> maxLen ?c" using assms(3) by auto
  fix k' b
  show "entries ?c k' = Some b \<longleftrightarrow> (\<exists>i. (b, i) \<in> set (order ?c) \<and> ikey i = k')"
    using memoryInvD(3) [OF assms(1), of k' b] fresh other by (cases "k' = k"; cases "b = nextElement c") auto
qed

definition deadline :: "instant \<Rightarrow> duration \<Rightarrow> instant option" where
  "deadline now ttl = (if ttl > 0 then Some (now + ttl) else None)"

lemma memory_Set_refines:
  assumes "memoryInv c"
  shows "memoryInv (snd (memory_Set now k v ttl c)) \<and>
         absCache (snd (memory_Set now k v ttl c)) = lruSet (maxLen c) now k v ttl (absCache c) \<and>
         maxLen (snd (memory_Set now k v ttl c)) = maxLen c \<and>
         fst (memory_Set now k v ttl c) = (if ttl < 0 then Some ErrInvalidTTL else None)"
proof (cases "ttl < 0")
  case True
  then show ?thesis using assms by (simp add: memory_Set_def lruSet_def)
next
  case False
  show ?thesis
  proof (cases "entries c k")
    case (Some a)
    obtain it where it: "map_of (order c) a = Some it" "(a, it) \<in> set (order c)" "ikey it = k"
      by (rule entries_element [OF assms Some])
    have "k \<in> fst ` set (absCache c)" using it(2,3) by (force simp: absCache_def)
    then show ?thesis
      using absCache_remove [OF assms it(2)] memoryInv_front [OF assms it(2)] it Some False
      by (simp add: memory_Set_def lruSet_def absCache_def moveToFront_def)
  next
    case None
    note absent = absCache_lookup_None(1) [OF assms None]
    note evict = evictBack_refines [OF assms]
    have "entries (evictBack c) k = None" using None by (simp add: evictBack_def)
    then have inv: "memoryInv (snd (memory_Set now k v ttl c))"
      using memoryInv_push [of "evictBack c" k v] evict None False by (simp add: memory_Set_def Let_def)
    have "k \<notin> fst ` set (absCache (evictBack c))"
      using absent evict by (auto dest: in_set_butlastD split: if_splits)
    then have "lruWithout k (absCache (evictBack c)) = absCache (evictBack c)"
      unfolding lruWithout_def filter_id_conv by (metis image_eqI)
    moreover have "absCache (snd (memory_Set now k v ttl c)) =
        (k, v, if ttl > 0 then Some (now + ttl) else None) # absCache (evictBack c)"
      using None False by (simp add: memory_Set_def absCache_def Let_def)
    ultimately show ?thesis
      using inv evict absent None False by (simp add: memory_Set_def lruSet_def Let_def)
  qed
qed

subsection \<open>Runs of operations\<close>

datatype cacheOp = CacheGet instant string | CacheSet instant string string duration | CacheDelete string

fun memoryStep :: "memoryCache \<Rightarrow> cacheOp \<Rightarrow> string option \<times> memoryCache" where
  "memoryStep c (CacheGet now k) = memory_Get now k c"
| "memoryStep c (CacheSet now k v ttl) = (None, snd (memory_Set now k v ttl c))"
| "memoryStep c (CacheDelete k) = (None, memory_Delete k c)"

fun lruStep :: "int \<Rightarrow> lru \<Rightarrow> cacheOp \<Rightarrow> string option \<times> lru" where
  "lruStep cap xs (CacheGet now k) = lruGet now k xs"
| "lruStep cap xs (CacheSet now k v ttl) = (None, lruSet cap now k v ttl xs)"
| "lruStep cap xs (CacheDelete k) = (None, lruWithout k xs)"

text \<open>The answers of the gets along a run, with the final state.\<close>

fun answers :: "('c \<Rightarrow> cacheOp \<Rightarrow> string option \<times> 'c) \<Rightarrow> 'c \<Rightarrow> cacheOp list \<Rightarrow> string option list \<times> 'c" where
  "answers step c [] = ([], c)"
| "answers step c (p # ps) =
     (let (r, c1) = step c p; (rs, c2) = answers step c1 ps in (r # rs, c2))"

lemma memoryStep_refines:
  assumes "memoryInv c"
  shows "memoryInv (snd (memoryStep c p)) \<and> maxLen (snd (memoryStep c p)) = maxLen c \<and>
         lruStep (maxLen c) (absCache c) p = (fst (memoryStep c p), absCache (snd (memoryStep c p)))"
proof (cases p)
  case (CacheGet now k)
  then show ?thesis
    using memory_Get_refines [OF assms, of now k] by (auto simp: memory_Get_def split: option.splits)
next
  case (CacheSet now k v ttl)
  then show ?thesis using memory_Set_refines [OF assms, of now k v ttl] by simp
next
  case (CacheDelete k)
  then show ?thesis
    using memory_Delete_refines [OF assms, of k] by (auto simp: memory_Delete_def split: option.splits)
qed

interpretation memory_runs: step_invariant "\<lambda>c p. snd (memoryStep c p)" memoryInv
  by unfold_locales (simp add: memoryStep_refines)

lemma answers_refines:
  assumes "memoryInv c"
  shows "answers (lruStep (maxLen c)) (absCache c) ps =
         (fst (answers memoryStep c ps), absCache (snd (answers memoryStep c ps)))"
  using assms
proof (induction ps arbitrary: c)
  case (Cons p ps)
  note step = memoryStep_refines [OF Cons.prems, of p]
  have "answers (lruStep (maxLen c)) (absCache (snd (memoryStep c p))) ps =
        (fst (answers memoryStep (snd (memoryStep c p)) ps),
         absCache (snd (answers memoryStep (snd (memoryStep c p)) ps)))"
    using Cons.IH [of "snd (memoryStep c p)"] step by simp
  then show ?case using step by (simp add: Let_def case_prod_beta)
qed simp

lemma answers_run: "snd (answers memoryStep c ps) = run_steps (\<lambda>c p. snd (memoryStep c p)) c ps"
  by (induction ps arbitrary: c) (simp_all add: Let_def case_prod_beta)

text \<open>C9: The in-process cache, a linked list and a map that point into each other, implements an
  LRU list of bounded length with deadlines: for every sequence of gets, sets and deletes from a
  fresh cache of any configured size, each get answers what the list answers and the final
  contents are the list's, most recently used first; the list and the map agree at the end, and
  a bounded cache never holds more entries than its bound.\<close>

theorem memory_cache_is_lru:
  "let c = snd (answers memoryStep (NewMemory n) ps); cap = maxLen (NewMemory n)
   in answers (lruStep cap) [] ps = (fst (answers memoryStep (NewMemory n) ps), absCache c) \<and>
      memoryInv c \<and> (0 < maxLen c \<longrightarrow> memory_len c \<le> maxLen c)"
proof -
  have "absCache (NewMemory n) = []" by (simp add: absCache_def NewMemory_def Let_def)
  moreover have "memoryInv (snd (answers memoryStep (NewMemory n) ps))"
    using memory_runs.run_keeps [OF memoryInv_New] by (simp add: answers_run)
  ultimately show ?thesis
    using answers_refines [OF memoryInv_New, of n ps] memoryInvD(5)
    by (simp add: Let_def memory_len_def)
qed

theorem memory_cache_is_lru_witness:
  "memory_len (snd (answers memoryStep (NewMemory 2)
     [CacheSet 0 ''a'' ''1'' 0, CacheSet 0 ''b'' ''2'' 0, CacheGet 1 ''a'', CacheSet 2 ''c'' ''3'' 0, CacheGet 3 ''b''])) \<le> 2"
    (is "memory_len ?c \<le> 2")
proof -
  have "maxLen ?c = 2" by code_simp
  then show ?thesis
    using memory_cache_is_lru
      [of 2 "[CacheSet 0 ''a'' ''1'' 0, CacheSet 0 ''b'' ''2'' 0, CacheGet 1 ''a'', CacheSet 2 ''c'' ''3'' 0, CacheGet 3 ''b'']"]
    unfolding Let_def by (elim conjE) (simp del: answers.simps)
qed

subsection \<open>The interface of a byte cache\<close>

text \<open>
  What a client of the port relies on: \<open>held\<close> is what a backend holds with its deadlines. A hit is
  held and not past its deadline; a get never adds anything; a successful set holds the new
  value at most, next to what was held before; a delete forgets the key. A backend may forget
  entries at any time.
\<close>

locale byte_cache =
  fixes good :: "'c \<Rightarrow> bool"
    and held :: "'c \<Rightarrow> string \<rightharpoonup> string \<times> instant option"
    and get :: "instant \<Rightarrow> string \<Rightarrow> 'c \<Rightarrow> (cacheError + string option) \<times> 'c"
    and put :: "instant \<Rightarrow> string \<Rightarrow> string \<Rightarrow> duration \<Rightarrow> 'c \<Rightarrow> cacheError option \<times> 'c"
    and del :: "string \<Rightarrow> 'c \<Rightarrow> cacheError option \<times> 'c"
  assumes good_get: "good c \<Longrightarrow> good (snd (get now k c))"
    and good_put: "good c \<Longrightarrow> good (snd (put now k v ttl c))"
    and good_del: "good c \<Longrightarrow> good (snd (del k c))"
    and get_hit: "good c \<Longrightarrow> fst (get now k c) = Inr (Some v) \<Longrightarrow>
                    \<exists>d. held c k = Some (v, d) \<and> \<not> expired now d"
    and get_held: "good c \<Longrightarrow> held (snd (get now k c)) \<subseteq>\<^sub>m held c"
    and put_held: "good c \<Longrightarrow> held (snd (put now k v ttl c)) \<subseteq>\<^sub>m
                    (if fst (put now k v ttl c) = None then (held c)(k \<mapsto> (v, deadline now ttl)) else held c)"
    and del_held: "good c \<Longrightarrow> held (snd (del k c)) \<subseteq>\<^sub>m
                    (if fst (del k c) = None then (held c)(k := None) else held c)"
begin

fun cacheRun :: "'c \<Rightarrow> cacheOp \<Rightarrow> 'c" where
  "cacheRun c (CacheGet now k) = snd (get now k c)"
| "cacheRun c (CacheSet now k v ttl) = snd (put now k v ttl c)"
| "cacheRun c (CacheDelete k) = snd (del k c)"

fun writes :: "'c \<Rightarrow> (string \<rightharpoonup> string \<times> instant option) \<Rightarrow> cacheOp list \<Rightarrow> (string \<rightharpoonup> string \<times> instant option)" where
  "writes c w [] = w"
| "writes c w (CacheGet now k # ps) = writes (cacheRun c (CacheGet now k)) w ps"
| "writes c w (CacheSet now k v ttl # ps) =
     writes (cacheRun c (CacheSet now k v ttl))
       (if fst (put now k v ttl c) = None then w(k \<mapsto> (v, deadline now ttl)) else w) ps"
| "writes c w (CacheDelete k # ps) =
     writes (cacheRun c (CacheDelete k)) (if fst (del k c) = None then w(k := None) else w) ps"

lemma held_written:
  "good c \<Longrightarrow> held c \<subseteq>\<^sub>m w \<Longrightarrow>
   good (run_steps cacheRun c ps) \<and> held (run_steps cacheRun c ps) \<subseteq>\<^sub>m writes c w ps"
proof (induction c w ps rule: writes.induct)
  case (2 c w now k ps)
  have "held (snd (get now k c)) \<subseteq>\<^sub>m w" using get_held [OF 2(2)] 2(3) by (rule map_le_trans)
  with 2 show ?case by (simp add: good_get)
next
  case (3 c w now k v ttl ps)
  have "held (snd (put now k v ttl c)) \<subseteq>\<^sub>m
        (if fst (put now k v ttl c) = None then w(k \<mapsto> (v, deadline now ttl)) else w)"
    using put_held [OF 3(2), of now k v ttl] map_le_trans [OF _ 3(3)] map_le_trans [OF _ map_le_upd [OF 3(3)]]
    by (auto split: if_splits)
  with 3 show ?case by (simp add: good_put)
next
  case (4 c w k ps)
  have "held (snd (del k c)) \<subseteq>\<^sub>m (if fst (del k c) = None then w(k := None) else w)"
    using del_held [OF 4(2), of k] map_le_trans [OF _ 4(3)] map_le_trans [OF _ map_le_upd [OF 4(3)]]
    by (auto split: if_splits)
  with 4 show ?case by (simp add: good_del)
qed simp

lemma hit_is_last_write:
  assumes "good c" and "held c \<subseteq>\<^sub>m w" and "fst (get now k (run_steps cacheRun c ps)) = Inr (Some v)"
  shows "\<exists>d. writes c w ps k = Some (v, d) \<and> \<not> expired now d"
proof -
  note held = held_written [OF assms(1,2), of ps]
  obtain d where d: "held (run_steps cacheRun c ps) k = Some (v, d)" "\<not> expired now d"
    using get_hit [OF _ assms(3)] held by blast
  then have "writes c w ps k = Some (v, d)" using held by (force simp: map_le_def)
  with d(2) show ?thesis by blast
qed

end

definition memoryHeld :: "memoryCache \<Rightarrow> string \<rightharpoonup> string \<times> instant option" where
  "memoryHeld c = map_of (absCache c)"

lemma map_of_lruWithout: "map_of (lruWithout k xs) = (map_of xs)(k := None)"
  unfolding lruWithout_def by (induction xs) auto

lemma map_of_butlast_le: "map_of (butlast xs) \<subseteq>\<^sub>m map_of xs"
  by (cases xs rule: rev_cases) (simp_all add: map_le_map_add del: map_of.simps)

lemma map_of_lruGet_le: "map_of (snd (lruGet now k xs)) \<subseteq>\<^sub>m map_of xs"
  by (auto simp: lruGet_def map_of_lruWithout map_le_def split: option.splits)

interpretation memory_port: byte_cache memoryInv memoryHeld
  "\<lambda>now k c. (Inr (fst (memory_Get now k c)), snd (memory_Get now k c))"
  memory_Set "\<lambda>k c. (None, memory_Delete k c)"
proof
  fix c :: memoryCache and now k v ttl
  assume inv: "memoryInv c"
  note get = memory_Get_refines [OF inv, of now k]
  note put = memory_Set_refines [OF inv, of now k v ttl]
  note del = memory_Delete_refines [OF inv, of k]
  show "memoryInv (snd (Inr (fst (memory_Get now k c)) :: cacheError + string option, snd (memory_Get now k c)))"
    using get by simp
  show "memoryInv (snd (memory_Set now k v ttl c))" using put by simp
  show "memoryInv (snd (None :: cacheError option, memory_Delete k c))" using del by simp
  show "\<exists>d. memoryHeld c k = Some (v, d) \<and> \<not> expired now d"
    if "fst (Inr (fst (memory_Get now k c)) :: cacheError + string option, snd (memory_Get now k c)) = Inr (Some v)"
    using that get by (auto simp: memoryHeld_def lruGet_def split: option.splits if_splits)
  show "memoryHeld (snd (Inr (fst (memory_Get now k c)) :: cacheError + string option, snd (memory_Get now k c)))
          \<subseteq>\<^sub>m memoryHeld c"
    using get map_of_lruGet_le [of now k "absCache c"] by (simp add: memoryHeld_def)
  show "memoryHeld (snd (None :: cacheError option, memory_Delete k c)) \<subseteq>\<^sub>m
          (if fst (None :: cacheError option, memory_Delete k c) = None then (memoryHeld c)(k := None) else memoryHeld c)"
    using del by (simp add: memoryHeld_def map_of_lruWithout)
  show "memoryHeld (snd (memory_Set now k v ttl c)) \<subseteq>\<^sub>m
          (if fst (memory_Set now k v ttl c) = None then (memoryHeld c)(k \<mapsto> (v, deadline now ttl)) else memoryHeld c)"
    using put map_of_butlast_le [of "absCache c"]
    by (auto simp: memoryHeld_def lruSet_def map_of_lruWithout deadline_def Let_def map_le_def)
qed

text \<open>The writes of a run on the in-process cache: what the last successful set of each key wrote,
  with its deadline, unless the key was deleted since.\<close>

fun memoryWrites :: "(string \<rightharpoonup> string \<times> instant option) \<Rightarrow> cacheOp list \<Rightarrow> (string \<rightharpoonup> string \<times> instant option)" where
  "memoryWrites w [] = w"
| "memoryWrites w (CacheGet now k # ps) = memoryWrites w ps"
| "memoryWrites w (CacheSet now k v ttl # ps) =
     memoryWrites (if ttl < 0 then w else w(k \<mapsto> (v, deadline now ttl))) ps"
| "memoryWrites w (CacheDelete k # ps) = memoryWrites (w(k := None)) ps"

lemma memory_port_run:
  "run_steps memory_port.cacheRun c ps = run_steps (\<lambda>c p. snd (memoryStep c p)) c ps"
proof (induction ps arbitrary: c)
  case (Cons p ps)
  have "memory_port.cacheRun c p = snd (memoryStep c p)" by (cases p) simp_all
  then show ?case using Cons by simp
qed simp

lemma memory_port_writes: "memoryInv c \<Longrightarrow> memory_port.writes c w ps = memoryWrites w ps"
  by (induction c w ps rule: memory_port.writes.induct)
     (simp_all add: memory_Get_refines memory_Set_refines memory_Delete_refines)

text \<open>A hit of the in-process cache is never stale and never another key's: after any sequence
  of operations on a fresh cache, a get that answers a value answers the value of the last
  successful set of that very key, not deleted since and not past its deadline.\<close>

theorem cache_hit_is_the_last_write:
  assumes "fst (memory_Get now k (snd (answers memoryStep (NewMemory n) ps))) = Some v"
  shows "\<exists>d. memoryWrites Map.empty ps k = Some (v, d) \<and> \<not> expired now d"
proof -
  have "memoryHeld (NewMemory n) \<subseteq>\<^sub>m Map.empty"
    by (simp add: memoryHeld_def absCache_def NewMemory_def Let_def)
  from memory_port.hit_is_last_write [OF memoryInv_New this, of now k ps v]
  show ?thesis using assms by (simp add: memory_port_run memory_port_writes memoryInv_New answers_run)
qed

theorem cache_hit_is_the_last_write_witness:
  "\<exists>d. memoryWrites Map.empty [CacheSet 0 ''a'' ''1'' 10, CacheSet 1 ''b'' ''2'' 0, CacheSet 2 ''a'' ''3'' 10] ''a'' = Some (''3'', d) \<and>
       \<not> expired 12 d"
  by (rule cache_hit_is_the_last_write [where n = 5]) code_simp

end
