(* ===== verification/Http_Client.thy ===== *)
theory Http_Client
  imports Resilience Memory_Cache
begin

section \<open>The outbound HTTP client: errors, policies and the resilience layers\<close>

text \<open>
  Model of \<^verbatim>\<open>src/infra/httpclient\<close>: \<^verbatim>\<open>error.go\<close>, \<^verbatim>\<open>retry_config.go\<close>, \<^verbatim>\<open>retry.go\<close>,
  \<^verbatim>\<open>breaker_config.go\<close>, \<^verbatim>\<open>breaker_middleware.go\<close>, \<^verbatim>\<open>idempotency_config.go\<close>, \<^verbatim>\<open>idempotency.go\<close>
  and the chain of \<^verbatim>\<open>middleware.go\<close>.

  A \<^verbatim>\<open>roundTripper\<close> is a function on a \<open>call\<close>, which carries what the layers share through
  pointers: the request, the observation, the breaker of the endpoint, and the world below and
  beside the client. The world's services (the clock, the random source, the wait, the dial of
  \<^verbatim>\<open>http.Client.Do\<close>, the key generator, the HTTP-date parser) are a record of functions.
\<close>

subsection \<open>Errors\<close>

text \<open>
  An error is its chain of wrappers as \<^verbatim>\<open>errors.Is\<close> and \<^verbatim>\<open>errors.As\<close> walk it. \<open>EURL\<close>, \<open>EOp\<close>,
  \<open>EDNS\<close> and \<open>ENet\<close> are \<^verbatim>\<open>*url.Error\<close>, \<^verbatim>\<open>*net.OpError\<close>, \<^verbatim>\<open>*net.DNSError\<close> and any other
  \<^verbatim>\<open>net.Error\<close>; the flag of the last two is their \<^verbatim>\<open>Timeout()\<close>.
\<close>

datatype sentinel =
  Canceled | DeadlineExceeded | ErrCircuitOpen | ErrTokenAcquire | ErrRequestBuild | ErrResponseDecode

datatype goError =
    ESentinel sentinel
  | EText string
  | EWrap goError
  | EHttp int "goError option"
  | EURL goError
  | EOp goError
  | EDNS bool
  | ENet bool
  | ECache cacheError

fun errorChain :: "goError \<Rightarrow> goError list" where
  "errorChain (EWrap e) = EWrap e # errorChain e"
| "errorChain (EHttp st None) = [EHttp st None]"
| "errorChain (EHttp st (Some e)) = EHttp st (Some e) # errorChain e"
| "errorChain (EURL e) = EURL e # errorChain e"
| "errorChain (EOp e) = EOp e # errorChain e"
| "errorChain e = [e]"

definition errorsIs :: "goError \<Rightarrow> sentinel \<Rightarrow> bool" where
  "errorsIs e s \<longleftrightarrow> ESentinel s \<in> set (errorChain e)"

text \<open>The \<^verbatim>\<open>Timeout()\<close> method, for the errors that have one; these are the errors that implement
  \<^verbatim>\<open>net.Error\<close>. A \<^verbatim>\<open>*url.Error\<close> and a \<^verbatim>\<open>*net.OpError\<close> ask the error they wrap.\<close>

fun timeoutMethod :: "goError \<Rightarrow> bool option" where
  "timeoutMethod (ESentinel DeadlineExceeded) = Some True"
| "timeoutMethod (EURL e) = Some (timeoutMethod e = Some True)"
| "timeoutMethod (EOp e) = Some (timeoutMethod e = Some True)"
| "timeoutMethod (EDNS b) = Some b"
| "timeoutMethod (ENet b) = Some b"
| "timeoutMethod e = None"

text \<open>\<^verbatim>\<open>errors.As\<close>: the first error of the chain that a test accepts.\<close>

definition errorsAs :: "(goError \<Rightarrow> bool) \<Rightarrow> goError \<Rightarrow> goError option" where
  "errorsAs P e = List.find P (errorChain e)"

fun isURLError :: "goError \<Rightarrow> bool" where
  "isURLError (EURL e) = True"
| "isURLError e = False"

fun isOpError :: "goError \<Rightarrow> bool" where
  "isOpError (EOp e) = True"
| "isOpError e = False"

fun isDNS :: "goError \<Rightarrow> bool" where
  "isDNS (EDNS b) = True"
| "isDNS e = False"

fun isHttpError :: "goError \<Rightarrow> bool" where
  "isHttpError (EHttp st e) = True"
| "isHttpError e = False"

definition isNetError :: "goError \<Rightarrow> bool" where
  "isNetError e \<longleftrightarrow> timeoutMethod e \<noteq> None"

definition isTimeout :: "goError \<Rightarrow> bool" where
  "isTimeout err \<longleftrightarrow>
     (case errorsAs isURLError err of Some ue \<Rightarrow> timeoutMethod ue = Some True | None \<Rightarrow> False) \<or>
     (case errorsAs isNetError err of Some ne \<Rightarrow> timeoutMethod ne = Some True | None \<Rightarrow> False)"

definition isDNSError :: "goError \<Rightarrow> bool" where
  "isDNSError err \<longleftrightarrow> errorsAs isDNS err \<noteq> None"

definition isNetworkError :: "goError option \<Rightarrow> bool" where
  "isNetworkError oe \<longleftrightarrow>
     (case oe of
        None \<Rightarrow> False
      | Some err \<Rightarrow>
          if isDNSError err then True
          else if errorsAs isOpError err \<noteq> None then True
          else errorsAs isNetError err \<noteq> None)"

definition causeIsRetriable :: "goError option \<Rightarrow> bool" where
  "causeIsRetriable oe \<longleftrightarrow>
     (case oe of
        None \<Rightarrow> False
      | Some err \<Rightarrow>
          if errorsIs err DeadlineExceeded then True
          else
            let inner = (case errorsAs isURLError err of
                           Some (EURL e) \<Rightarrow> if timeoutMethod (EURL e) = Some True then None else Some e
                         | _ \<Rightarrow> Some err)
            in case inner of
                 None \<Rightarrow> True
               | Some e \<Rightarrow>
                   (case errorsAs isNetError e of Some ne \<Rightarrow> timeoutMethod ne = Some True | None \<Rightarrow> False) \<or>
                   errorsAs isDNS e \<noteq> None \<or> errorsAs isOpError e \<noteq> None)"

definition IsRetriable :: "goError option \<Rightarrow> bool" where
  "IsRetriable oe \<longleftrightarrow>
     (case oe of
        None \<Rightarrow> False
      | Some err \<Rightarrow>
          if errorsIs err Canceled then False
          else case errorsAs isHttpError err of
            Some (EHttp st c) \<Rightarrow>
              if st \<in> {502, 503, 504} then True
              else if st = 0 \<and> c \<noteq> None then causeIsRetriable c
              else False
          | _ \<Rightarrow> causeIsRetriable (Some err))"

definition IsCircuitOpen :: "goError \<Rightarrow> bool" where
  "IsCircuitOpen err \<longleftrightarrow> errorsIs err ErrCircuitOpen"

subsection \<open>Retry configuration\<close>

record RetryConfig =
  rcMaxAttempts :: int
  rcBackoff :: string
  rcInitialDelay :: duration
  rcMaxDelay :: duration
  rcRetryOn :: "string list option"
  rcRespectRetryAfter :: "bool option"

record retryPolicy =
  maxAttempts :: int
  backoff :: BackoffStrategy
  initialDelay :: duration
  maxDelay :: duration
  retryOnStatus :: "int set"
  retryOnNetwork :: bool
  retryOnTimeout :: bool
  retryOnDNS :: bool
  respectRetryAfter :: bool

text \<open>The Go zero value of the policy with the attempt count that is given.\<close>

definition singleAttempt :: "int \<Rightarrow> retryPolicy" where
  "singleAttempt n =
     \<lparr>maxAttempts = n, backoff = BackoffOther 0, initialDelay = 0, maxDelay = 0, retryOnStatus = {},
      retryOnNetwork = False, retryOnTimeout = False, retryOnDNS = False, respectRetryAfter = False\<rparr>"

definition disabled :: "retryPolicy \<Rightarrow> bool" where
  "disabled p \<longleftrightarrow> maxAttempts p \<le> 1"

definition methodAllowsRetry :: "string \<Rightarrow> bool" where
  "methodAllowsRetry m \<longleftrightarrow> ToUpper m \<in> {''GET'', ''HEAD'', ''PUT'', ''DELETE''}"

definition parseBackoffName :: "string \<Rightarrow> BackoffStrategy" where
  "parseBackoffName name =
     (let v = ToLower (TrimSpace name) in
      if v = ''constant'' then BackoffConstant
      else if v = ''linear'' then BackoffLinear
      else if v = ''exponential'' then BackoffExponential
      else BackoffExponentialJitter)"

definition applyRetryOnEntry :: "string \<Rightarrow> retryPolicy \<Rightarrow> retryPolicy" where
  "applyRetryOnEntry entry p =
     (let v = ToLower (TrimSpace entry) in
      if v = ''network'' then p\<lparr>retryOnNetwork := True\<rparr>
      else if v = ''timeout'' then p\<lparr>retryOnTimeout := True\<rparr>
      else if v = ''dns'' then p\<lparr>retryOnDNS := True\<rparr>
      else (case Atoi v of None \<Rightarrow> p | Some code \<Rightarrow> p\<lparr>retryOnStatus := insert code (retryOnStatus p)\<rparr>))"

definition frameworkRetryRetryOnDefault :: "string list" where
  "frameworkRetryRetryOnDefault = [''502'', ''503'', ''504'', ''network'', ''timeout'']"

definition policyFromConfig :: "RetryConfig \<Rightarrow> retryPolicy" where
  "policyFromConfig cfg =
     (let retryOn = (case rcRetryOn cfg of
                       None \<Rightarrow> frameworkRetryRetryOnDefault
                     | Some xs \<Rightarrow> if xs = [] then frameworkRetryRetryOnDefault else xs)
      in fold applyRetryOnEntry retryOn
           \<lparr>maxAttempts = (if rcMaxAttempts cfg = 0 then 3 else rcMaxAttempts cfg),
            backoff = parseBackoffName (rcBackoff cfg),
            initialDelay = (if rcInitialDelay cfg = 0 then 100 * millisecond else rcInitialDelay cfg),
            maxDelay = (if rcMaxDelay cfg = 0 then 5 * second else rcMaxDelay cfg),
            retryOnStatus = {}, retryOnNetwork = False, retryOnTimeout = False, retryOnDNS = False,
            respectRetryAfter = (case rcRespectRetryAfter cfg of None \<Rightarrow> True | Some b \<Rightarrow> b)\<rparr>)"

definition mergeRetryConfig :: "RetryConfig option \<Rightarrow> RetryConfig option \<Rightarrow> RetryConfig option" where
  "mergeRetryConfig defaults endpoint =
     (case endpoint of
        None \<Rightarrow> defaults
      | Some e \<Rightarrow>
          let d = (case defaults of
                     None \<Rightarrow> \<lparr>rcMaxAttempts = 0, rcBackoff = [], rcInitialDelay = 0, rcMaxDelay = 0,
                              rcRetryOn = None, rcRespectRetryAfter = None\<rparr>
                   | Some d \<Rightarrow> d)
          in Some
            \<lparr>rcMaxAttempts = (if rcMaxAttempts e \<noteq> 0 then rcMaxAttempts e else rcMaxAttempts d),
             rcBackoff = (if rcBackoff e \<noteq> [] then rcBackoff e else rcBackoff d),
             rcInitialDelay = (if rcInitialDelay e \<noteq> 0 then rcInitialDelay e else rcInitialDelay d),
             rcMaxDelay = (if rcMaxDelay e \<noteq> 0 then rcMaxDelay e else rcMaxDelay d),
             rcRetryOn = (if rcRetryOn e \<noteq> None then rcRetryOn e else rcRetryOn d),
             rcRespectRetryAfter =
               (if rcRespectRetryAfter e \<noteq> None then rcRespectRetryAfter e else rcRespectRetryAfter d)\<rparr>)"

text \<open>The gate on methods that are not idempotent by themselves.\<close>

definition gateMethod :: "string \<Rightarrow> bool \<Rightarrow> retryPolicy \<Rightarrow> retryPolicy" where
  "gateMethod m hasIdempotency p =
     (if \<not> methodAllowsRetry m \<and> \<not> hasIdempotency then p\<lparr>maxAttempts := 1\<rparr> else p)"

definition resolveRetryPolicy ::
  "string \<Rightarrow> RetryConfig option \<Rightarrow> RetryConfig option \<Rightarrow> bool \<Rightarrow> retryPolicy" where
  "resolveRetryPolicy m defaults endpoint hasIdempotency =
     (case mergeRetryConfig defaults endpoint of
        None \<Rightarrow> singleAttempt 1
      | Some merged \<Rightarrow> gateMethod m hasIdempotency (policyFromConfig merged))"

text \<open>\<^verbatim>\<open>RetryOverride\<close> has the fields of \<^verbatim>\<open>RetryConfig\<close>, which the function copies one by one.\<close>

definition resolveRetryOverride :: "string \<Rightarrow> RetryConfig \<Rightarrow> bool \<Rightarrow> retryPolicy" where
  "resolveRetryOverride m override hasIdempotency =
     gateMethod m hasIdempotency (policyFromConfig override)"

definition retryOnEntryErrors :: "string \<Rightarrow> string list" where
  "retryOnEntryErrors entry =
     (let v = ToLower (TrimSpace entry) in
      if v \<in> {''network'', ''timeout'', ''dns''} then []
      else case Atoi v of
        None \<Rightarrow> [''.retryOn: '' @ quoted entry @ '' is not a status code or sentinel (network|timeout|dns)'']
      | Some code \<Rightarrow>
          if code < 100 \<or> code > 599 then [''.retryOn: status '' @ Itoa code @ '' is out of range 100..599'']
          else [])"

definition validateRetryConfig :: "string \<Rightarrow> RetryConfig option \<Rightarrow> string list" where
  "validateRetryConfig prefix oc =
     (case oc of
        None \<Rightarrow> []
      | Some cfg \<Rightarrow>
          map ((@) prefix)
            ((if rcMaxAttempts cfg < 0 then [''.maxAttempts: must be non-negative''] else []) @
             (if rcInitialDelay cfg < 0 then [''.initialDelay: must be non-negative''] else []) @
             (if rcMaxDelay cfg < 0 then [''.maxDelay: must be non-negative''] else []) @
             (if rcBackoff cfg \<noteq> [] \<and>
                 ToLower (TrimSpace (rcBackoff cfg)) \<notin> {''constant'', ''linear'', ''exponential'', ''exponential-jitter''}
              then [''.backoff: '' @ quoted (rcBackoff cfg) @ '' is not one of constant|linear|exponential|exponential-jitter'']
              else []) @
             concat (map retryOnEntryErrors (case rcRetryOn cfg of None \<Rightarrow> [] | Some xs \<Rightarrow> xs))))"

end
