(* ===== verification/Http_Layers.thy ===== *)
theory Http_Layers
  imports Http_Client
begin

section \<open>The middleware chain of the HTTP client\<close>

text \<open>
  Model of the layers of \<^verbatim>\<open>src/infra/httpclient\<close>: \<^verbatim>\<open>breaker_config.go\<close>,
  \<^verbatim>\<open>breaker_middleware.go\<close>, \<^verbatim>\<open>idempotency_config.go\<close>, \<^verbatim>\<open>idempotency.go\<close>, \<^verbatim>\<open>retry.go\<close>,
  \<^verbatim>\<open>middleware.go\<close> and of the resolution of an endpoint's policies in \<^verbatim>\<open>service_client.go\<close>,
  \<^verbatim>\<open>options.go\<close> and \<^verbatim>\<open>call.go\<close>.

  A provider of credentials (\<^verbatim>\<open>auth.AuthProvider\<close>) is an argument: how it applies itself to a
  request and, for a revocable one, how it drops its cached credential. The signing and the cache
  layers are in the next theories; the tracing layer is an argument of the chain.

  \<^verbatim>\<open>http.Client.Do\<close> returns a response or an error; a layer that sees neither hands the pair on.
\<close>

subsection \<open>Circuit-breaker configuration\<close>

record CircuitBreakerConfig =
  cbEnabled :: "bool option"
  cbFailureThreshold :: int
  cbSuccessThreshold :: int
  cbOpenFor :: duration

definition disabledBreakerPolicy :: BreakerPolicy where
  "disabledBreakerPolicy = \<lparr>Enabled = False, FailureThreshold = 0, SuccessThreshold = 0, OpenFor = 0\<rparr>"

definition resolveBreakerConfig :: "CircuitBreakerConfig option \<Rightarrow> BreakerPolicy" where
  "resolveBreakerConfig oc =
     (case oc of
        None \<Rightarrow> disabledBreakerPolicy
      | Some cfg \<Rightarrow>
          if \<not> (case cbEnabled cfg of None \<Rightarrow> True | Some b \<Rightarrow> b) then disabledBreakerPolicy
          else \<lparr>Enabled = True,
                FailureThreshold = (if cbFailureThreshold cfg = 0 then 5 else cbFailureThreshold cfg),
                SuccessThreshold = (if cbSuccessThreshold cfg = 0 then 2 else cbSuccessThreshold cfg),
                OpenFor = (if cbOpenFor cfg = 0 then 30 * second else cbOpenFor cfg)\<rparr>)"

definition validateBreakerConfig :: "string \<Rightarrow> CircuitBreakerConfig option \<Rightarrow> string list" where
  "validateBreakerConfig prefix oc =
     (case oc of
        None \<Rightarrow> []
      | Some cfg \<Rightarrow>
          (if cbFailureThreshold cfg < 0 then [prefix @ ''.failureThreshold: must be non-negative''] else []) @
          (if cbSuccessThreshold cfg < 0 then [prefix @ ''.successThreshold: must be non-negative''] else []) @
          (if cbOpenFor cfg < 0 then [prefix @ ''.openFor: must be non-negative''] else []))"

subsection \<open>Idempotency configuration\<close>

datatype idempotencySource = idempotencyDisabled | idempotencyCtx | idempotencyExplicit

record IdempotencyConfig =
  icHeader :: string
  icSource :: string

record idempotencyPolicy =
  ipEnabled :: bool
  ipHeader :: string
  ipSource :: idempotencySource

definition resolveIdempotencyPolicy :: "IdempotencyConfig option \<Rightarrow> idempotencyPolicy" where
  "resolveIdempotencyPolicy oc =
     (case oc of
        None \<Rightarrow> \<lparr>ipEnabled = False, ipHeader = [], ipSource = idempotencyDisabled\<rparr>
      | Some cfg \<Rightarrow>
          \<lparr>ipEnabled = True, ipHeader = icHeader cfg,
           ipSource = (if ToLower (TrimSpace (icSource cfg)) = ''explicit'' then idempotencyExplicit
                       else idempotencyCtx)\<rparr>)"

definition validateIdempotencyConfig :: "string \<Rightarrow> IdempotencyConfig option \<Rightarrow> string list" where
  "validateIdempotencyConfig prefix oc =
     (case oc of
        None \<Rightarrow> []
      | Some cfg \<Rightarrow>
          (if TrimSpace (icHeader cfg) = [] then [prefix @ ''.header: required''] else []) @
          (if icSource cfg \<noteq> [] \<and> ToLower (TrimSpace (icSource cfg)) \<notin> {''ctx'', ''explicit''}
           then [prefix @ ''.source: '' @ quoted (icSource cfg) @ '' is not one of ctx|explicit''] else []))"

subsection \<open>Calls\<close>

record httpRequest =
  rqMethod :: string
  rqPath :: string
  rqQuery :: "(string \<times> string list) list"
  rqHeader :: httpHeader
  rqBody :: "string option"
  rqContentLength :: int

record httpResponse =
  StatusCode :: int
  respHeader :: httpHeader
  respBody :: string
  respClosed :: bool

record observation =
  obsAttempt :: int
  obsRequestBody :: string
  obsRequestBytes :: int
  obsStreamingRequest :: bool
  obsStreamingResponse :: bool
  obsIdempotencyInput :: string
  obsIdempotencyKey :: string
  obsNoCache :: bool
  obsCacheKey :: string
  obsCacheStatus :: string
  obsBreakerState :: string
  obsThreadID :: string
  obsAuthProvider :: string
  obsResponseBody :: string
  obsStatus :: int
  obsErr :: "goError option"

type_synonym outcome = "httpResponse option \<times> goError option"

record 'w call =
  creq :: httpRequest
  cobs :: observation
  cbreaker :: "Breaker option"
  cworld :: 'w

record 'w services =
  wNow :: "'w \<Rightarrow> instant"
  wSleep :: "duration \<Rightarrow> 'w \<Rightarrow> bool \<times> 'w"
  wInt63n :: "'w \<Rightarrow> int \<Rightarrow> int"
  wDo :: "httpRequest \<Rightarrow> 'w \<Rightarrow> outcome \<times> httpRequest \<times> 'w"
  wNewKey :: "'w \<Rightarrow> (goError + string) \<times> 'w"
  wParseTime :: "string \<Rightarrow> instant option"

type_synonym 'w roundTripper = "'w call \<Rightarrow> outcome \<times> 'w call"
type_synonym 'w layer = "'w roundTripper \<Rightarrow> 'w roundTripper"

definition failWith :: "goError \<Rightarrow> 'w roundTripper" where
  "failWith e c = ((None, Some e), c)"

fun invokeAt :: "'w layer list \<Rightarrow> 'w roundTripper" where
  "invokeAt [] = failWith (EText ''httpclient: chain reached end without terminal layer'')"
| "invokeAt (l # ls) = l (invokeAt ls)"

definition dispatch :: "'w layer list \<Rightarrow> 'w roundTripper" where
  "dispatch ls =
     (if ls = [] then failWith (EText ''httpclient: empty middleware chain'') else invokeAt ls)"

text \<open>Records on the observation and on the request, which the layers share by pointer.\<close>

definition onObs :: "(observation \<Rightarrow> observation) \<Rightarrow> 'w call \<Rightarrow> 'w call" where
  "onObs f c = c\<lparr>cobs := f (cobs c)\<rparr>"

definition onReq :: "(httpRequest \<Rightarrow> httpRequest) \<Rightarrow> 'w call \<Rightarrow> 'w call" where
  "onReq f c = c\<lparr>creq := f (creq c)\<rparr>"

lemma on_simps [simp]:
  "cobs (onObs f c) = f (cobs c)" "creq (onObs f c) = creq c" "cbreaker (onObs f c) = cbreaker c"
  "cworld (onObs f c) = cworld c"
  "creq (onReq g c) = g (creq c)" "cobs (onReq g c) = cobs c" "cbreaker (onReq g c) = cbreaker c"
  "cworld (onReq g c) = cworld c"
  by (simp_all add: onObs_def onReq_def)

subsection \<open>Correlation, logging, transport\<close>

text \<open>The correlation identifier of the context is an argument, empty when there is none.\<close>

definition setIfAbsent :: "string \<Rightarrow> string \<Rightarrow> httpRequest \<Rightarrow> httpRequest" where
  "setIfAbsent name v r =
     (if name \<noteq> [] \<and> headerGet (rqHeader r) name = [] then r\<lparr>rqHeader := headerSet (rqHeader r) name v\<rparr> else r)"

definition correlationMiddleware :: "string \<Rightarrow> string \<Rightarrow> string \<Rightarrow> 'w layer" where
  "correlationMiddleware threadHeader requestHeader cid nxt c =
     (let c1 = onObs (\<lambda>ob. ob\<lparr>obsThreadID := cid\<rparr>) c;
          c2 = (if cid \<noteq> [] then onReq (setIfAbsent requestHeader cid) (onReq (setIfAbsent threadHeader cid) c1)
                else c1)
      in nxt c2)"

definition captureRequestObservation :: "'w call \<Rightarrow> 'w call" where
  "captureRequestObservation c =
     (case rqBody (creq c) of
        None \<Rightarrow> c
      | Some body \<Rightarrow>
          let c1 = (if rqContentLength (creq c) > 0
                    then onObs (\<lambda>ob. ob\<lparr>obsRequestBytes := rqContentLength (creq c)\<rparr>) c else c)
          in if obsStreamingRequest (cobs c1) then c1
             else onObs (\<lambda>ob. ob\<lparr>obsRequestBytes := (if obsRequestBytes ob = 0 then int (length body) else obsRequestBytes ob),
                              obsRequestBody := body\<rparr>) c1)"

definition loggingMiddleware :: "'w layer" where
  "loggingMiddleware nxt c =
     (case nxt (captureRequestObservation c) of
        ((resp, Some err), c1) \<Rightarrow> ((None, Some err), onObs (\<lambda>ob. ob\<lparr>obsErr := Some err\<rparr>) c1)
      | ((None, None), c1) \<Rightarrow> ((None, None), c1)
      | ((Some resp, None), c1) \<Rightarrow>
          let c2 = onObs (\<lambda>ob. ob\<lparr>obsStatus := StatusCode resp\<rparr>) c1 in
          if obsStreamingResponse (cobs c2) then ((Some resp, None), c2)
          else if respClosed resp
               then ((None, Some (EText ''http: read on closed response body'')),
                     onObs (\<lambda>ob. ob\<lparr>obsErr := Some (EText ''http: read on closed response body'')\<rparr>) c2)
          else ((Some resp, None), onObs (\<lambda>ob. ob\<lparr>obsResponseBody := respBody resp\<rparr>) c2))"

definition transportMiddleware :: "'w services \<Rightarrow> 'w layer" where
  "transportMiddleware W nxt c =
     (case wDo W (creq c) (cworld c) of (res, rq, w) \<Rightarrow> (res, c\<lparr>creq := rq, cworld := w\<rparr>))"

subsection \<open>Idempotency, breaker\<close>

definition idempotencyMiddleware :: "'w services \<Rightarrow> idempotencyPolicy \<Rightarrow> 'w layer" where
  "idempotencyMiddleware W p nxt c =
     (if \<not> ipEnabled p then nxt c
      else
        let go = (\<lambda>key c. nxt (onObs (\<lambda>ob. ob\<lparr>obsIdempotencyKey := key\<rparr>)
                               (onReq (\<lambda>r. r\<lparr>rqHeader := headerSet (rqHeader r) (ipHeader p) key\<rparr>) c)))
        in if obsIdempotencyInput (cobs c) \<noteq> [] then go (obsIdempotencyInput (cobs c)) c
           else if ipSource p = idempotencyExplicit
                then ((None, Some (EHttp 0 (Some (EText
                       (''httpclient: '' @ ipHeader p @ '' requires CallConfig.IdempotencyKey (source=explicit)''))))), c)
           else case wNewKey W (cworld c) of
                  (Inl e, w) \<Rightarrow> ((None, Some (EHttp 0 (Some (EWrap e)))), c\<lparr>cworld := w\<rparr>)
                | (Inr key, w) \<Rightarrow> go key (c\<lparr>cworld := w\<rparr>))"

definition breakerMiddleware :: "'w services \<Rightarrow> 'w layer" where
  "breakerMiddleware W nxt c =
     (case cbreaker c of
        None \<Rightarrow> nxt (onObs (\<lambda>ob. ob\<lparr>obsBreakerState := ''closed''\<rparr>) c)
      | Some b \<Rightarrow>
          if \<not> Enabled (bpolicy b) then nxt (onObs (\<lambda>ob. ob\<lparr>obsBreakerState := ''closed''\<rparr>) c)
          else
            (case Allow (wNow W (cworld c)) (cbreaker c) of
               ((admitted, lab), b1) \<Rightarrow>
                 let c1 = onObs (\<lambda>ob. ob\<lparr>obsBreakerState := lab\<rparr>) (c\<lparr>cbreaker := b1\<rparr>) in
                 if \<not> admitted then ((None, Some (EHttp 0 (Some (ESentinel ErrCircuitOpen)))), c1)
                 else
                   (case nxt c1 of
                      ((resp, err), c2) \<Rightarrow>
                        let failed = (err \<noteq> None \<or> (case resp of None \<Rightarrow> False | Some r \<Rightarrow> StatusCode r \<ge> 500));
                            b2 = (if failed then RecordFailure (wNow W (cworld c2)) (cbreaker c2)
                                  else RecordSuccess (cbreaker c2))
                        in ((resp, err), onObs (\<lambda>ob. ob\<lparr>obsBreakerState := SnapshotState b2\<rparr>) (c2\<lparr>cbreaker := b2\<rparr>)))))"

subsection \<open>Authentication\<close>

record 'w authProvider =
  apName :: string
  apApply :: "httpRequest \<Rightarrow> 'w \<Rightarrow> goError option \<times> httpRequest \<times> 'w"
  apInvalidate :: "('w \<Rightarrow> 'w) option"

definition drainResponse :: "httpResponse \<Rightarrow> httpResponse" where
  "drainResponse r = r\<lparr>respBody := [], respClosed := True\<rparr>"

text \<open>One application of the provider, then the rest of the chain; a provider that fails ends the
  call with the sentinel that the retry loop does not retry.\<close>

definition applyProvider :: "'w authProvider \<Rightarrow> 'w layer" where
  "applyProvider ap nxt c =
     (case apApply ap (creq c) (cworld c) of
        (Some e, rq, w) \<Rightarrow>
          ((None, Some (EHttp 0 (Some (EWrap (ESentinel ErrTokenAcquire))))), c\<lparr>creq := rq, cworld := w\<rparr>)
      | (None, rq, w) \<Rightarrow> nxt (c\<lparr>creq := rq, cworld := w\<rparr>))"

definition authMiddleware :: "'w authProvider option \<Rightarrow> bool \<Rightarrow> 'w layer" where
  "authMiddleware oap revocationOnUnauthorized nxt c =
     (case oap of
        None \<Rightarrow> nxt c
      | Some ap \<Rightarrow>
          (case applyProvider ap nxt (onObs (\<lambda>ob. ob\<lparr>obsAuthProvider := apName ap\<rparr>) c) of
             ((Some resp, None), c1) \<Rightarrow>
               if StatusCode resp \<noteq> 401 then ((Some resp, None), c1)
               else (case apInvalidate ap of
                 None \<Rightarrow> ((Some resp, None), c1)
               | Some invalidate \<Rightarrow>
                   if \<not> revocationOnUnauthorized then ((Some resp, None), c1)
                   else applyProvider ap nxt (c1\<lparr>cworld := invalidate (cworld c1)\<rparr>))
           | (res, c1) \<Rightarrow> (res, c1)))"

subsection \<open>Retry\<close>

definition shouldRetry :: "outcome \<Rightarrow> retryPolicy \<Rightarrow> bool" where
  "shouldRetry res p \<longleftrightarrow>
     (case res of
        (_, Some err) \<Rightarrow>
          if errorsIs err Canceled then False
          else if errorsIs err ErrCircuitOpen then False
          else if errorsIs err ErrTokenAcquire then False
          else if retryOnTimeout p \<and> (errorsIs err DeadlineExceeded \<or> isTimeout err) then True
          else if retryOnDNS p \<and> isDNSError err then True
          else if retryOnNetwork p \<and> isNetworkError (Some err) then True
          else False
      | (None, None) \<Rightarrow> False
      | (Some resp, None) \<Rightarrow> StatusCode resp \<in> retryOnStatus p)"

definition parseRetryAfter :: "(string \<Rightarrow> instant option) \<Rightarrow> instant \<Rightarrow> string \<Rightarrow> duration option" where
  "parseRetryAfter parseTime now v =
     (if v = [] then None
      else case Atoi v of
        Some n \<Rightarrow> if n < 0 then None else Some (wrap64 (n * second))
      | None \<Rightarrow>
          (case parseTime v of
             None \<Rightarrow> None
           | Some t \<Rightarrow> let d = timeSub t now in if d < 0 then None else Some d))"

definition computeBackoff :: "(int \<Rightarrow> int) \<Rightarrow> retryPolicy \<Rightarrow> int \<Rightarrow> duration" where
  "computeBackoff int63n p attempt =
     Backoff int63n \<lparr>Strategy = backoff p, InitialDelay = initialDelay p, MaxDelay = maxDelay p\<rparr> attempt"

definition computeWait :: "'w services \<Rightarrow> 'w \<Rightarrow> retryPolicy \<Rightarrow> int \<Rightarrow> httpResponse option \<Rightarrow> duration" where
  "computeWait W w p attempt resp =
     (case (if respectRetryAfter p
            then (case resp of
                    None \<Rightarrow> None
                  | Some r \<Rightarrow> parseRetryAfter (wParseTime W) (wNow W w) (headerGet (respHeader r) ''Retry-After''))
            else None) of
        Some d \<Rightarrow> if d > maxDelay p then maxDelay p else d
      | None \<Rightarrow> computeBackoff (wInt63n W w) p attempt)"

definition replayBody :: "int \<Rightarrow> 'w call \<Rightarrow> 'w call" where
  "replayBody attempt c =
     (let c1 = onObs (\<lambda>ob. ob\<lparr>obsAttempt := attempt\<rparr>) c in
      if attempt > 1 \<and> obsRequestBody (cobs c) \<noteq> []
      then onReq (\<lambda>r. r\<lparr>rqBody := Some (obsRequestBody (cobs c)),
                        rqContentLength := int (length (obsRequestBody (cobs c)))\<rparr>) c1
      else c1)"

function retryLoop :: "'w services \<Rightarrow> retryPolicy \<Rightarrow> 'w roundTripper \<Rightarrow> int \<Rightarrow> 'w roundTripper" where
  "retryLoop W p nxt attempt c =
     (if attempt > maxAttempts p then ((None, None), c)
      else
        let ((resp, err), c1) = nxt (replayBody attempt c) in
        if \<not> shouldRetry (resp, err) p then ((resp, err), c1)
        else if attempt = maxAttempts p then ((resp, err), c1)
        else
          let resp1 = map_option drainResponse resp;
              (slept, w) = wSleep W (computeWait W (cworld c1) p attempt resp1) (cworld c1);
              c2 = c1\<lparr>cworld := w\<rparr>
          in if \<not> slept then ((resp1, err), c2)
             else retryLoop W p nxt (attempt + 1) c2)"
  by pat_completeness auto
termination
  by (relation "measure (\<lambda>(W, p, nxt, attempt, c). nat (maxAttempts p + 1 - attempt))") auto

declare retryLoop.simps [simp del]

definition retryMiddleware :: "'w services \<Rightarrow> retryPolicy \<Rightarrow> 'w layer" where
  "retryMiddleware W p nxt c =
     (if obsStreamingRequest (cobs c) \<or> disabled p
      then nxt (onObs (\<lambda>ob. ob\<lparr>obsAttempt := 1\<rparr>) c)
      else retryLoop W p nxt 1 c)"

end
