(* ===== verification/Http_Cache.thy ===== *)
theory Http_Cache
  imports Http_Layers "HOL-Library.List_Lexorder" "HOL-Library.Char_ord"
begin

section \<open>The response cache of the HTTP client\<close>

text \<open>
  Model of \<^verbatim>\<open>src/infra/httpclient/cache_config.go\<close> and \<^verbatim>\<open>cache_middleware.go\<close>.

  The backing store is reached through its \<^verbatim>\<open>Get\<close> and \<^verbatim>\<open>Set\<close> (the interface of the theory of the
  byte cache), as functions on the world; a nil store is \<open>None\<close>. The JSON codec of a stored entry
  and SHA-256 in hexadecimal are arguments. The query of a URL is the parsed \<^verbatim>\<open>url.Values\<close>, a
  list of keys with their values; strings are ordered bytewise, as \<^verbatim>\<open>sort.Strings\<close> does.
\<close>

subsection \<open>Configuration\<close>

record CacheDefaults =
  cdEnabled :: "bool option"
  cdDefaultTTL :: duration
  cdHonorCacheControl :: "bool option"

record EndpointCacheConfig =
  ecTTL :: duration
  ecVaryOn :: "string list"

record cachePolicy =
  cpEnabled :: bool
  cpTTL :: duration
  cpVaryHeaders :: "string list"
  cpVaryQueries :: "string list"
  cpHonorCacheControl :: bool

definition noCachePolicy :: cachePolicy where
  "noCachePolicy = \<lparr>cpEnabled = False, cpTTL = 0, cpVaryHeaders = [], cpVaryQueries = [], cpHonorCacheControl = False\<rparr>"

text \<open>The pattern \<^verbatim>\<open>^(header|query):([A-Za-z][A-Za-z0-9_-]*)$\<close>: the kind and the name.\<close>

definition varyName :: "string \<Rightarrow> bool" where
  "varyName s \<longleftrightarrow>
     (case s of
        [] \<Rightarrow> False
      | c # cs \<Rightarrow> (isUpperRune c \<or> isLowerRune c) \<and>
          list_all (\<lambda>d. isUpperRune d \<or> isLowerRune d \<or> isDigit d \<or> d = CHR ''_'' \<or> d = CHR ''-'') cs)"

definition varyOnEntry :: "string \<Rightarrow> (string \<times> string) option" where
  "varyOnEntry v =
     (if HasPrefix v ''header:'' \<and> varyName (drop 7 v) then Some (''header'', drop 7 v)
      else if HasPrefix v ''query:'' \<and> varyName (drop 6 v) then Some (''query'', drop 6 v)
      else None)"

definition varyNames :: "string \<Rightarrow> string list \<Rightarrow> string list" where
  "varyNames kind raws =
     List.map_filter (\<lambda>raw. case varyOnEntry (TrimSpace raw) of
         Some (k, name) \<Rightarrow> if k = kind then Some name else None
       | None \<Rightarrow> None) raws"

definition resolveCachePolicy :: "CacheDefaults option \<Rightarrow> EndpointCacheConfig option \<Rightarrow> cachePolicy" where
  "resolveCachePolicy defaults endpoint =
     (case endpoint of
        None \<Rightarrow> noCachePolicy
      | Some ep \<Rightarrow>
          if \<not> (case defaults of None \<Rightarrow> True | Some d \<Rightarrow> (case cdEnabled d of None \<Rightarrow> True | Some b \<Rightarrow> b))
          then noCachePolicy
          else
            let ttl0 = ecTTL ep;
                ttl1 = (if ttl0 = 0 then (case defaults of None \<Rightarrow> 0 | Some d \<Rightarrow> cdDefaultTTL d) else ttl0);
                ttl2 = (if ttl1 = 0 then 300 * second else ttl1)
            in \<lparr>cpEnabled = True, cpTTL = ttl2,
                cpVaryHeaders = varyNames ''header'' (ecVaryOn ep),
                cpVaryQueries = varyNames ''query'' (ecVaryOn ep),
                cpHonorCacheControl =
                  (case defaults of None \<Rightarrow> True | Some d \<Rightarrow> (case cdHonorCacheControl d of None \<Rightarrow> True | Some b \<Rightarrow> b))\<rparr>)"

definition validateCacheDefaults :: "string \<Rightarrow> CacheDefaults option \<Rightarrow> string list" where
  "validateCacheDefaults prefix oc =
     (case oc of
        None \<Rightarrow> []
      | Some cfg \<Rightarrow> if cdDefaultTTL cfg < 0 then [prefix @ ''.defaultTTL: must be non-negative''] else [])"

fun varyOnErrors :: "string \<Rightarrow> int \<Rightarrow> string list \<Rightarrow> string list" where
  "varyOnErrors prefix i [] = []"
| "varyOnErrors prefix i (raw # raws) =
     (if varyOnEntry (TrimSpace raw) = None
      then [prefix @ ''.varyOn['' @ Itoa i @ '']: '' @ quoted raw @ '' does not match header:Name or query:Name'']
      else []) @ varyOnErrors prefix (i + 1) raws"

definition validateEndpointCache :: "string \<Rightarrow> string \<Rightarrow> EndpointCacheConfig option \<Rightarrow> string list" where
  "validateEndpointCache prefix m oc =
     (case oc of
        None \<Rightarrow> []
      | Some cfg \<Rightarrow>
          (if ecTTL cfg < 0 then [prefix @ ''.ttl: must be non-negative''] else []) @
          (if ToUpper m \<noteq> ''GET'' \<and> ToUpper m \<noteq> ''HEAD''
           then [prefix @ '': cache is only supported on GET and HEAD endpoints (current method: '' @ ToUpper m @ '')'']
           else []) @
          varyOnErrors prefix 0 (ecVaryOn cfg))"

subsection \<open>Keys\<close>

text \<open>\<^verbatim>\<open>url.QueryEscape\<close>.\<close>

definition hexDigit :: "nat \<Rightarrow> char" where
  "hexDigit n = (if n < 10 then char_of (48 + n) else char_of (55 + n))"

definition unreservedByte :: "char \<Rightarrow> bool" where
  "unreservedByte c \<longleftrightarrow>
     isUpperRune c \<or> isLowerRune c \<or> isDigit c \<or> c = CHR ''-'' \<or> c = CHR ''_'' \<or> c = CHR ''.'' \<or> c = CHR ''~''"

fun QueryEscape :: "string \<Rightarrow> string" where
  "QueryEscape [] = []"
| "QueryEscape (c # cs) =
     (if unreservedByte c then [c]
      else if c = CHR '' '' then ''+''
      else [CHR ''%'', hexDigit (of_char c div 16), hexDigit (of_char c mod 16)]) @ QueryEscape cs"

fun joinAmp :: "string list \<Rightarrow> string" where
  "joinAmp [] = []"
| "joinAmp [s] = s"
| "joinAmp (s # t # ss) = s @ ''&'' @ joinAmp (t # ss)"

definition queryPairs :: "(string \<times> string list) list \<Rightarrow> (string \<times> string) list" where
  "queryPairs q =
     concat (map (\<lambda>k. map (Pair k) (sort (case map_of q k of None \<Rightarrow> [] | Some vs \<Rightarrow> vs))) (sort (map fst q)))"

definition sortedQuery :: "(string \<times> string list) list \<Rightarrow> string" where
  "sortedQuery q = joinAmp (map (\<lambda>(k, v). QueryEscape k @ ''='' @ QueryEscape v) (queryPairs q))"

definition queryGet :: "(string \<times> string list) list \<Rightarrow> string \<Rightarrow> string" where
  "queryGet q k = (case map_of q k of Some (v # vs) \<Rightarrow> v | _ \<Rightarrow> [])"

definition buildCacheKey :: "(string \<Rightarrow> string) \<Rightarrow> string \<Rightarrow> string \<Rightarrow> httpRequest \<Rightarrow> cachePolicy \<Rightarrow> string" where
  "buildCacheKey hashString service endpoint req p =
     service @ ''|'' @ endpoint @ ''|'' @ ToUpper (rqMethod req) @ ''|'' @ rqPath req @ ''|'' @
     sortedQuery (rqQuery req) @
     concat (map (\<lambda>h. ''|h:'' @ hashString (headerGet (rqHeader req) h)) (cpVaryHeaders p)) @
     concat (map (\<lambda>q. ''|q:'' @ hashString (queryGet (rqQuery req) q)) (cpVaryQueries p))"

subsection \<open>What may be stored, and for how long\<close>

definition directives :: "string \<Rightarrow> string list" where
  "directives v = map (\<lambda>p. TrimSpace (ToLower p)) (splitOn (CHR '','') v)"

definition hasNoStore :: "httpResponse \<Rightarrow> bool" where
  "hasNoStore resp =
     (let v = headerGet (respHeader resp) ''Cache-Control'' in
      if v = [] then False else list_ex (\<lambda>p. p = ''no-store'' \<or> p = ''no-cache'') (directives v))"

fun firstMaxAge :: "string list \<Rightarrow> duration option" where
  "firstMaxAge [] = None"
| "firstMaxAge (p # ps) =
     (if \<not> HasPrefix p ''max-age='' then firstMaxAge ps
      else case Atoi (TrimPrefix p ''max-age='') of
        None \<Rightarrow> None
      | Some n \<Rightarrow> if n < 0 then None else Some (wrap64 (n * second)))"

definition maxAgeFromCacheControl :: "string \<Rightarrow> duration option" where
  "maxAgeFromCacheControl v = (if v = [] then None else firstMaxAge (directives v))"

definition isCacheableMethod :: "string \<Rightarrow> bool" where
  "isCacheableMethod m \<longleftrightarrow> ToUpper m = ''GET'' \<or> ToUpper m = ''HEAD''"

definition shouldStore :: "httpResponse \<Rightarrow> cachePolicy \<Rightarrow> bool \<Rightarrow> int set \<Rightarrow> bool" where
  "shouldStore resp p cacheAcceptable acceptable =
     (if cpHonorCacheControl p \<and> hasNoStore resp then False
      else if StatusCode resp \<ge> 200 \<and> StatusCode resp < 300 then True
      else if \<not> cacheAcceptable then False
      else StatusCode resp \<in> acceptable)"

definition effectiveTTL :: "httpResponse \<Rightarrow> cachePolicy \<Rightarrow> duration" where
  "effectiveTTL resp p =
     (case (if cpHonorCacheControl p then maxAgeFromCacheControl (headerGet (respHeader resp) ''Cache-Control'')
            else None) of
        Some d \<Rightarrow> d
      | None \<Rightarrow> cpTTL p)"

subsection \<open>The layer\<close>

record cacheEntry =
  ceBody :: string
  ceHeaders :: httpHeader
  ceStatus :: int
  ceContentType :: string
  ceContentLength :: int
  ceExpiresAt :: instant

definition materializeResponse :: "cacheEntry \<Rightarrow> httpResponse" where
  "materializeResponse e =
     \<lparr>StatusCode = ceStatus e, respHeader = ceHeaders e, respBody = ceBody e, respClosed = False\<rparr>"

record 'w cachePort =
  portGet :: "string \<Rightarrow> 'w \<Rightarrow> (cacheError + string option) \<times> 'w"
  portSet :: "string \<Rightarrow> string \<Rightarrow> duration \<Rightarrow> 'w \<Rightarrow> cacheError option \<times> 'w"
  encodeEntry :: "cacheEntry \<Rightarrow> string option"
  decodeEntry :: "string \<Rightarrow> cacheEntry option"

text \<open>The part of the layer that follows a miss: delegate, and store what may be stored.\<close>

definition cacheMiss ::
  "'w services \<Rightarrow> 'w cachePort \<Rightarrow> cachePolicy \<Rightarrow> bool \<Rightarrow> int set \<Rightarrow> string \<Rightarrow> 'w layer" where
  "cacheMiss W store p cacheAcceptable acceptable key nxt c =
     (case nxt (onObs (\<lambda>ob. ob\<lparr>obsCacheStatus := ''miss''\<rparr>) c) of
        ((Some resp, None), c1) \<Rightarrow>
          if \<not> shouldStore resp p cacheAcceptable acceptable then ((Some resp, None), c1)
          else let ttl = effectiveTTL resp p in
            if ttl \<le> 0 then ((Some resp, None), c1)
            else if respClosed resp then ((None, Some (EText ''http: read on closed response body'')), c1)
            else
              let entry = \<lparr>ceBody = respBody resp, ceHeaders = respHeader resp, ceStatus = StatusCode resp,
                           ceContentType = headerGet (respHeader resp) ''Content-Type'',
                           ceContentLength = int (length (respBody resp)),
                           ceExpiresAt = wNow W (cworld c1) + ttl\<rparr>
              in case encodeEntry store entry of
                   None \<Rightarrow> ((None, Some (EText ''json: encode'')), c1)
                 | Some raw \<Rightarrow>
                     (case portSet store key raw ttl (cworld c1) of
                        (Some e, w) \<Rightarrow> ((None, Some (ECache e)), c1\<lparr>cworld := w\<rparr>)
                      | (None, w) \<Rightarrow> ((Some resp, None), c1\<lparr>cworld := w\<rparr>))
      | (res, c1) \<Rightarrow> (res, c1))"

definition cacheMiddleware ::
  "'w services \<Rightarrow> (string \<Rightarrow> string) \<Rightarrow> string \<Rightarrow> string \<Rightarrow> 'w cachePort option \<Rightarrow> cachePolicy \<Rightarrow> bool \<Rightarrow> int set \<Rightarrow>
   'w layer" where
  "cacheMiddleware W hashString service endpoint ostore p cacheAcceptable acceptable nxt c =
     (let bypass = nxt (onObs (\<lambda>ob. ob\<lparr>obsCacheStatus := ''bypass''\<rparr>) c) in
      case ostore of
        None \<Rightarrow> bypass
      | Some store \<Rightarrow>
          if \<not> cpEnabled p \<or> \<not> isCacheableMethod (rqMethod (creq c)) then bypass
          else if obsNoCache (cobs c) then bypass
          else
            let key = (if obsCacheKey (cobs c) \<noteq> [] then obsCacheKey (cobs c)
                       else buildCacheKey hashString service endpoint (creq c) p)
            in case portGet store key (cworld c) of
                 (Inl e, w) \<Rightarrow> ((None, Some (ECache e)), c\<lparr>cworld := w\<rparr>)
               | (Inr None, w) \<Rightarrow> cacheMiss W store p cacheAcceptable acceptable key nxt (c\<lparr>cworld := w\<rparr>)
               | (Inr (Some raw), w) \<Rightarrow>
                   (case decodeEntry store raw of
                      None \<Rightarrow> cacheMiss W store p cacheAcceptable acceptable key nxt (c\<lparr>cworld := w\<rparr>)
                    | Some entry \<Rightarrow>
                        ((Some (materializeResponse entry), None),
                         onObs (\<lambda>ob. ob\<lparr>obsCacheStatus := ''hit''\<rparr>) (c\<lparr>cworld := w\<rparr>))))"

end
