(* ===== verification/Http_Signing.thy ===== *)
theory Http_Signing
  imports Http_Cache
begin

section \<open>Request signing and log redaction\<close>

text \<open>
  Model of \<^verbatim>\<open>src/infra/httpclient/signing.go\<close>, \<^verbatim>\<open>signing_config.go\<close>, \<^verbatim>\<open>redaction.go\<close> and
  \<^verbatim>\<open>redaction_config.go\<close>. SHA-256 and HMAC-SHA256 in hexadecimal, the rendering of an instant as
  a calendar date, and the host of the request are arguments. A JSON value is a tree of objects
  and other values. Two validation messages stop after the header name that they quote.
\<close>

subsection \<open>Signing configuration\<close>

record SigningConfig =
  sgType :: string
  sgKeyId :: string
  sgKeyIdHeader :: string
  sgSecret :: string
  sgSignedHeaders :: "string list"
  sgTimestampHeader :: string
  sgTimestampFormat :: string
  sgContentSHA256Header :: string
  sgSignatureHeader :: string
  sgSignaturePrefix :: string

record signingPolicy =
  spEnabled :: bool
  spAlgorithm :: string
  spKeyId :: string
  spKeyIdHeader :: string
  spSecret :: string
  spSignedHeaders :: "string list"
  spTimestampHeader :: string
  spTimestampFormat :: string
  spContentSHA256Header :: string
  spSignatureHeader :: string
  spSignaturePrefix :: string

text \<open>\<^verbatim>\<open>sortStrings\<close>: the element at \<open>i\<close> moves left past every greater one. The sorted part is kept
  reversed, so that the element meets its left neighbour first.\<close>

fun shiftLeft :: "string \<Rightarrow> string list \<Rightarrow> string list" where
  "shiftLeft x [] = [x]"
| "shiftLeft x (y # ys) = (if y > x then y # shiftLeft x ys else x # y # ys)"

definition sortStrings :: "string list \<Rightarrow> string list" where
  "sortStrings s = rev (foldl (\<lambda>done x. shiftLeft x done) [] s)"

fun dedup :: "string set \<Rightarrow> string list \<Rightarrow> string list" where
  "dedup seen [] = []"
| "dedup seen (h # hs) =
     (let v = ToLower (TrimSpace h) in
      if v = [] \<or> v \<in> seen then dedup seen hs else v # dedup (insert v seen) hs)"

definition normalizeSignedHeaders :: "string list \<Rightarrow> string list" where
  "normalizeSignedHeaders hs = (if hs = [] then [] else sortStrings (dedup {} hs))"

definition resolveTimestampFormat :: "string \<Rightarrow> string" where
  "resolveTimestampFormat s =
     (let v = ToLower (TrimSpace s) in if v \<in> {''iso8601'', ''unix-seconds''} then v else ''rfc1123'')"

definition resolveContentSHA256Header :: "string \<Rightarrow> string" where
  "resolveContentSHA256Header s =
     (let t = TrimSpace s in if t = [] then ''X-Content-SHA256'' else if t = ''-'' then [] else t)"

definition noSigning :: signingPolicy where
  "noSigning = \<lparr>spEnabled = False, spAlgorithm = [], spKeyId = [], spKeyIdHeader = [], spSecret = [],
     spSignedHeaders = [], spTimestampHeader = [], spTimestampFormat = [], spContentSHA256Header = [],
     spSignatureHeader = [], spSignaturePrefix = []\<rparr>"

definition resolveSigningPolicy :: "SigningConfig option \<Rightarrow> signingPolicy" where
  "resolveSigningPolicy oc =
     (case oc of
        None \<Rightarrow> noSigning
      | Some cfg \<Rightarrow>
          \<lparr>spEnabled = True, spAlgorithm = ToLower (TrimSpace (sgType cfg)), spKeyId = sgKeyId cfg,
           spKeyIdHeader = sgKeyIdHeader cfg, spSecret = sgSecret cfg,
           spSignedHeaders = normalizeSignedHeaders (sgSignedHeaders cfg),
           spTimestampHeader = sgTimestampHeader cfg,
           spTimestampFormat = resolveTimestampFormat (sgTimestampFormat cfg),
           spContentSHA256Header = resolveContentSHA256Header (sgContentSHA256Header cfg),
           spSignatureHeader = sgSignatureHeader cfg, spSignaturePrefix = sgSignaturePrefix cfg\<rparr>)"

definition signedHeadersErrors :: "string \<Rightarrow> SigningConfig \<Rightarrow> string list" where
  "signedHeadersErrors prefix cfg =
     (let signed = map (\<lambda>h. ToLower (TrimSpace h)) (sgSignedHeaders cfg);
          sig = ToLower (TrimSpace (sgSignatureHeader cfg)); kid = ToLower (TrimSpace (sgKeyIdHeader cfg))
      in if sgSignedHeaders cfg = [] then [prefix @ ''.signedHeaders: required and must be non-empty'']
         else
           (if list_ex (\<lambda>h. TrimSpace h = []) (sgSignedHeaders cfg)
            then [prefix @ ''.signedHeaders: contains an empty entry''] else []) @
           (if sig \<noteq> [] \<and> sig \<in> set signed
            then [prefix @ ''.signedHeaders: must not contain the signatureHeader '' @ quoted (sgSignatureHeader cfg)] else []) @
           (if kid \<noteq> [] \<and> kid \<in> set signed
            then [prefix @ ''.signedHeaders: must not contain the keyIdHeader '' @ quoted (sgKeyIdHeader cfg)] else []))"

definition validateSigningConfig :: "string \<Rightarrow> SigningConfig option \<Rightarrow> string list" where
  "validateSigningConfig prefix oc =
     (case oc of
        None \<Rightarrow> []
      | Some cfg \<Rightarrow>
          (let algo = ToLower (TrimSpace (sgType cfg)) in
           if algo = ''hmac-sha256'' then []
           else if algo = [] then [prefix @ ''.type: required'']
           else [prefix @ ''.type: '' @ quoted (sgType cfg) @ '' is not supported (only hmac-sha256 in this phase)'']) @
          (if TrimSpace (sgSecret cfg) = [] then [prefix @ ''.secret: required''] else []) @
          signedHeadersErrors prefix cfg @
          (if TrimSpace (sgTimestampHeader cfg) = [] then [prefix @ ''.timestampHeader: required''] else []) @
          (if sgTimestampFormat cfg \<noteq> [] \<and>
              ToLower (TrimSpace (sgTimestampFormat cfg)) \<notin> {''rfc1123'', ''iso8601'', ''unix-seconds''}
           then [prefix @ ''.timestampFormat: '' @ quoted (sgTimestampFormat cfg) @ '' is not one of rfc1123|iso8601|unix-seconds'']
           else []) @
          (if TrimSpace (sgSignatureHeader cfg) = [] then [prefix @ ''.signatureHeader: required''] else []) @
          (if TrimSpace (sgKeyId cfg) \<noteq> [] \<and> TrimSpace (sgKeyIdHeader cfg) = []
           then [prefix @ ''.keyIdHeader: required when keyId is set''] else []) @
          (if TrimSpace (sgKeyIdHeader cfg) \<noteq> [] \<and> TrimSpace (sgKeyId cfg) = []
           then [prefix @ ''.keyId: required when keyIdHeader is set''] else []))"

subsection \<open>The signing layer\<close>

record 'w signer =
  sgHexSHA256 :: "string \<Rightarrow> string"
  sgHexHMAC :: "string \<Rightarrow> string \<Rightarrow> string"
  sgFormatISO :: "instant \<Rightarrow> string"
  sgFormatHTTP :: "instant \<Rightarrow> string"
  sgHost :: "httpRequest \<Rightarrow> string"

definition newline :: string where
  "newline = [CHR 0x0A]"

definition formatTimestamp :: "'w signer \<Rightarrow> instant \<Rightarrow> string \<Rightarrow> string" where
  "formatTimestamp S t fmt =
     (if fmt = ''iso8601'' then sgFormatISO S t
      else if fmt = ''unix-seconds'' then Itoa (t div second)
      else sgFormatHTTP S t)"

definition canonicalPath :: "httpRequest \<Rightarrow> string" where
  "canonicalPath req = (if rqPath req = [] then ''/'' else rqPath req)"

definition canonicalQuery :: "(string \<times> string list) list \<Rightarrow> string" where
  "canonicalQuery q =
     (if q = [] then []
      else joinAmp (concat (map (\<lambda>k. map (\<lambda>v. QueryEscape k @ ''='' @ QueryEscape v)
                                       (sortStrings (case map_of q k of None \<Rightarrow> [] | Some vs \<Rightarrow> vs)))
                              (sortStrings (map fst q)))))"

fun joinWith :: "string \<Rightarrow> string list \<Rightarrow> string" where
  "joinWith sep [] = []"
| "joinWith sep [s] = s"
| "joinWith sep (s # t # ss) = s @ sep @ joinWith sep (t # ss)"

definition headerCanonicalValue :: "'w signer \<Rightarrow> httpRequest \<Rightarrow> string \<Rightarrow> string" where
  "headerCanonicalValue S req name =
     (if name = ''host'' then TrimSpace (sgHost S req)
      else case rqHeader req (CanonicalHeaderKey (CanonicalHeaderKey name)) of
        None \<Rightarrow> []
      | Some vs \<Rightarrow> joinWith '','' (map TrimSpace vs))"

definition canonicalHeaders :: "'w signer \<Rightarrow> httpRequest \<Rightarrow> string list \<Rightarrow> string" where
  "canonicalHeaders S req names =
     concat (map (\<lambda>name. name @ '':'' @ headerCanonicalValue S req name @ newline) names)"

definition buildCanonicalString :: "'w signer \<Rightarrow> httpRequest \<Rightarrow> signingPolicy \<Rightarrow> string \<Rightarrow> string" where
  "buildCanonicalString S req p body =
     ToUpper (rqMethod req) @ newline @ canonicalPath req @ newline @ canonicalQuery (rqQuery req) @ newline @
     canonicalHeaders S req (spSignedHeaders p) @ newline @ joinWith '';'' (spSignedHeaders p) @ newline @
     sgHexSHA256 S body"

definition bodyForSigning :: "'w call \<Rightarrow> string" where
  "bodyForSigning c =
     (if obsRequestBody (cobs c) \<noteq> [] then obsRequestBody (cobs c)
      else case rqBody (creq c) of None \<Rightarrow> [] | Some d \<Rightarrow> d)"

definition setHeader :: "string \<Rightarrow> string \<Rightarrow> httpRequest \<Rightarrow> httpRequest" where
  "setHeader k v r = r\<lparr>rqHeader := headerSet (rqHeader r) k v\<rparr>"

definition injectSigningHeaders :: "'w signer \<Rightarrow> signingPolicy \<Rightarrow> instant \<Rightarrow> string \<Rightarrow> httpRequest \<Rightarrow> httpRequest" where
  "injectSigningHeaders S p now body r =
     (let r1 = setHeader (spTimestampHeader p) (formatTimestamp S now (spTimestampFormat p)) r in
      if spContentSHA256Header p \<noteq> [] then setHeader (spContentSHA256Header p) (sgHexSHA256 S body) r1 else r1)"

definition signRequest :: "'w signer \<Rightarrow> signingPolicy \<Rightarrow> instant \<Rightarrow> string \<Rightarrow> httpRequest \<Rightarrow> httpRequest" where
  "signRequest S p now body r =
     (let r1 = injectSigningHeaders S p now body r;
          sig = sgHexHMAC S (spSecret p) (buildCanonicalString S r1 p body);
          r2 = setHeader (spSignatureHeader p) (spSignaturePrefix p @ sig) r1
      in if spKeyId p \<noteq> [] \<and> spKeyIdHeader p \<noteq> [] then setHeader (spKeyIdHeader p) (spKeyId p) r2 else r2)"

definition signingMiddleware :: "'w services \<Rightarrow> 'w signer \<Rightarrow> signingPolicy \<Rightarrow> 'w layer" where
  "signingMiddleware W S p nxt c =
     (if \<not> spEnabled p then nxt c
      else nxt (onReq (signRequest S p (wNow W (cworld c)) (bodyForSigning c)) c))"

subsection \<open>Redaction\<close>

definition redactedPlaceholder :: string where
  "redactedPlaceholder = ''[REDACTED]''"

definition defaultRedactedHeaders :: "string list" where
  "defaultRedactedHeaders =
     map CanonicalHeaderKey [''Authorization'', ''Proxy-Authorization'', ''Cookie'', ''Set-Cookie'', ''X-API-Key'']"

record RedactionConfig =
  rdHeaders :: "string list"
  rdBodyJSONPath :: "string list"
  rdQueryKeys :: "string list"

record redactionPolicy =
  rpHeaderSet :: "string set"
  rpBodyJSONPaths :: "string list"
  rpQueryKeys :: "string set"

definition nonBlank :: "string list \<Rightarrow> string list" where
  "nonBlank xs = filter (\<lambda>x. x \<noteq> []) (map TrimSpace xs)"

definition mergeRedaction :: "RedactionConfig option \<Rightarrow> redactionPolicy \<Rightarrow> redactionPolicy" where
  "mergeRedaction oc p =
     (case oc of
        None \<Rightarrow> p
      | Some cfg \<Rightarrow>
          \<lparr>rpHeaderSet = rpHeaderSet p \<union> set (map CanonicalHeaderKey (nonBlank (rdHeaders cfg))),
           rpBodyJSONPaths = rpBodyJSONPaths p @ nonBlank (rdBodyJSONPath cfg),
           rpQueryKeys = rpQueryKeys p \<union> set (map ToLower (nonBlank (rdQueryKeys cfg)))\<rparr>)"

definition resolveRedactionPolicy :: "RedactionConfig option \<Rightarrow> RedactionConfig option \<Rightarrow> redactionPolicy" where
  "resolveRedactionPolicy defaults service =
     mergeRedaction service (mergeRedaction defaults
       \<lparr>rpHeaderSet = set defaultRedactedHeaders, rpBodyJSONPaths = [],
        rpQueryKeys = {''token'', ''api_key'', ''access_token'', ''signature'', ''code''}\<rparr>)"

definition addRedactedHeader :: "string \<Rightarrow> redactionPolicy \<Rightarrow> redactionPolicy" where
  "addRedactedHeader name p =
     (if name = [] then p else p\<lparr>rpHeaderSet := insert (CanonicalHeaderKey name) (rpHeaderSet p)\<rparr>)"

definition redactHeaders :: "httpHeader \<Rightarrow> redactionPolicy option \<Rightarrow> httpHeader" where
  "redactHeaders h op =
     (let blocked = (case op of None \<Rightarrow> set defaultRedactedHeaders | Some p \<Rightarrow> rpHeaderSet p) in
      (\<lambda>k. case h k of None \<Rightarrow> None
           | Some vs \<Rightarrow> if CanonicalHeaderKey k \<in> blocked then Some [redactedPlaceholder] else Some vs))"

datatype json = JObject "(string \<times> json) list" | JString string | JNumber int | JOther string

text \<open>Assignment into the object under a key that it has.\<close>

fun setField :: "string \<Rightarrow> json \<Rightarrow> (string \<times> json) list \<Rightarrow> (string \<times> json) list" where
  "setField k v [] = []"
| "setField k v ((k', x) # fs) = (if k' = k then (k, v) # fs else (k', x) # setField k v fs)"

fun redactParts :: "json \<Rightarrow> string list \<Rightarrow> json option" where
  "redactParts (JObject fs) [leaf] =
     (if map_of fs leaf = None then None else Some (JObject (setField leaf (JString redactedPlaceholder) fs)))"
| "redactParts (JObject fs) (key # part # parts) =
     (case map_of fs key of
        None \<Rightarrow> None
      | Some sub \<Rightarrow> map_option (\<lambda>sub'. JObject (setField key sub' fs)) (redactParts sub (part # parts)))"
| "redactParts j parts = None"

definition redactPath :: "json \<Rightarrow> string \<Rightarrow> json option" where
  "redactPath j path =
     (let p = TrimPrefix (TrimPrefix (TrimSpace path) ''$'') ''.'' in
      if p = [] then None else redactParts j (splitOn (CHR ''.'') p))"

definition redactJSON :: "string list \<Rightarrow> json \<Rightarrow> json" where
  "redactJSON paths j = fold (\<lambda>path j. case redactPath j path of None \<Rightarrow> j | Some j' \<Rightarrow> j') paths j"

definition redactQuery :: "string set \<Rightarrow> (string \<times> string list) list \<Rightarrow> (string \<times> string list) list" where
  "redactQuery keys q =
     map (\<lambda>(k, vs). (k, if ToLower k \<in> keys then map (\<lambda>_. redactedPlaceholder) vs else vs)) q"

end
