(* ===== verification/Http_Auth.thy ===== *)
theory Http_Auth
  imports Http_Signing
begin

section \<open>Auth providers of the HTTP client\<close>

text \<open>
  Model of \<^verbatim>\<open>src/infra/httpclient/auth\<close>: where a credential is attached, the static providers, the
  token cache, and the two providers that acquire tokens. What surrounds a provider (the clock,
  the token endpoint, the JSON and JWT decoders, SHA-256, the values of the request's context)
  is a record of functions. An error is its chain of causes; the sequential reading of the
  single-flight slot is to run the function, its concurrent reading is the subject of
  \<^verbatim>\<open>Single_Flight\<close>.
\<close>

subsection \<open>Attaching a credential\<close>

datatype AttachKind = AttachUnknown | AttachHeader | AttachQuery | AttachCookie

record AttachConfig =
  acKind :: AttachKind
  acName :: string
  acFormat :: string
  acValue :: string

definition noAttach :: AttachConfig where
  "noAttach = \<lparr>acKind = AttachUnknown, acName = [], acFormat = [], acValue = []\<rparr>"

definition ParseAttachKind :: "string \<Rightarrow> AttachKind \<times> goError option" where
  "ParseAttachKind s =
     (let v = ToLower (TrimSpace s) in
      if v = [] \<or> v = ''header'' then (AttachHeader, None)
      else if v = ''query'' then (AttachQuery, None)
      else if v = ''cookie'' then (AttachCookie, None)
      else (AttachUnknown, Some (EText (''auth: attach.as '' @ quoted s @ '' is not one of header|query|cookie''))))"

text \<open>\<^verbatim>\<open>strings.ReplaceAll\<close> for a pattern that is not empty.\<close>

function ReplaceAll :: "string \<Rightarrow> string \<Rightarrow> string \<Rightarrow> string" where
  "ReplaceAll [] old new = []"
| "ReplaceAll (c # cs) old new =
     (if old \<noteq> [] \<and> HasPrefix (c # cs) old then new @ ReplaceAll (drop (length old) (c # cs)) old new
      else c # ReplaceAll cs old new)"
  by pat_completeness auto
termination
  by (relation "measure (\<lambda>(s, old, new). length s)") auto

definition RenderValue :: "string \<Rightarrow> string \<Rightarrow> string" where
  "RenderValue format token = (if format = [] then token else ReplaceAll format ''{token}'' token)"

text \<open>\<^verbatim>\<open>url.Values.Set\<close>, and \<^verbatim>\<open>Request.AddCookie\<close> for names and values of cookie bytes.\<close>

fun valuesSet :: "string \<Rightarrow> string \<Rightarrow> (string \<times> string list) list \<Rightarrow> (string \<times> string list) list" where
  "valuesSet k v [] = [(k, [v])]"
| "valuesSet k v ((k', vs) # q) = (if k' = k then (k, [v]) # q else (k', vs) # valuesSet k v q)"

definition AddCookie :: "httpHeader \<Rightarrow> string \<Rightarrow> string \<Rightarrow> httpHeader" where
  "AddCookie h name v =
     (let s = name @ ''='' @ v; c = headerGet h ''Cookie'' in
      headerSet h ''Cookie'' (if c \<noteq> [] then c @ ''; '' @ s else s))"

definition Attach :: "httpRequest \<Rightarrow> AttachConfig \<Rightarrow> string \<Rightarrow> httpRequest" where
  "Attach req cfg v =
     (case acKind cfg of
        AttachHeader \<Rightarrow> req\<lparr>rqHeader := headerSet (rqHeader req) (acName cfg) v\<rparr>
      | AttachQuery \<Rightarrow> req\<lparr>rqQuery := valuesSet (acName cfg) v (rqQuery req)\<rparr>
      | AttachCookie \<Rightarrow> req\<lparr>rqHeader := AddCookie (rqHeader req) (acName cfg) v\<rparr>
      | AttachUnknown \<Rightarrow> req)"

text \<open>The defaults that the token-bearing constructors apply to the attach block.\<close>

definition defaultAttach :: "string \<Rightarrow> AttachConfig \<Rightarrow> AttachConfig" where
  "defaultAttach format a =
     a\<lparr>acKind := (if acKind a = AttachUnknown then AttachHeader else acKind a),
       acName := (if acName a = [] then ''Authorization'' else acName a),
       acFormat := (if acFormat a = [] then format else acFormat a)\<rparr>"

subsection \<open>Token cache\<close>

record tokenCache =
  tcToken :: string
  tcExpiresAt :: instant

definition emptyTokenCache :: tokenCache where
  "emptyTokenCache = \<lparr>tcToken = [], tcExpiresAt = zeroTime\<rparr>"

definition tokenCache_Get :: "instant \<Rightarrow> duration \<Rightarrow> tokenCache \<Rightarrow> string option" where
  "tokenCache_Get now skew c =
     (if tcToken c = [] then None
      else if tcExpiresAt c \<noteq> zeroTime \<and> now + skew > tcExpiresAt c then None
      else Some (tcToken c))"

definition tokenCache_Set :: "string \<Rightarrow> instant \<Rightarrow> tokenCache \<Rightarrow> tokenCache" where
  "tokenCache_Set token expiresAt c = c\<lparr>tcToken := token, tcExpiresAt := expiresAt\<rparr>"

definition tokenCache_Invalidate :: "tokenCache \<Rightarrow> tokenCache" where
  "tokenCache_Invalidate c = c\<lparr>tcToken := [], tcExpiresAt := zeroTime\<rparr>"

subsection \<open>Expiry of a token\<close>

datatype TokenCacheSource = SourceUnknown | SourceJWTExp | SourceResponseField | SourceTTL

datatype ResponseFieldUnit = UnitUnknown | UnitSeconds | UnitMillis | UnitISO8601

record TokenCacheConfig =
  tccSource :: TokenCacheSource
  tccSkew :: duration
  tccSingleFlight :: bool
  tccJSONPath :: string
  tccUnit :: ResponseFieldUnit
  tccTTL :: duration

datatype ctxValue =
    CtxString string
  | CtxStringPtr "string option"
  | CtxStringer string
  | CtxBool bool
  | CtxNil
  | CtxPrinted string

text \<open>
  \<open>idpDo\<close> is \<^verbatim>\<open>http.Client.Do\<close> and the reading of the body; \<open>idpJSON\<close> is \<^verbatim>\<open>json.Unmarshal\<close> into a
  map, \<open>idpPayload\<close> the base64 decoding of a JWT segment with or without padding. \<open>idpBearer\<close> and
  \<open>idpContext\<close> read the context of the request and are \<open>None\<close> when it is not an \<^verbatim>\<open>AppContext\<close>.
\<close>

record 'w idp =
  idpNow :: "'w \<Rightarrow> instant"
  idpParseURL :: "string \<Rightarrow> goError option"
  idpDo :: "httpRequest \<Rightarrow> 'w \<Rightarrow> (goError + int \<times> (goError + string)) \<times> 'w"
  idpJSON :: "string \<Rightarrow> goError + (string \<times> json) list"
  idpMarshal :: "(string \<times> string) list \<Rightarrow> string"
  idpPayload :: "string \<Rightarrow> goError + string"
  idpRFC3339 :: "string \<Rightarrow> goError + instant"
  idpSHA256 :: "string \<Rightarrow> string"
  idpBearer :: "string option"
  idpContext :: "(string \<Rightarrow> ctxValue option) option"

definition unixTime :: "int \<Rightarrow> instant" where
  "unixTime sec = sec * second"

definition decodeJWTExp :: "'w idp \<Rightarrow> string \<Rightarrow> goError + instant" where
  "decodeJWTExp I token =
     (let parts = splitOn (CHR ''.'') token in
      if length parts \<noteq> 3
      then Inl (EText (''jwt: expected 3 dot-separated parts, got '' @ Itoa (int (length parts))))
      else case idpPayload I (parts ! 1) of
        Inl e \<Rightarrow> Inl (EWrap e)
      | Inr raw \<Rightarrow>
          (case idpJSON I raw of
             Inl e \<Rightarrow> Inl (EWrap e)
           | Inr claims \<Rightarrow>
               (case map_of claims ''exp'' of
                  None \<Rightarrow> Inl (EText ''jwt: no exp claim'')
                | Some (JNumber sec) \<Rightarrow> Inr (unixTime sec)
                | Some _ \<Rightarrow> Inl (EText ''jwt: exp has unsupported type''))))"

definition reprPath :: "string list \<Rightarrow> nat \<Rightarrow> string" where
  "reprPath parts upTo = ''$.'' @ joinWith ''.'' (take upTo parts)"

fun walkParts :: "string list \<Rightarrow> nat \<Rightarrow> json \<Rightarrow> string list \<Rightarrow> goError + json" where
  "walkParts parts i cur [] = Inr cur"
| "walkParts parts i (JObject m) (key # keys) =
     (case map_of m key of
        None \<Rightarrow> Inl (EText (''jsonpath: '' @ quoted (reprPath parts i) @ '' is missing key '' @ quoted key))
      | Some v \<Rightarrow> walkParts parts (Suc i) v keys)"
| "walkParts parts i cur (key # keys) =
     Inl (EText (''jsonpath: '' @ quoted (reprPath parts i) @ '' is not an object at segment '' @ Itoa (int i) @
                 '' ('' @ quoted key @ '')''))"

definition walkJSONPath :: "string \<Rightarrow> json \<Rightarrow> goError + json" where
  "walkJSONPath path root =
     (let p = TrimPrefix (TrimPrefix (TrimSpace path) ''$'') ''.''; parts = splitOn (CHR ''.'') p in
      if p = [] then Inr root else walkParts parts 0 root parts)"

fun numberOf :: "json \<Rightarrow> goError + int" where
  "numberOf (JNumber n) = Inr n"
| "numberOf (JString s) =
     (case Atoi s of None \<Rightarrow> Inl (EText ''strconv.ParseInt: invalid syntax'') | Some n \<Rightarrow> Inr n)"
| "numberOf j = Inl (EText ''not a number'')"

definition parseResponseFieldExpiry ::
  "'w idp \<Rightarrow> instant \<Rightarrow> json \<Rightarrow> ResponseFieldUnit \<Rightarrow> goError + instant" where
  "parseResponseFieldExpiry I now raw unit =
     (case unit of
        UnitISO8601 \<Rightarrow>
          (case raw of
             JString s \<Rightarrow> (case idpRFC3339 I s of Inl e \<Rightarrow> Inl (EWrap e) | Inr t \<Rightarrow> Inr t)
           | _ \<Rightarrow> Inl (EText ''iso8601 unit: expected string''))
      | UnitMillis \<Rightarrow>
          (case numberOf raw of Inl e \<Rightarrow> Inl (EWrap e) | Inr n \<Rightarrow> Inr (now + wrap64 (n * millisecond)))
      | _ \<Rightarrow>
          (case numberOf raw of Inl e \<Rightarrow> Inl (EWrap e) | Inr n \<Rightarrow> Inr (now + wrap64 (n * second))))"

definition computeExpiry ::
  "'w idp \<Rightarrow> string \<Rightarrow> TokenCacheConfig \<Rightarrow> instant \<Rightarrow> string \<Rightarrow> (string \<times> json) list \<Rightarrow> goError + instant" where
  "computeExpiry I who cfg now token payload =
     (case tccSource cfg of
        SourceJWTExp \<Rightarrow> (case decodeJWTExp I token of Inl e \<Rightarrow> Inl (EWrap e) | Inr t \<Rightarrow> Inr t)
      | SourceResponseField \<Rightarrow>
          (case walkJSONPath (tccJSONPath cfg) (JObject payload) of
             Inl e \<Rightarrow> Inl (EWrap e)
           | Inr raw \<Rightarrow> parseResponseFieldExpiry I now raw (tccUnit cfg))
      | SourceTTL \<Rightarrow> Inr (now + tccTTL cfg)
      | SourceUnknown \<Rightarrow> Inl (EText (''auth: '' @ who @ '': no token cache source configured'')))"

subsection \<open>Static providers\<close>

text \<open>\<^verbatim>\<open>base64.StdEncoding\<close>.\<close>

definition base64Char :: "nat \<Rightarrow> char" where
  "base64Char n =
     (if n < 26 then char_of (65 + n) else if n < 52 then char_of (71 + n) else if n < 62 then char_of (n - 4)
      else if n = 62 then CHR ''+'' else CHR ''/'')"

fun base64 :: "string \<Rightarrow> string" where
  "base64 [] = []"
| "base64 [a] =
     [base64Char (of_char a div 4), base64Char (of_char a mod 4 * 16), CHR ''='', CHR ''='']"
| "base64 [a, b] =
     [base64Char (of_char a div 4), base64Char (of_char a mod 4 * 16 + of_char b div 16),
      base64Char (of_char b mod 16 * 4), CHR ''='']"
| "base64 (a # b # c # cs) =
     [base64Char (of_char a div 4), base64Char (of_char a mod 4 * 16 + of_char b div 16),
      base64Char (of_char b mod 16 * 4 + of_char c div 64), base64Char (of_char c mod 64)] @ base64 cs"

record staticProvider =
  spName :: string
  spToken :: string
  spAttach :: AttachConfig

definition NewHeaderStaticProvider :: "string \<Rightarrow> AttachConfig \<Rightarrow> goError + staticProvider" where
  "NewHeaderStaticProvider name attach =
     (if acName attach = [] then Inl (EText (''auth: header-static '' @ quoted name @ '' requires attach.name''))
      else if acValue attach = [] then Inl (EText (''auth: header-static '' @ quoted name @ '' requires attach.value''))
      else Inr \<lparr>spName = name, spToken = [], spAttach = attach\<rparr>)"

definition HeaderStatic_Apply :: "staticProvider \<Rightarrow> httpRequest \<Rightarrow> httpRequest" where
  "HeaderStatic_Apply p req = Attach req (spAttach p) (acValue (spAttach p))"

definition NewBearerStaticProvider :: "string \<Rightarrow> string \<Rightarrow> AttachConfig \<Rightarrow> goError + staticProvider" where
  "NewBearerStaticProvider name token attach =
     (if token = [] then Inl (EText (''auth: bearer-static '' @ quoted name @ '' requires token''))
      else Inr \<lparr>spName = name, spToken = token, spAttach = defaultAttach ''Bearer {token}'' attach\<rparr>)"

definition BearerStatic_Apply :: "staticProvider \<Rightarrow> httpRequest \<Rightarrow> httpRequest" where
  "BearerStatic_Apply p req = Attach req (spAttach p) (RenderValue (acFormat (spAttach p)) (spToken p))"

definition NewBasicProvider :: "string \<Rightarrow> string \<Rightarrow> string \<Rightarrow> AttachConfig \<Rightarrow> goError + staticProvider" where
  "NewBasicProvider name username password attach =
     (if username = [] \<or> password = []
      then Inl (EText (''auth: basic '' @ quoted name @ '' requires username and password''))
      else Inr \<lparr>spName = name, spToken = ''Basic '' @ base64 (username @ '':'' @ password),
                spAttach = defaultAttach (acFormat attach) attach\<rparr>)"

definition Basic_Apply :: "staticProvider \<Rightarrow> httpRequest \<Rightarrow> httpRequest" where
  "Basic_Apply p req = Attach req (spAttach p) (spToken p)"

definition NewForwardBearerProvider :: "string \<Rightarrow> AttachConfig \<Rightarrow> staticProvider" where
  "NewForwardBearerProvider name attach =
     \<lparr>spName = name, spToken = [], spAttach = defaultAttach ''Bearer {token}'' attach\<rparr>"

definition ForwardBearer_Apply :: "'w idp \<Rightarrow> staticProvider \<Rightarrow> httpRequest \<Rightarrow> goError option \<times> httpRequest" where
  "ForwardBearer_Apply I p req =
     (case idpBearer I of
        None \<Rightarrow> (Some (EText ''auth: forward-bearer requires AppContext''), req)
      | Some token \<Rightarrow>
          if token = []
          then (Some (EText ''auth: forward-bearer: no bearer on AppContext (public route / auth disabled / background job)''), req)
          else (None, Attach req (spAttach p) (RenderValue (acFormat (spAttach p)) token)))"

subsection \<open>Token requests\<close>

text \<open>\<^verbatim>\<open>url.Values.Encode\<close> of a map with one value for each key, and the cut of long texts.\<close>

definition formEncode :: "(string \<times> string) list \<Rightarrow> string" where
  "formEncode fs =
     joinAmp (map (\<lambda>k. QueryEscape k @ ''='' @ QueryEscape (the (map_of fs k))) (sort (map fst fs)))"

definition truncate :: "string \<Rightarrow> nat \<Rightarrow> string" where
  "truncate s n = (if length s \<le> n then s else take n s @ [CHR 0xE2, CHR 0x80, CHR 0xA6])"

definition tokenRequest :: "string \<Rightarrow> string \<Rightarrow> (string \<times> string) list \<Rightarrow> string \<Rightarrow> httpRequest" where
  "tokenRequest endpoint contentType headers body =
     \<lparr>rqMethod = ''POST'', rqPath = endpoint, rqQuery = [],
      rqHeader = fold (\<lambda>(k, v) h. headerSet h k v) headers
                   (headerSet (headerSet Map.empty ''Content-Type'' contentType) ''Accept'' ''application/json''),
      rqBody = Some body, rqContentLength = int (length body)\<rparr>"

text \<open>The part that both acquisitions share: send the request, demand a 2xx and a JSON object.\<close>

definition fetchPayload ::
  "'w idp \<Rightarrow> string \<Rightarrow> httpRequest \<Rightarrow> 'w \<Rightarrow> (goError + (string \<times> json) list) \<times> 'w" where
  "fetchPayload I who req w =
     (case idpParseURL I (rqPath req) of
        Some e \<Rightarrow> (Inl (EWrap e), w)
      | None \<Rightarrow>
          (case idpDo I req w of
             (Inl e, w1) \<Rightarrow> (Inl (EWrap e), w1)
           | (Inr (status, Inl e), w1) \<Rightarrow> (Inl (EWrap e), w1)
           | (Inr (status, Inr body), w1) \<Rightarrow>
               if status < 200 \<or> status \<ge> 300
               then (Inl (EText (''auth: '' @ who @ '' token endpoint returned '' @ Itoa status @ '': '' @ truncate body 256)), w1)
               else (case idpJSON I body of Inl e \<Rightarrow> (Inl (EWrap e), w1) | Inr payload \<Rightarrow> (Inr payload, w1))))"

text \<open>The end of both acquisitions: the token with its expiry goes into the cache.\<close>

definition keepToken ::
  "'w idp \<Rightarrow> string \<Rightarrow> TokenCacheConfig \<Rightarrow> string \<Rightarrow> (string \<times> json) list \<Rightarrow> tokenCache \<Rightarrow> 'w \<Rightarrow>
   (goError + string) \<times> tokenCache \<times> 'w" where
  "keepToken I who cfg token payload c w =
     (case computeExpiry I who cfg (idpNow I w) token payload of
        Inl e \<Rightarrow> (Inl e, c, w)
      | Inr t \<Rightarrow> (Inr token, tokenCache_Set token t c, w))"

subsection \<open>OAuth2 client credentials\<close>

record OAuth2 =
  oaName :: string
  oaTokenEndpoint :: string
  oaClientID :: string
  oaClientSecret :: string
  oaScope :: "string list"
  oaAudience :: string
  oaAttach :: AttachConfig
  oaCache :: tokenCache
  oaCacheCfg :: TokenCacheConfig
  oaRevocation :: bool

record OAuth2Options =
  ooName :: string
  ooTokenEndpoint :: string
  ooClientID :: string
  ooClientSecret :: string
  ooScope :: "string list"
  ooAudience :: string
  ooAttach :: AttachConfig
  ooCache :: TokenCacheConfig
  ooRevocation :: bool

definition NewOAuth2ClientCredentialsProvider :: "OAuth2Options \<Rightarrow> goError + OAuth2" where
  "NewOAuth2ClientCredentialsProvider opts =
     (if ooTokenEndpoint opts = []
      then Inl (EText (''auth: oauth2 '' @ quoted (ooName opts) @ '' requires tokenEndpoint''))
      else if ooClientID opts = [] \<or> ooClientSecret opts = []
      then Inl (EText (''auth: oauth2 '' @ quoted (ooName opts) @ '' requires clientId and clientSecret''))
      else Inr \<lparr>oaName = ooName opts, oaTokenEndpoint = ooTokenEndpoint opts, oaClientID = ooClientID opts,
                oaClientSecret = ooClientSecret opts, oaScope = ooScope opts, oaAudience = ooAudience opts,
                oaAttach = defaultAttach ''Bearer {token}'' (ooAttach opts), oaCache = emptyTokenCache,
                oaCacheCfg = ooCache opts, oaRevocation = ooRevocation opts\<rparr>)"

definition oauth2Form :: "OAuth2 \<Rightarrow> (string \<times> string) list" where
  "oauth2Form p =
     [(''grant_type'', ''client_credentials''), (''client_id'', oaClientID p), (''client_secret'', oaClientSecret p)] @
     (if oaScope p \<noteq> [] then [(''scope'', joinWith '' '' (oaScope p))] else []) @
     (if oaAudience p \<noteq> [] then [(''audience'', oaAudience p)] else [])"

definition OAuth2_acquireToken :: "'w idp \<Rightarrow> OAuth2 \<Rightarrow> 'w \<Rightarrow> (goError + string) \<times> OAuth2 \<times> 'w" where
  "OAuth2_acquireToken I p w =
     (case fetchPayload I ''oauth2''
             (tokenRequest (oaTokenEndpoint p) ''application/x-www-form-urlencoded'' [] (formEncode (oauth2Form p))) w of
        (Inl e, w1) \<Rightarrow> (Inl e, p, w1)
      | (Inr payload, w1) \<Rightarrow>
          (case map_of payload ''access_token'' of
             None \<Rightarrow> (Inl (EText ''auth: oauth2 response missing access_token''), p, w1)
           | Some (JString token) \<Rightarrow>
               if token = [] then (Inl (EText ''auth: oauth2 access_token is not a non-empty string''), p, w1)
               else (case keepToken I ''oauth2'' (oaCacheCfg p) token payload (oaCache p) w1 of
                       (r, c, w2) \<Rightarrow> (r, p\<lparr>oaCache := c\<rparr>, w2))
           | Some _ \<Rightarrow> (Inl (EText ''auth: oauth2 access_token is not a non-empty string''), p, w1)))"

definition OAuth2_getOrAcquireToken :: "'w idp \<Rightarrow> OAuth2 \<Rightarrow> 'w \<Rightarrow> (goError + string) \<times> OAuth2 \<times> 'w" where
  "OAuth2_getOrAcquireToken I p w =
     (case tokenCache_Get (idpNow I w) (tccSkew (oaCacheCfg p)) (oaCache p) of
        Some tok \<Rightarrow> (Inr tok, p, w)
      | None \<Rightarrow>
          if tccSingleFlight (oaCacheCfg p)
          then (case tokenCache_Get (idpNow I w) (tccSkew (oaCacheCfg p)) (oaCache p) of
                  Some tok \<Rightarrow> (Inr tok, p, w)
                | None \<Rightarrow> OAuth2_acquireToken I p w)
          else OAuth2_acquireToken I p w)"

definition OAuth2_Apply :: "'w idp \<Rightarrow> OAuth2 \<Rightarrow> httpRequest \<Rightarrow> 'w \<Rightarrow> goError option \<times> httpRequest \<times> OAuth2 \<times> 'w" where
  "OAuth2_Apply I p req w =
     (case OAuth2_getOrAcquireToken I p w of
        (Inl e, p1, w1) \<Rightarrow> (Some e, req, p1, w1)
      | (Inr token, p1, w1) \<Rightarrow>
          (None, Attach req (oaAttach p) (RenderValue (acFormat (oaAttach p)) token), p1, w1))"

definition OAuth2_Invalidate :: "OAuth2 \<Rightarrow> OAuth2" where
  "OAuth2_Invalidate p = p\<lparr>oaCache := tokenCache_Invalidate (oaCache p)\<rparr>"

subsection \<open>Credentials exchange\<close>

text \<open>Maps are association lists in insertion order; the caches are a map from identities.\<close>

record CredentialsExchange =
  ceName :: string
  ceTokenEndpoint :: string
  ceRequestCodec :: string
  ceRequestFields :: "(string \<times> string) list"
  ceRequestFieldsFromCtx :: "(string \<times> string) list"
  ceRequestHeaders :: "(string \<times> string) list"
  ceResponseTokenPath :: string
  ceAttach :: AttachConfig
  ceCacheCfg :: TokenCacheConfig
  ceRevocation :: bool
  ceCaches :: "string \<rightharpoonup> tokenCache"

record CredentialsExchangeOptions =
  coName :: string
  coTokenEndpoint :: string
  coRequestCodec :: string
  coRequestFields :: "(string \<times> string) list"
  coRequestFieldsFromCtx :: "(string \<times> string) list"
  coRequestHeaders :: "(string \<times> string) list"
  coResponseTokenPath :: string
  coAttach :: AttachConfig
  coCache :: TokenCacheConfig
  coRevocation :: bool

definition NewCredentialsExchangeProvider :: "CredentialsExchangeOptions \<Rightarrow> goError + CredentialsExchange" where
  "NewCredentialsExchangeProvider opts =
     (let who = ''auth: credentials-exchange '' @ quoted (coName opts);
          lowered = ToLower (TrimSpace (coRequestCodec opts));
          codec = (if lowered = [] then ''form-urlencoded'' else lowered)
      in if coTokenEndpoint opts = [] then Inl (EText (who @ '' requires tokenEndpoint''))
         else if coRequestFields opts = [] \<and> coRequestFieldsFromCtx opts = []
         then Inl (EText (who @ '' requires non-empty requestFields and/or requestFieldsFromCtx''))
         else if coResponseTokenPath opts = [] then Inl (EText (who @ '' requires responseTokenPath''))
         else if codec \<noteq> ''json'' \<and> codec \<noteq> ''form-urlencoded''
         then Inl (EText (who @ '': requestCodec '' @ quoted (coRequestCodec opts) @ '' is not one of json|form-urlencoded''))
         else Inr \<lparr>ceName = coName opts, ceTokenEndpoint = coTokenEndpoint opts, ceRequestCodec = codec,
                   ceRequestFields = coRequestFields opts, ceRequestFieldsFromCtx = coRequestFieldsFromCtx opts,
                   ceRequestHeaders = coRequestHeaders opts, ceResponseTokenPath = coResponseTokenPath opts,
                   ceAttach = defaultAttach ''Bearer {token}'' (coAttach opts), ceCacheCfg = coCache opts,
                   ceRevocation = coRevocation opts, ceCaches = Map.empty\<rparr>)"

fun ctxValueToString :: "ctxValue \<Rightarrow> string" where
  "ctxValueToString (CtxString s) = s"
| "ctxValueToString (CtxStringPtr None) = []"
| "ctxValueToString (CtxStringPtr (Some s)) = s"
| "ctxValueToString (CtxStringer s) = s"
| "ctxValueToString (CtxBool b) = (if b then ''true'' else ''false'')"
| "ctxValueToString CtxNil = []"
| "ctxValueToString (CtxPrinted s) = s"

text \<open>Assignment to a key of a map.\<close>

fun putField :: "string \<Rightarrow> string \<Rightarrow> (string \<times> string) list \<Rightarrow> (string \<times> string) list" where
  "putField k v [] = [(k, v)]"
| "putField k v ((k', v') # fs) = (if k' = k then (k, v) # fs else (k', v') # putField k v fs)"

text \<open>The loop over the sorted fields: the map of fields and what is written to the hash.\<close>

definition hashedField :: "string \<Rightarrow> string \<Rightarrow> string" where
  "hashedField field s = field @ [CHR 0x00] @ s @ [CHR 0x00]"

fun resolveLoop ::
  "CredentialsExchange \<Rightarrow> (string \<Rightarrow> ctxValue option) \<Rightarrow> string list \<Rightarrow> (string \<times> string) list \<Rightarrow> string \<Rightarrow>
   goError + (string \<times> string) list \<times> string" where
  "resolveLoop p reader [] out h = Inr (out, h)"
| "resolveLoop p reader (field # flds) out h =
     (let ctxKey = (case map_of (ceRequestFieldsFromCtx p) field of None \<Rightarrow> [] | Some k \<Rightarrow> k) in
      case reader ctxKey of
        None \<Rightarrow> Inl (EText (''auth: credentials-exchange '' @ quoted (ceName p) @ '': AppContext is missing key '' @
                           quoted ctxKey @ '' (required by requestFieldsFromCtx)''))
      | Some raw \<Rightarrow>
          let s = ctxValueToString raw in
          resolveLoop p reader flds (putField field s out) (h @ hashedField field s))"

definition resolveFields :: "'w idp \<Rightarrow> CredentialsExchange \<Rightarrow> goError + (string \<times> string) list \<times> string" where
  "resolveFields I p =
     (if ceRequestFieldsFromCtx p = [] then Inr (ceRequestFields p, [])
      else case idpContext I of
        None \<Rightarrow> Inl (EText (''auth: credentials-exchange '' @ quoted (ceName p) @
                           '': ctx-sourced fields require AppContext on the request''))
      | Some reader \<Rightarrow>
          (case resolveLoop p reader (sort (map fst (ceRequestFieldsFromCtx p))) (ceRequestFields p) [] of
             Inl e \<Rightarrow> Inl e
           | Inr (out, h) \<Rightarrow> Inr (out, idpSHA256 I h)))"

definition cacheFor :: "string \<Rightarrow> CredentialsExchange \<Rightarrow> tokenCache \<times> CredentialsExchange" where
  "cacheFor identity p =
     (case ceCaches p identity of
        Some c \<Rightarrow> (c, p)
      | None \<Rightarrow> (emptyTokenCache, p\<lparr>ceCaches := (ceCaches p)(identity \<mapsto> emptyTokenCache)\<rparr>))"

definition buildBody :: "'w idp \<Rightarrow> CredentialsExchange \<Rightarrow> (string \<times> string) list \<Rightarrow> goError + string \<times> string" where
  "buildBody I p flds =
     (if ceRequestCodec p = ''json'' then Inr (idpMarshal I flds, ''application/json'')
      else if ceRequestCodec p = ''form-urlencoded''
      then Inr (formEncode flds, ''application/x-www-form-urlencoded'')
      else Inl (EText (''auth: credentials-exchange: unsupported requestCodec '' @ quoted (ceRequestCodec p))))"

definition CE_acquireToken ::
  "'w idp \<Rightarrow> CredentialsExchange \<Rightarrow> tokenCache \<Rightarrow> (string \<times> string) list \<Rightarrow> 'w \<Rightarrow> (goError + string) \<times> tokenCache \<times> 'w" where
  "CE_acquireToken I p c flds w =
     (case buildBody I p flds of
        Inl e \<Rightarrow> (Inl e, c, w)
      | Inr (body, contentType) \<Rightarrow>
          (case fetchPayload I ''credentials-exchange''
                  (tokenRequest (ceTokenEndpoint p) contentType (ceRequestHeaders p) body) w of
             (Inl e, w1) \<Rightarrow> (Inl e, c, w1)
           | (Inr payload, w1) \<Rightarrow>
               (case walkJSONPath (ceResponseTokenPath p) (JObject payload) of
                  Inl e \<Rightarrow> (Inl (EWrap e), c, w1)
                | Inr (JString token) \<Rightarrow>
                    if token = [] then (Inl (EText (''auth: credentials-exchange: token at '' @ quoted (ceResponseTokenPath p) @
                                                 '' is not a non-empty string'')), c, w1)
                    else keepToken I ''credentials-exchange'' (ceCacheCfg p) token payload c w1
                | Inr _ \<Rightarrow> (Inl (EText (''auth: credentials-exchange: token at '' @ quoted (ceResponseTokenPath p) @
                                                 '' is not a non-empty string'')), c, w1))))"

text \<open>The cache that the acquisition wrote through its pointer.\<close>

definition storeIn ::
  "string \<Rightarrow> CredentialsExchange \<Rightarrow> (goError + string) \<times> tokenCache \<times> 'w \<Rightarrow> (goError + string) \<times> CredentialsExchange \<times> 'w" where
  "storeIn identity p res =
     (case res of (r, c, w) \<Rightarrow> (r, p\<lparr>ceCaches := (ceCaches p)(identity \<mapsto> c)\<rparr>, w))"

definition CE_getOrAcquireToken ::
  "'w idp \<Rightarrow> CredentialsExchange \<Rightarrow> string \<Rightarrow> (string \<times> string) list \<Rightarrow> 'w \<Rightarrow>
   (goError + string) \<times> CredentialsExchange \<times> 'w" where
  "CE_getOrAcquireToken I p identity flds w =
     (case cacheFor identity p of
        (c, p1) \<Rightarrow>
          (case tokenCache_Get (idpNow I w) (tccSkew (ceCacheCfg p)) c of
             Some tok \<Rightarrow> (Inr tok, p1, w)
           | None \<Rightarrow>
               if tccSingleFlight (ceCacheCfg p)
               then (case tokenCache_Get (idpNow I w) (tccSkew (ceCacheCfg p)) c of
                       Some tok \<Rightarrow> (Inr tok, p1, w)
                     | None \<Rightarrow> storeIn identity p1 (CE_acquireToken I p1 c flds w))
               else storeIn identity p1 (CE_acquireToken I p1 c flds w)))"

definition CE_Apply ::
  "'w idp \<Rightarrow> CredentialsExchange \<Rightarrow> httpRequest \<Rightarrow> 'w \<Rightarrow> goError option \<times> httpRequest \<times> CredentialsExchange \<times> 'w" where
  "CE_Apply I p req w =
     (case resolveFields I p of
        Inl e \<Rightarrow> (Some e, req, p, w)
      | Inr (flds, identity) \<Rightarrow>
          (case CE_getOrAcquireToken I p identity flds w of
             (Inl e, p1, w1) \<Rightarrow> (Some e, req, p1, w1)
           | (Inr token, p1, w1) \<Rightarrow>
               (None, Attach req (ceAttach p) (RenderValue (acFormat (ceAttach p)) token), p1, w1)))"

definition CE_Invalidate :: "CredentialsExchange \<Rightarrow> CredentialsExchange" where
  "CE_Invalidate p = p\<lparr>ceCaches := (\<lambda>i. map_option tokenCache_Invalidate (ceCaches p i))\<rparr>"

end
