(* ===== verification/Auth_Contract.thy ===== *)
theory Auth_Contract
  imports Http_Auth
begin

section \<open>What the token providers guarantee\<close>

text \<open>
  A credentials-exchange provider that serves many tenants: which token it attaches to the call of
  which tenant. The token endpoint is an adversary that answers from a script and records every
  exchange; contexts, invalidations and the passing of time come in any order.
\<close>

record idpWorld =
  iwScript :: "(goError + int \<times> (goError + string)) list"
  iwLog :: "(httpRequest \<times> int \<times> string) list"
  iwClock :: instant

definition scriptedDo :: "httpRequest \<Rightarrow> idpWorld \<Rightarrow> (goError + int \<times> (goError + string)) \<times> idpWorld" where
  "scriptedDo rq w =
     (case iwScript w of
        [] \<Rightarrow> (Inl (EText ''connection refused''), w)
      | Inr (st, Inr body) # as \<Rightarrow> (Inr (st, Inr body), w\<lparr>iwScript := as, iwLog := iwLog w @ [(rq, st, body)]\<rparr>)
      | a # as \<Rightarrow> (a, w\<lparr>iwScript := as\<rparr>))"

definition scriptedIdp :: "idpWorld idp \<Rightarrow> bool" where
  "scriptedIdp I \<longleftrightarrow> idpDo I = scriptedDo \<and> idpNow I = iwClock"

text \<open>The endpoint answered the credentials \<open>fs\<close> with the token.\<close>

definition answered :: "idpWorld idp \<Rightarrow> CredentialsExchange \<Rightarrow> idpWorld \<Rightarrow> (string \<times> string) list \<Rightarrow> string \<Rightarrow> bool" where
  "answered I p w fs token \<longleftrightarrow>
     (\<exists>rq st body payload ct.
        (rq, st, body) \<in> set (iwLog w) \<and> 200 \<le> st \<and> st < 300 \<and>
        buildBody I p fs = Inr (the (rqBody rq), ct) \<and> rqBody rq \<noteq> None \<and>
        idpJSON I body = Inr payload \<and> walkJSONPath (ceResponseTokenPath p) (JObject payload) = Inr (JString token))"

definition plainContext :: "(string \<Rightarrow> ctxValue option) option \<Rightarrow> bool" where
  "plainContext ctx \<longleftrightarrow>
     (\<forall>reader k v. ctx = Some reader \<and> reader k = Some v \<longrightarrow> CHR 0x00 \<notin> set (ctxValueToString v))"

inductive ceReach :: "idpWorld idp \<Rightarrow> CredentialsExchange \<times> idpWorld \<Rightarrow> CredentialsExchange \<times> idpWorld \<Rightarrow> bool"
  for I s0 where
  start: "ceReach I s0 s0"
| call: "ceReach I s0 (p, w) \<Longrightarrow> plainContext ctx \<Longrightarrow>
         CE_Apply (I\<lparr>idpContext := ctx\<rparr>) p req w = (err, req', p', w') \<Longrightarrow> ceReach I s0 (p', w')"
| revoke: "ceReach I s0 (p, w) \<Longrightarrow> ceReach I s0 (CE_Invalidate p, w)"
| tick: "ceReach I s0 (p, w) \<Longrightarrow> ceReach I s0 (p, w\<lparr>iwClock := t\<rparr>)"

subsection \<open>Identities\<close>

lemma resolveLoop_values:
  assumes "resolveLoop p reader ks out h = Inr (out', h')" and "plainContext (Some reader)"
  obtains vs where "length vs = length ks" and "out' = fold (\<lambda>(k, v). putField k v) (zip ks vs) out"
    and "h' = h @ concat (map (\<lambda>(k, v). hashedField k v) (zip ks vs))"
    and "\<forall>v\<in>set vs. CHR 0x00 \<notin> set v"
proof -
  have "\<exists>vs. length vs = length ks \<and> out' = fold (\<lambda>(k, v). putField k v) (zip ks vs) out \<and>
      h' = h @ concat (map (\<lambda>(k, v). hashedField k v) (zip ks vs)) \<and> (\<forall>v\<in>set vs. CHR 0x00 \<notin> set v)"
    using assms(1)
  proof (induction ks arbitrary: out h)
    case (Cons k ks)
    obtain raw where raw: "reader (case map_of (ceRequestFieldsFromCtx p) k of None \<Rightarrow> [] | Some k \<Rightarrow> k) = Some raw"
      using Cons.prems by (auto simp: Let_def split: option.splits)
    let ?s = "ctxValueToString raw"
    have "resolveLoop p reader ks (putField k ?s out) (h @ hashedField k ?s) = Inr (out', h')"
      using Cons.prems raw by (simp add: Let_def)
    from Cons.IH [OF this] obtain vs where "length vs = length ks"
        "out' = fold (\<lambda>(k, v). putField k v) (zip ks vs) (putField k ?s out)"
        "h' = (h @ hashedField k ?s) @ concat (map (\<lambda>(k, v). hashedField k v) (zip ks vs))"
        "\<forall>v\<in>set vs. CHR 0x00 \<notin> set v" by blast
    moreover have "CHR 0x00 \<notin> set ?s" using assms(2) raw by (auto simp: plainContext_def)
    ultimately show ?case by (intro exI [of _ "?s # vs"]) simp
  qed simp
  then show thesis using that by blast
qed

lemma hashedField_inj:
  assumes "hashedField k v @ r = hashedField k v' @ r'" and "CHR 0x00 \<notin> set v" and "CHR 0x00 \<notin> set v'"
  shows "v = v' \<and> r = r'"
  using assms(1) by (intro sep_first [OF _ assms(2,3)]) (simp add: hashedField_def)

lemma hashed_inj:
  assumes "length vs = length ks" and "length vs' = length ks"
    and "concat (map (\<lambda>(k, v). hashedField k v) (zip ks vs)) = concat (map (\<lambda>(k, v). hashedField k v) (zip ks vs'))"
    and "\<forall>v\<in>set vs. CHR 0x00 \<notin> set v" and "\<forall>v\<in>set vs'. CHR 0x00 \<notin> set v"
  shows "vs = vs'"
  using assms
proof (induction ks arbitrary: vs vs')
  case (Cons k ks)
  then obtain v ws v' ws' where vs: "vs = v # ws" "vs' = v' # ws'" by (metis length_Suc_conv)
  have "v = v' \<and> concat (map (\<lambda>(k, v). hashedField k v) (zip ks ws)) =
                concat (map (\<lambda>(k, v). hashedField k v) (zip ks ws'))"
    using Cons.prems vs by (intro hashedField_inj) simp_all
  then show ?case using Cons.IH [of ws ws'] Cons.prems vs by simp
qed simp

lemma resolveFields_inj:
  assumes "inj (idpSHA256 I)" and "plainContext ctx" and "plainContext ctx'"
    and "resolveFields (I\<lparr>idpContext := ctx\<rparr>) p = Inr (fs, i)"
    and "resolveFields (I\<lparr>idpContext := ctx'\<rparr>) p = Inr (fs', i)"
  shows "fs = fs'"
proof (cases "ceRequestFieldsFromCtx p = []")
  case True
  then show ?thesis using assms(4,5) by (simp add: resolveFields_def)
next
  case False
  let ?ks = "sort (map fst (ceRequestFieldsFromCtx p))"
  obtain reader h where h: "ctx = Some reader" "resolveLoop p reader ?ks (ceRequestFields p) [] = Inr (fs, h)"
      "i = idpSHA256 I h"
    using assms(4) False by (auto simp: resolveFields_def split: option.splits sum.splits)
  obtain reader' h' where h': "ctx' = Some reader'" "resolveLoop p reader' ?ks (ceRequestFields p) [] = Inr (fs', h')"
      "i = idpSHA256 I h'"
    using assms(5) False by (auto simp: resolveFields_def split: option.splits sum.splits)
  have "h = h'" using h(3) h'(3) assms(1) by (simp add: inj_eq)
  have plain: "plainContext (Some reader)" "plainContext (Some reader')" using assms(2,3) h(1) h'(1) by simp_all
  obtain vs where vs: "length vs = length ?ks" "fs = fold (\<lambda>(k, v). putField k v) (zip ?ks vs) (ceRequestFields p)"
      "h = [] @ concat (map (\<lambda>(k, v). hashedField k v) (zip ?ks vs))" "\<forall>v\<in>set vs. CHR 0x00 \<notin> set v"
    by (rule resolveLoop_values [OF h(2) plain(1)])
  obtain vs' where vs': "length vs' = length ?ks" "fs' = fold (\<lambda>(k, v). putField k v) (zip ?ks vs') (ceRequestFields p)"
      "h' = [] @ concat (map (\<lambda>(k, v). hashedField k v) (zip ?ks vs'))" "\<forall>v\<in>set vs'. CHR 0x00 \<notin> set v"
    by (rule resolveLoop_values [OF h'(2) plain(2)])
  have "vs = vs'"
    using \<open>h = h'\<close> vs(3) vs'(3) by (intro hashed_inj [OF vs(1) vs'(1) _ vs(4) vs'(4)]) simp
  then show ?thesis using vs(2) vs'(2) by simp
qed

subsection \<open>Acquisition\<close>

lemma fetchPayload_logs:
  assumes "scriptedIdp I" and "fetchPayload I who req w = (r, w')"
  shows "set (iwLog w) \<subseteq> set (iwLog w')"
    and "r = Inr payload \<Longrightarrow>
         \<exists>st body. (req, st, body) \<in> set (iwLog w') \<and> 200 \<le> st \<and> st < 300 \<and> idpJSON I body = Inr payload"
  using assms
  by (auto simp: fetchPayload_def scriptedIdp_def scriptedDo_def not_less not_le
      split: option.splits sum.splits list.splits if_splits prod.splits) blast

lemma keepToken_simps:
  "keepToken I who cfg token payload c w = (r, c', w') \<Longrightarrow>
   w' = w \<and> (c' = c \<or> tcToken c' = token) \<and> (\<forall>t. r = Inr t \<longrightarrow> t = token)"
  by (auto simp: keepToken_def tokenCache_Set_def split: sum.splits)

lemma CE_acquireToken_answered:
  assumes "scriptedIdp I" and "CE_acquireToken I p c fs w = (r, c', w')"
  shows "set (iwLog w) \<subseteq> set (iwLog w')" and "c' = c \<or> answered I p w' fs (tcToken c')"
    and "r = Inr token \<Longrightarrow> answered I p w' fs token"
proof -
  show "set (iwLog w) \<subseteq> set (iwLog w')"
    using assms(2) fetchPayload_logs(1) [OF assms(1)] unfolding CE_acquireToken_def
    by (fastforce split: sum.splits prod.splits json.splits if_splits dest!: keepToken_simps)
  have got: "answered I p w1 fs token"
    if "buildBody I p fs = Inr (body, ct)" and "fetchPayload I who (tokenRequest ep ct hs body) w = (Inr payload, w1)"
      and "walkJSONPath (ceResponseTokenPath p) (JObject payload) = Inr (JString token)"
    for body ct who ep hs payload w1 token
    using fetchPayload_logs(2) [OF assms(1) that(2), of payload] that(1,3)
    unfolding answered_def by (fastforce simp: tokenRequest_def)
  show "c' = c \<or> answered I p w' fs (tcToken c')"
    using assms(2) unfolding CE_acquireToken_def
    by (auto split: sum.splits prod.splits json.splits if_splits dest!: keepToken_simps intro: got)
  show "answered I p w' fs token" if "r = Inr token"
    using assms(2) that unfolding CE_acquireToken_def
    by (auto split: sum.splits prod.splits json.splits if_splits dest!: keepToken_simps intro: got)
qed

subsection \<open>Tenants\<close>

definition goodEntry :: "idpWorld idp \<Rightarrow> CredentialsExchange \<Rightarrow> idpWorld \<Rightarrow> string \<Rightarrow> tokenCache \<Rightarrow> bool" where
  "goodEntry I p w i c \<longleftrightarrow>
     tcToken c = [] \<or>
     (\<exists>ctx fs. plainContext ctx \<and> resolveFields (I\<lparr>idpContext := ctx\<rparr>) p = Inr (fs, i) \<and> answered I p w fs (tcToken c))"

definition tenantInv :: "idpWorld idp \<Rightarrow> CredentialsExchange \<Rightarrow> CredentialsExchange \<times> idpWorld \<Rightarrow> bool" where
  "tenantInv I p0 s \<longleftrightarrow>
     (fst s)\<lparr>ceCaches := ceCaches p0\<rparr> = p0 \<and> (\<forall>i c. ceCaches (fst s) i = Some c \<longrightarrow> goodEntry I p0 (snd s) i c)"

text \<open>Neither the context nor the caches matter to what is sent and how an answer is read.\<close>

lemma ce_context [simp]:
  "answered (I\<lparr>idpContext := ctx\<rparr>) p w fs t = answered I p w fs t"
  "answered I (p\<lparr>ceCaches := m\<rparr>) w fs t = answered I p w fs t"
  "scriptedIdp (I\<lparr>idpContext := ctx\<rparr>) = scriptedIdp I"
  by (simp_all add: answered_def scriptedIdp_def buildBody_def)

lemma resolveLoop_caches: "resolveLoop (p\<lparr>ceCaches := m\<rparr>) reader ks out h = resolveLoop p reader ks out h"
  by (induction ks arbitrary: out h) (auto simp: Let_def split: option.splits)

lemma resolveFields_caches: "resolveFields I (p\<lparr>ceCaches := m\<rparr>) = resolveFields I p"
  by (simp add: resolveFields_def resolveLoop_caches split: option.splits)

lemma answered_mono: "set (iwLog w) \<subseteq> set (iwLog w') \<Longrightarrow> answered I p w fs t \<Longrightarrow> answered I p w' fs t"
  unfolding answered_def by blast

text \<open>One call: the token it returns was answered for its own credentials, and so are the cached ones.\<close>

lemma getOrAcquire_answered:
  assumes "scriptedIdp I" and "inj (idpSHA256 I)" and inv: "tenantInv I p0 (p, w)" and "plainContext ctx"
    and fs: "resolveFields (I\<lparr>idpContext := ctx\<rparr>) p = Inr (fs, i)"
    and got: "CE_getOrAcquireToken (I\<lparr>idpContext := ctx\<rparr>) p i fs w = (r, p', w')"
  shows "tenantInv I p0 (p', w')" and "r = Inr token \<Longrightarrow> answered I p0 w' fs token"
proof -
  let ?I = "I\<lparr>idpContext := ctx\<rparr>"
  obtain c p1 where c: "cacheFor i p = (c, p1)" by (metis prod.exhaust)
  have p: "p\<lparr>ceCaches := ceCaches p0\<rparr> = p0" using inv by (simp add: tenantInv_def)
  have p1: "p1 = p\<lparr>ceCaches := ceCaches p1\<rparr>" "\<And>j. j \<noteq> i \<Longrightarrow> ceCaches p1 j = ceCaches p j" "ceCaches p1 i = Some c"
      "tcToken c \<noteq> [] \<Longrightarrow> ceCaches p i = Some c"
    using c by (auto simp: cacheFor_def emptyTokenCache_def split: option.splits)
  have p1': "p1\<lparr>ceCaches := m\<rparr> = p0\<lparr>ceCaches := m\<rparr>" for m using p p1(1)
    by (metis CredentialsExchange.surjective CredentialsExchange.update_convs(11))
  have fs0: "resolveFields ?I p0 = Inr (fs, i)" using fs resolveFields_caches p by metis
  have good: "goodEntry I p0 w i c"
    using inv p1(4) by (auto simp: tenantInv_def goodEntry_def)
  have cached: "answered I p0 w fs (tcToken c)" if "tcToken c \<noteq> []"
    using good that resolveFields_inj [OF assms(2) _ assms(4) _ fs0] unfolding goodEntry_def by fastforce
  have others: "goodEntry I p0 w j d" if "j \<noteq> i" "ceCaches p1 j = Some d" for j d
    using inv that p1(2) [OF that(1)] by (simp add: tenantInv_def)
  have hit: "tenantInv I p0 (p1, w)"
  proof -
    have "goodEntry I p0 w j d" if "ceCaches p1 j = Some d" for j d
      using others [OF _ that] good p1(3) that by (cases "j = i") simp_all
    then show ?thesis using p1' [of "ceCaches p0"] by (simp add: tenantInv_def)
  qed
  have miss: "tenantInv I p0 (q, v) \<and> (\<forall>t. s = Inr t \<longrightarrow> answered I p0 v fs t)"
    if q: "storeIn i p1 (CE_acquireToken ?I p1 c fs w) = (s, q, v)" for s q v
  proof -
    obtain c1 where acq: "CE_acquireToken ?I p1 c fs w = (s, c1, v)" and q': "q = p1\<lparr>ceCaches := (ceCaches p1)(i \<mapsto> c1)\<rparr>"
      using q by (auto simp: storeIn_def split: prod.splits)
    have "answered ?I p1 x fs t = answered I p0 x fs t" for x t
      using p1' [of "ceCaches p0"] ce_context(2) by (metis ce_context(1))
    note got = CE_acquireToken_answered [OF _ acq, unfolded ce_context(3) this, OF assms(1)]
    have "goodEntry I p0 v i c1"
    proof (cases "tcToken c1 = []")
      case False
      then have "answered I p0 v fs (tcToken c1)"
        using got(2) answered_mono [OF got(1) cached] by (cases "c1 = c") simp_all
      then show ?thesis using fs0 assms(4) unfolding goodEntry_def by blast
    qed (simp add: goodEntry_def)
    moreover have "goodEntry I p0 v j d" if "j \<noteq> i" "ceCaches p1 j = Some d" for j d
      using others [OF that] answered_mono [OF got(1)] unfolding goodEntry_def by blast
    ultimately have "tenantInv I p0 (q, v)"
      using q' p1' [of "ceCaches p0"] unfolding tenantInv_def by auto
    then show ?thesis using got(3) by blast
  qed
  have "tenantInv I p0 (p', w') \<and> (\<forall>t. r = Inr t \<longrightarrow> answered I p0 w' fs t)"
  proof (cases "tokenCache_Get (idpNow ?I w) (tccSkew (ceCacheCfg p)) c")
    case None
    then show ?thesis using got c miss by (auto simp: CE_getOrAcquireToken_def split: if_splits)
  next
    case (Some t)
    then have "tcToken c = t" "tcToken c \<noteq> []" by (auto simp: tokenCache_Get_def split: if_splits)
    then show ?thesis using got c Some hit cached by (auto simp: CE_getOrAcquireToken_def)
  qed
  then show "tenantInv I p0 (p', w')" and "r = Inr token \<Longrightarrow> answered I p0 w' fs token" by auto
qed

lemma CE_Apply_cases:
  assumes "CE_Apply I p req w = (err, req', p', w')"
  obtains "p' = p" "w' = w" "err \<noteq> None"
  | fs i r where "resolveFields I p = Inr (fs, i)" "CE_getOrAcquireToken I p i fs w = (r, p', w')"
      "err = None \<longrightarrow> (\<exists>token. r = Inr token \<and> req' = Attach req (ceAttach p) (RenderValue (acFormat (ceAttach p)) token))"
  using assms by (auto simp: CE_Apply_def split: sum.splits prod.splits)

lemma goodEntry_world: "iwLog w' = iwLog w \<Longrightarrow> goodEntry I p w' i c = goodEntry I p w i c"
  by (simp add: goodEntry_def answered_def)

lemma ceReach_inv:
  assumes "scriptedIdp I" and "inj (idpSHA256 I)" and "ceCaches p0 = Map.empty" and "ceReach I (p0, w0) s"
  shows "tenantInv I p0 s"
  using assms(4)
proof induction
  case start
  then show ?case using assms(3) by (simp add: tenantInv_def)
next
  case (call p w ctx req err req' p' w')
  from call.hyps(3) show ?case
  proof (cases rule: CE_Apply_cases)
    case 1
    then show ?thesis using call.IH by simp
  next
    case (2 fs i r)
    then show ?thesis using getOrAcquire_answered(1) [OF assms(1,2) call.IH call.hyps(2)] by blast
  qed
next
  case (revoke p w)
  then show ?case
    by (auto simp: tenantInv_def CE_Invalidate_def goodEntry_def tokenCache_Invalidate_def)
next
  case (tick p w t)
  then show ?case using goodEntry_world [of "w\<lparr>iwClock := t\<rparr>" w] by (simp add: tenantInv_def)
qed


definition demoIdp :: "idpWorld idp" where
  "demoIdp =
     \<lparr>idpNow = iwClock, idpParseURL = (\<lambda>_. None), idpDo = scriptedDo, idpJSON = (\<lambda>s. Inr [(''token'', JString s)]),
      idpMarshal = (\<lambda>fs. concat (map snd fs)), idpPayload = Inr, idpRFC3339 = (\<lambda>s. Inr 0), idpSHA256 = (\<lambda>s. s),
      idpBearer = None, idpContext = None\<rparr>"

definition demoOpts :: CredentialsExchangeOptions where
  "demoOpts =
     \<lparr>coName = ''erp'', coTokenEndpoint = ''https://idp/token'', coRequestCodec = [],
      coRequestFields = [(''grant_type'', ''password'')],
      coRequestFieldsFromCtx = [(''user'', ''tenant.user''), (''pass'', ''tenant.pass'')], coRequestHeaders = [],
      coResponseTokenPath = ''$.token'', coAttach = noAttach,
      coCache = \<lparr>tccSource = SourceTTL, tccSkew = 5, tccSingleFlight = True, tccJSONPath = [], tccUnit = UnitUnknown,
                 tccTTL = 60\<rparr>,
      coRevocation = True\<rparr>"

definition demoProvider :: CredentialsExchange where
  "demoProvider = (case NewCredentialsExchangeProvider demoOpts of Inr p \<Rightarrow> p | Inl _ \<Rightarrow> undefined)"

definition tenant :: "string \<Rightarrow> string \<Rightarrow> (string \<Rightarrow> ctxValue option) option" where
  "tenant user pass = Some [''tenant.user'' \<mapsto> CtxString user, ''tenant.pass'' \<mapsto> CtxString pass]"

definition demoWorld :: idpWorld where
  "demoWorld = \<lparr>iwScript = [Inr (200, Inr ''token-a''), Inr (200, Inr ''token-b'')], iwLog = [], iwClock = 0\<rparr>"

definition demoRequest :: httpRequest where
  "demoRequest = \<lparr>rqMethod = ''GET'', rqPath = ''/orders'', rqQuery = [], rqHeader = Map.empty, rqBody = None,
                  rqContentLength = 0\<rparr>"

lemma tenant_plain: "CHR 0x00 \<notin> set user \<Longrightarrow> CHR 0x00 \<notin> set pass \<Longrightarrow> plainContext (tenant user pass)"
  by (auto simp: plainContext_def tenant_def split: if_splits)

lemma demoIdp_laws: "scriptedIdp demoIdp" "inj (idpSHA256 demoIdp)"
  by (simp_all add: scriptedIdp_def demoIdp_def)

lemma demoProvider_new: "NewCredentialsExchangeProvider demoOpts = Inr demoProvider"
  by (simp add: demoProvider_def NewCredentialsExchangeProvider_def demoOpts_def Let_def TrimSpace_def ToLower_def)


text \<open>Identities are separated by NUL bytes that are not escaped. Two tenants whose credentials
  differ, but where one value carries a NUL byte, resolve to the same identity, so the second
  is served the cached token of the first without a request to the token endpoint.
\<close>

theorem nul_byte_merges_tenants:
  "(let a = tenant ''u'' (''p'' @ [CHR 0x00] @ ''user'' @ [CHR 0x00] @ ''q'');
        b = tenant (''q'' @ [CHR 0x00] @ ''user'' @ [CHR 0x00] @ ''u'') ''p'';
        (e1, r1, p1, w1) = CE_Apply (demoIdp\<lparr>idpContext := a\<rparr>) demoProvider demoRequest demoWorld;
        (e2, r2, p2, w2) = CE_Apply (demoIdp\<lparr>idpContext := b\<rparr>) p1 demoRequest w1
    in e1 = None \<and> e2 = None \<and> length (iwLog w2) = 1 \<and>
       headerGet (rqHeader r2) ''Authorization'' = ''Bearer token-a'' \<and>
       map_option fst (case resolveFields (demoIdp\<lparr>idpContext := a\<rparr>) demoProvider of Inr x \<Rightarrow> Some x | Inl _ \<Rightarrow> None) \<noteq>
       map_option fst (case resolveFields (demoIdp\<lparr>idpContext := b\<rparr>) demoProvider of Inr x \<Rightarrow> Some x | Inl _ \<Rightarrow> None))"
  by code_simp

text \<open>A credential that is attached as a cookie is added, not replaced. When the provider is
  applied a second time to the same request, after a 401, the request carries the rejected token
  in front of the fresh one.
\<close>

theorem cookie_credential_is_attached_twice:
  "headerGet (rqHeader (Attach (Attach r \<lparr>acKind = AttachCookie, acName = n, acFormat = [], acValue = []\<rparr> stale)
                             \<lparr>acKind = AttachCookie, acName = n, acFormat = [], acValue = []\<rparr> fresh)) ''Cookie''
   = (if headerGet (rqHeader r) ''Cookie'' = [] then [] else headerGet (rqHeader r) ''Cookie'' @ ''; '') @
     n @ ''='' @ stale @ ''; '' @ n @ ''='' @ fresh"
  by (simp add: Attach_def AddCookie_def Let_def)

end
