(* ===== verification/Http_Config.thy ===== *)
theory Http_Config
  imports Http_Auth
begin

section \<open>Configuration of the HTTP client\<close>

text \<open>
  Model of \<^verbatim>\<open>src/infra/httpclient\<close>: \<^verbatim>\<open>config.go\<close>, \<^verbatim>\<open>service_config.go\<close>, \<^verbatim>\<open>validate.go\<close>,
  \<^verbatim>\<open>tls_config.go\<close>, \<^verbatim>\<open>auth_config.go\<close> and the constructors of \<^verbatim>\<open>service_client.go\<close> and \<^verbatim>\<open>client.go\<close>.
  Maps of the configuration are association lists with distinct keys, in the order in which the
  program happens to iterate. The parser of URLs and the readers of certificate files are
  arguments; a name clash of the YAML and the runtime view is resolved by the suffix \<open>YAML\<close>.
\<close>

subsection \<open>TLS and connection pool\<close>

record TLSConfig =
  tlMinVersion :: string
  tlCipherSuites :: "string list option"
  tlInsecureSkipVerify :: "bool option"
  tlClientCertFile :: string
  tlClientKeyFile :: string
  tlCABundle :: string

record PoolConfig =
  plMaxIdleConnsPerHost :: int
  plMaxConnsPerHost :: int
  plIdleConnTimeout :: duration
  plDisableKeepAlives :: "bool option"

text \<open>A cipher suite is named by its constant of \<^verbatim>\<open>crypto/tls\<close>.\<close>

definition cipherSuitePresets :: "(string \<times> string list) list" where
  "cipherSuitePresets =
     [(''modern'', [''TLS_AES_128_GCM_SHA256'', ''TLS_AES_256_GCM_SHA384'', ''TLS_CHACHA20_POLY1305_SHA256'']),
      (''intermediate'',
       [''TLS_ECDHE_ECDSA_WITH_AES_128_GCM_SHA256'', ''TLS_ECDHE_RSA_WITH_AES_128_GCM_SHA256'',
        ''TLS_ECDHE_ECDSA_WITH_AES_256_GCM_SHA384'', ''TLS_ECDHE_RSA_WITH_AES_256_GCM_SHA384'',
        ''TLS_ECDHE_ECDSA_WITH_CHACHA20_POLY1305'', ''TLS_ECDHE_RSA_WITH_CHACHA20_POLY1305'']),
      (''legacy'',
       [''TLS_ECDHE_ECDSA_WITH_AES_128_GCM_SHA256'', ''TLS_ECDHE_RSA_WITH_AES_128_GCM_SHA256'',
        ''TLS_ECDHE_ECDSA_WITH_AES_256_GCM_SHA384'', ''TLS_ECDHE_RSA_WITH_AES_256_GCM_SHA384'',
        ''TLS_ECDHE_ECDSA_WITH_AES_128_CBC_SHA'', ''TLS_ECDHE_RSA_WITH_AES_128_CBC_SHA'',
        ''TLS_RSA_WITH_AES_128_GCM_SHA256'', ''TLS_RSA_WITH_AES_256_GCM_SHA384'', ''TLS_RSA_WITH_AES_128_CBC_SHA''])]"

definition explicitCipherNames :: "string list" where
  "explicitCipherNames =
     [''TLS_AES_128_GCM_SHA256'', ''TLS_AES_256_GCM_SHA384'', ''TLS_CHACHA20_POLY1305_SHA256'',
      ''TLS_ECDHE_ECDSA_WITH_AES_128_GCM_SHA256'', ''TLS_ECDHE_RSA_WITH_AES_128_GCM_SHA256'',
      ''TLS_ECDHE_ECDSA_WITH_AES_256_GCM_SHA384'', ''TLS_ECDHE_RSA_WITH_AES_256_GCM_SHA384'',
      ''TLS_ECDHE_ECDSA_WITH_CHACHA20_POLY1305'', ''TLS_ECDHE_RSA_WITH_CHACHA20_POLY1305'',
      ''TLS_ECDHE_ECDSA_WITH_AES_128_CBC_SHA'', ''TLS_ECDHE_RSA_WITH_AES_128_CBC_SHA'',
      ''TLS_RSA_WITH_AES_128_GCM_SHA256'', ''TLS_RSA_WITH_AES_256_GCM_SHA384'', ''TLS_RSA_WITH_AES_128_CBC_SHA'']"

definition supportedTLSVersions :: "(string \<times> int) list" where
  "supportedTLSVersions = [(''1.0'', 0x0301), (''1.1'', 0x0302), (''1.2'', 0x0303), (''1.3'', 0x0304)]"

fun explicitSuites :: "string list \<Rightarrow> goError + string list" where
  "explicitSuites [] = Inr []"
| "explicitSuites (raw # rest) =
     (let name = ToUpper (TrimSpace raw) in
      if name \<notin> set explicitCipherNames then Inl (EText (''tls: unknown cipher suite '' @ quoted raw))
      else case explicitSuites rest of Inl e \<Rightarrow> Inl e | Inr out \<Rightarrow> Inr (name # out))"

definition resolveCipherSuites :: "string list \<Rightarrow> goError + string list" where
  "resolveCipherSuites input =
     (case input of
        [name] \<Rightarrow> (case map_of cipherSuitePresets (ToLower name) of Some preset \<Rightarrow> Inr preset | None \<Rightarrow> explicitSuites input)
      | _ \<Rightarrow> explicitSuites input)"

definition mergeTLSConfig :: "TLSConfig option \<Rightarrow> TLSConfig option \<Rightarrow> TLSConfig option" where
  "mergeTLSConfig defaults service =
     (case (defaults, service) of
        (None, None) \<Rightarrow> None
      | (Some d, None) \<Rightarrow> Some d
      | (od, Some s) \<Rightarrow>
          let d = (case od of
                     None \<Rightarrow> \<lparr>tlMinVersion = [], tlCipherSuites = None, tlInsecureSkipVerify = None,
                              tlClientCertFile = [], tlClientKeyFile = [], tlCABundle = []\<rparr>
                   | Some d \<Rightarrow> d)
          in Some \<lparr>tlMinVersion = (if tlMinVersion s \<noteq> [] then tlMinVersion s else tlMinVersion d),
                   tlCipherSuites = (if tlCipherSuites s \<noteq> None then tlCipherSuites s else tlCipherSuites d),
                   tlInsecureSkipVerify =
                     (if tlInsecureSkipVerify s \<noteq> None then tlInsecureSkipVerify s else tlInsecureSkipVerify d),
                   tlClientCertFile = (if tlClientCertFile s \<noteq> [] then tlClientCertFile s else tlClientCertFile d),
                   tlClientKeyFile = (if tlClientKeyFile s \<noteq> [] then tlClientKeyFile s else tlClientKeyFile d),
                   tlCABundle = (if tlCABundle s \<noteq> [] then tlCABundle s else tlCABundle d)\<rparr>)"

text \<open>The readers of the certificate pair and of the CA bundle: \<open>None\<close> when the file is usable.\<close>

record certFiles =
  cfKeyPair :: "string \<Rightarrow> string \<Rightarrow> goError option"
  cfBundle :: "string \<Rightarrow> goError option"

record tlsRuntime =
  trMinVersion :: int
  trCipherSuites :: "string list"
  trInsecureSkipVerify :: bool
  trCertificates :: "(string \<times> string) list"
  trRootCAs :: "string option"

definition loadCertPair :: "certFiles \<Rightarrow> string \<Rightarrow> string \<Rightarrow> goError option" where
  "loadCertPair F certFile keyFile =
     (if certFile = [] \<or> keyFile = [] then Some (EText ''tls: clientCertFile and clientKeyFile must both be set'')
      else map_option EWrap (cfKeyPair F certFile keyFile))"

definition resolveTLSConfig ::
  "certFiles \<Rightarrow> TLSConfig option \<Rightarrow> TLSConfig option \<Rightarrow> goError + tlsRuntime option" where
  "resolveTLSConfig F defaults service =
     (case mergeTLSConfig defaults service of
        None \<Rightarrow> Inr None
      | Some m \<Rightarrow>
          let suites = (case tlCipherSuites m of None \<Rightarrow> [] | Some xs \<Rightarrow> xs);
              wantsCert = (tlClientCertFile m \<noteq> [] \<or> tlClientKeyFile m \<noteq> []);
              version = (if tlMinVersion m = [] then Some 0x0303 else map_of supportedTLSVersions (tlMinVersion m))
          in case version of
               None \<Rightarrow> Inl (EText (''tls: minVersion '' @ quoted (tlMinVersion m) @ '' is not one of 1.0|1.1|1.2|1.3''))
             | Some v \<Rightarrow>
                 (case (if suites = [] then Inr [] else resolveCipherSuites suites) of
                    Inl e \<Rightarrow> Inl e
                  | Inr ciphers \<Rightarrow>
                      (case (if wantsCert then loadCertPair F (tlClientCertFile m) (tlClientKeyFile m) else None) of
                         Some e \<Rightarrow> Inl e
                       | None \<Rightarrow>
                           (case (if tlCABundle m \<noteq> [] then map_option EWrap (cfBundle F (tlCABundle m)) else None) of
                              Some e \<Rightarrow> Inl e
                            | None \<Rightarrow>
                                Inr (Some \<lparr>trMinVersion = v, trCipherSuites = ciphers,
                                           trInsecureSkipVerify = (tlInsecureSkipVerify m = Some True),
                                           trCertificates =
                                             (if wantsCert then [(tlClientCertFile m, tlClientKeyFile m)] else []),
                                           trRootCAs = (if tlCABundle m \<noteq> [] then Some (tlCABundle m) else None)\<rparr>)))))"

definition applyPool :: "PoolConfig option \<Rightarrow> int \<times> int \<times> duration \<times> bool \<Rightarrow> int \<times> int \<times> duration \<times> bool" where
  "applyPool oc pool =
     (case (oc, pool) of
        (None, _) \<Rightarrow> pool
      | (Some cfg, maxIdle, maxConns, idleTimeout, disableKA) \<Rightarrow>
          (if plMaxIdleConnsPerHost cfg > 0 then plMaxIdleConnsPerHost cfg else maxIdle,
           if plMaxConnsPerHost cfg > 0 then plMaxConnsPerHost cfg else maxConns,
           if plIdleConnTimeout cfg > 0 then plIdleConnTimeout cfg else idleTimeout,
           case plDisableKeepAlives cfg of None \<Rightarrow> disableKA | Some b \<Rightarrow> b))"

definition resolvePoolConfig :: "PoolConfig option \<Rightarrow> PoolConfig option \<Rightarrow> int \<times> int \<times> duration \<times> bool" where
  "resolvePoolConfig defaults service = applyPool service (applyPool defaults (100, 200, 90 * second, False))"

definition validateTLSConfig :: "string \<Rightarrow> TLSConfig option \<Rightarrow> string list" where
  "validateTLSConfig prefix oc =
     (case oc of
        None \<Rightarrow> []
      | Some cfg \<Rightarrow>
          (if tlMinVersion cfg \<noteq> [] \<and> map_of supportedTLSVersions (tlMinVersion cfg) = None
           then [prefix @ ''.minVersion: '' @ quoted (tlMinVersion cfg) @ '' is not one of 1.0|1.1|1.2|1.3''] else []) @
          (case tlCipherSuites cfg of
             Some (s # ss) \<Rightarrow>
               (case resolveCipherSuites (s # ss) of
                  Inl (EText m) \<Rightarrow> [prefix @ ''.cipherSuites: '' @ m]
                | Inl _ \<Rightarrow> [prefix @ ''.cipherSuites'']
                | Inr _ \<Rightarrow> [])
           | _ \<Rightarrow> []) @
          (if tlClientCertFile cfg \<noteq> [] \<and> tlClientKeyFile cfg = []
           then [prefix @ ''.clientKeyFile: required when clientCertFile is set''] else []) @
          (if tlClientKeyFile cfg \<noteq> [] \<and> tlClientCertFile cfg = []
           then [prefix @ ''.clientCertFile: required when clientKeyFile is set''] else []))"

definition validatePoolConfig :: "string \<Rightarrow> PoolConfig option \<Rightarrow> string list" where
  "validatePoolConfig prefix oc =
     (case oc of
        None \<Rightarrow> []
      | Some cfg \<Rightarrow>
          (if plMaxIdleConnsPerHost cfg < 0 then [prefix @ ''.maxIdleConnsPerHost: must be non-negative''] else []) @
          (if plMaxConnsPerHost cfg < 0 then [prefix @ ''.maxConnsPerHost: must be non-negative''] else []) @
          (if plIdleConnTimeout cfg < 0 then [prefix @ ''.idleConnTimeout: must be non-negative''] else []))"

definition indexed :: "string \<Rightarrow> nat \<Rightarrow> string" where
  "indexed s i = s @ ''['' @ Itoa (int i) @ '']: ''"

definition validateRedactionConfig :: "string \<Rightarrow> RedactionConfig option \<Rightarrow> string list" where
  "validateRedactionConfig prefix oc =
     (case oc of
        None \<Rightarrow> []
      | Some cfg \<Rightarrow>
          concat (map (\<lambda>(i, h). if TrimSpace h = [] then [prefix @ indexed ''.headers'' i @ ''empty string''] else [])
                      (enumerate 0 (rdHeaders cfg))) @
          concat (map (\<lambda>(i, p). if TrimSpace p = [] then [prefix @ indexed ''.bodyJSONPath'' i @ ''empty string'']
                                else if \<not> HasPrefix (TrimSpace p) ''$''
                                then [prefix @ indexed ''.bodyJSONPath'' i @ quoted p @ '' must start with $''] else [])
                      (enumerate 0 (rdBodyJSONPath cfg))) @
          concat (map (\<lambda>(i, k). if TrimSpace k = [] then [prefix @ indexed ''.queryKeys'' i @ ''empty string''] else [])
                      (enumerate 0 (rdQueryKeys cfg))))"

subsection \<open>Auth providers\<close>

record TokenCacheYAML =
  tySource :: string
  tySkew :: duration
  tySingleFlight :: "bool option"
  tyJSONPath :: string
  tyUnit :: string
  tyTTL :: duration

record AttachYAML =
  ayAs :: string
  ayName :: string
  ayFormat :: string
  ayValue :: string

record AuthProviderConfig =
  apType :: string
  apAttach :: "AttachYAML option"
  apToken :: string
  apUsername :: string
  apPassword :: string
  apTokenEndpoint :: string
  apClientID :: string
  apClientSecret :: string
  apScope :: "string list"
  apAudience :: string
  apTokenCache :: "TokenCacheYAML option"
  apRevocationOnUnauthorized :: bool
  apRequestCodec :: string
  apRequestFields :: "(string \<times> string) list"
  apRequestFieldsFromCtx :: "(string \<times> string) list"
  apRequestHeaders :: "(string \<times> string) list"
  apResponseTokenPath :: string

definition supportedAuthTypes :: "string list" where
  "supportedAuthTypes =
     [''none'', ''header-static'', ''bearer-static'', ''basic'', ''forward-bearer'', ''oauth2-client-credentials'',
      ''credentials-exchange'']"

definition validateTokenCacheConfig :: "string \<Rightarrow> TokenCacheYAML option \<Rightarrow> string list" where
  "validateTokenCacheConfig prefix oc =
     (case oc of
        None \<Rightarrow> [prefix @ '': required'']
      | Some cfg \<Rightarrow>
          let source = ToLower (TrimSpace (tySource cfg)) in
          (if source \<in> {''jwt-exp'', ''response-field'', ''ttl''} then []
           else if source = [] then [prefix @ ''.source: required (jwt-exp|response-field|ttl)'']
           else [prefix @ ''.source: '' @ quoted (tySource cfg) @ '' is not one of jwt-exp|response-field|ttl'']) @
          (if tySkew cfg < 0 then [prefix @ ''.skew: must be non-negative''] else []) @
          (if source = ''response-field''
           then (if tyJSONPath cfg = [] then [prefix @ ''.jsonPath: required when source=response-field''] else []) @
                (if tyUnit cfg \<noteq> [] \<and> ToLower (TrimSpace (tyUnit cfg)) \<notin> {''seconds'', ''millis'', ''iso8601''}
                 then [prefix @ ''.unit: '' @ quoted (tyUnit cfg) @ '' is not one of seconds|millis|iso8601''] else [])
           else if source = ''ttl''
           then (if tyTTL cfg \<le> 0 then [prefix @ ''.ttl: must be positive when source=ttl''] else [])
           else []))"

definition attachField :: "(AttachYAML \<Rightarrow> string) \<Rightarrow> AuthProviderConfig \<Rightarrow> string" where
  "attachField f p = (case apAttach p of None \<Rightarrow> [] | Some a \<Rightarrow> f a)"

definition endpointErrors :: "(string \<Rightarrow> bool) \<Rightarrow> string \<Rightarrow> string \<Rightarrow> AuthProviderConfig \<Rightarrow> string list" where
  "endpointErrors isAbsoluteURL prefix t p =
     (if apTokenEndpoint p = [] then [prefix @ ''.tokenEndpoint: required for '' @ t]
      else if \<not> isAbsoluteURL (apTokenEndpoint p)
      then [prefix @ ''.tokenEndpoint: '' @ quoted (apTokenEndpoint p) @ '' is not a valid absolute URL''] else [])"

definition validateAuthProviderShape :: "(string \<Rightarrow> bool) \<Rightarrow> string \<Rightarrow> string \<Rightarrow> AuthProviderConfig \<Rightarrow> string list" where
  "validateAuthProviderShape isAbsoluteURL prefix t p =
     (case apAttach p of
        None \<Rightarrow> []
      | Some a \<Rightarrow> (case ParseAttachKind (ayAs a) of
                     (_, Some (EText m)) \<Rightarrow> [prefix @ ''.attach.as: '' @ m]
                   | (_, Some _) \<Rightarrow> [prefix @ ''.attach.as'']
                   | (_, None) \<Rightarrow> [])) @
     (if t = ''header-static''
      then (if attachField ayName p = [] then [prefix @ ''.attach.name: required for header-static''] else []) @
           (if attachField ayValue p = [] then [prefix @ ''.attach.value: required for header-static''] else [])
      else if t = ''bearer-static''
      then (if apToken p = [] then [prefix @ ''.token: required for bearer-static''] else [])
      else if t = ''basic''
      then (if apUsername p = [] then [prefix @ ''.username: required for basic''] else []) @
           (if apPassword p = [] then [prefix @ ''.password: required for basic''] else [])
      else if t = ''oauth2-client-credentials''
      then endpointErrors isAbsoluteURL prefix t p @
           (if apClientID p = [] then [prefix @ ''.clientId: required for oauth2-client-credentials''] else []) @
           (if apClientSecret p = [] then [prefix @ ''.clientSecret: required for oauth2-client-credentials''] else []) @
           validateTokenCacheConfig (prefix @ ''.tokenCache'') (apTokenCache p)
      else if t = ''credentials-exchange''
      then endpointErrors isAbsoluteURL prefix t p @
           (if apRequestFields p = [] \<and> apRequestFieldsFromCtx p = []
            then [prefix @ '': requires requestFields and/or requestFieldsFromCtx (non-empty)''] else []) @
           (if apResponseTokenPath p = [] then [prefix @ ''.responseTokenPath: required for credentials-exchange'']
            else if \<not> HasPrefix (TrimSpace (apResponseTokenPath p)) ''$''
            then [prefix @ ''.responseTokenPath: '' @ quoted (apResponseTokenPath p) @ '' must start with $''] else []) @
           (if apRequestCodec p \<noteq> [] \<and> ToLower (TrimSpace (apRequestCodec p)) \<notin> {''json'', ''form-urlencoded''}
            then [prefix @ ''.requestCodec: '' @ quoted (apRequestCodec p) @ '' is not one of json|form-urlencoded''] else []) @
           validateTokenCacheConfig (prefix @ ''.tokenCache'') (apTokenCache p)
      else [])"

definition validateAuthProvider :: "(string \<Rightarrow> bool) \<Rightarrow> string \<times> AuthProviderConfig \<Rightarrow> string list" where
  "validateAuthProvider isAbsoluteURL entry =
     (case entry of (name, p) \<Rightarrow>
        let prefix = ''httpClient.authProviders.'' @ name; t = ToLower (TrimSpace (apType p)) in
        if t = [] then [prefix @ ''.type: required'']
        else if t \<notin> set supportedAuthTypes then [prefix @ ''.type: '' @ quoted (apType p) @ '' is not a recognized provider type'']
        else validateAuthProviderShape isAbsoluteURL prefix t p)"

definition validateAuthProviders :: "(string \<Rightarrow> bool) \<Rightarrow> (string \<times> AuthProviderConfig) list \<Rightarrow> string list" where
  "validateAuthProviders isAbsoluteURL cfg = concat (map (validateAuthProvider isAbsoluteURL) cfg)"

definition toRuntimeAttach :: "AttachYAML option \<Rightarrow> AttachConfig" where
  "toRuntimeAttach oc =
     (case oc of
        None \<Rightarrow> noAttach
      | Some cfg \<Rightarrow> \<lparr>acKind = fst (ParseAttachKind (ayAs cfg)), acName = ayName cfg, acFormat = ayFormat cfg,
                     acValue = ayValue cfg\<rparr>)"

definition toRuntimeTokenCacheConfig :: "TokenCacheYAML \<Rightarrow> TokenCacheConfig" where
  "toRuntimeTokenCacheConfig cfg =
     (let source = ToLower (TrimSpace (tySource cfg)); unit = ToLower (TrimSpace (tyUnit cfg)) in
      \<lparr>tccSource = (if source = ''jwt-exp'' then SourceJWTExp else if source = ''response-field'' then SourceResponseField
                    else if source = ''ttl'' then SourceTTL else SourceUnknown),
       tccSkew = tySkew cfg,
       tccSingleFlight = (case tySingleFlight cfg of None \<Rightarrow> True | Some b \<Rightarrow> b),
       tccJSONPath = (if source = ''response-field'' then tyJSONPath cfg else []),
       tccUnit = (if source \<noteq> ''response-field'' then UnitUnknown
                  else if unit = [] \<or> unit = ''seconds'' then UnitSeconds
                  else if unit = ''millis'' then UnitMillis
                  else if unit = ''iso8601'' then UnitISO8601 else UnitUnknown),
       tccTTL = tyTTL cfg\<rparr>)"

datatype provider =
    NoneProvider string
  | HeaderStaticProvider staticProvider
  | BearerStaticProvider staticProvider
  | BasicProvider staticProvider
  | ForwardBearerProvider staticProvider
  | OAuth2ClientCredentialsProvider OAuth2
  | CredentialsExchangeProvider CredentialsExchange

definition zeroTokenCacheConfig :: TokenCacheConfig where
  "zeroTokenCacheConfig =
     \<lparr>tccSource = SourceUnknown, tccSkew = 0, tccSingleFlight = False, tccJSONPath = [], tccUnit = UnitUnknown,
      tccTTL = 0\<rparr>"

definition buildAuthProvider :: "string \<Rightarrow> AuthProviderConfig \<Rightarrow> goError + provider" where
  "buildAuthProvider name p =
     (let attach = toRuntimeAttach (apAttach p); t = ToLower (TrimSpace (apType p));
          cache = (case apTokenCache p of None \<Rightarrow> zeroTokenCacheConfig | Some c \<Rightarrow> toRuntimeTokenCacheConfig c)
      in if t = ''none'' then Inr (NoneProvider name)
         else if t = ''header-static'' then map_sum id HeaderStaticProvider (NewHeaderStaticProvider name attach)
         else if t = ''bearer-static'' then map_sum id BearerStaticProvider (NewBearerStaticProvider name (apToken p) attach)
         else if t = ''basic''
         then map_sum id BasicProvider (NewBasicProvider name (apUsername p) (apPassword p) attach)
         else if t = ''forward-bearer'' then Inr (ForwardBearerProvider (NewForwardBearerProvider name attach))
         else if t = ''oauth2-client-credentials''
         then map_sum id OAuth2ClientCredentialsProvider (NewOAuth2ClientCredentialsProvider
                \<lparr>ooName = name, ooTokenEndpoint = apTokenEndpoint p, ooClientID = apClientID p,
                 ooClientSecret = apClientSecret p, ooScope = apScope p, ooAudience = apAudience p, ooAttach = attach,
                 ooCache = cache, ooRevocation = apRevocationOnUnauthorized p\<rparr>)
         else if t = ''credentials-exchange''
         then map_sum id CredentialsExchangeProvider (NewCredentialsExchangeProvider
                \<lparr>coName = name, coTokenEndpoint = apTokenEndpoint p, coRequestCodec = apRequestCodec p,
                 coRequestFields = apRequestFields p, coRequestFieldsFromCtx = apRequestFieldsFromCtx p,
                 coRequestHeaders = apRequestHeaders p, coResponseTokenPath = apResponseTokenPath p, coAttach = attach,
                 coCache = cache, coRevocation = apRevocationOnUnauthorized p\<rparr>)
         else Inl (EText (''provider type '' @ quoted (apType p) @ '' is not implemented in this phase'')))"

subsection \<open>Endpoints, services, defaults\<close>

record EndpointConfig =
  epMethod :: string
  epPath :: string
  epRequestCodec :: string
  epResponseCodec :: string
  epAcceptableStatus :: "int list"
  epHeaders :: "(string \<times> string) list"
  epCache :: "EndpointCacheConfig option"
  epCacheAcceptable :: bool
  epRetry :: "RetryConfig option"
  epIdempotency :: "IdempotencyConfig option"
  epResponseStream :: bool
  epResponseSSE :: bool

record ServiceConfig =
  scBaseURL :: string
  scTimeout :: duration
  scHeaders :: "(string \<times> string) list"
  scEndpoints :: "(string \<times> EndpointConfig) list"
  scAuth :: "string option"
  scTLS :: "TLSConfig option"
  scPool :: "PoolConfig option"
  scSigning :: "SigningConfig option"
  scRedaction :: "RedactionConfig option"

record Defaults =
  dfTimeout :: duration
  dfThreadIDHeader :: string
  dfRequestIDHeader :: string
  dfLogBodies :: "bool option"
  dfHeaders :: "(string \<times> string) list"
  dfRetry :: "RetryConfig option"
  dfCache :: "CacheDefaults option"
  dfBreaker :: "CircuitBreakerConfig option"
  dfPool :: "PoolConfig option"
  dfTLS :: "TLSConfig option"
  dfRedaction :: "RedactionConfig option"

record Config =
  cgDefaults :: Defaults
  cgServices :: "(string \<times> ServiceConfig) list"
  cgAuthProviders :: "(string \<times> AuthProviderConfig) list"

definition defaultTimeout :: duration where
  "defaultTimeout = 30 * second"

definition defaultCodec :: "EndpointConfig \<Rightarrow> EndpointConfig" where
  "defaultCodec ec =
     ec\<lparr>epRequestCodec := (if epRequestCodec ec = [] then ''json'' else epRequestCodec ec),
        epResponseCodec := (if epResponseCodec ec = [] then ''json'' else epResponseCodec ec)\<rparr>"

definition applyDefaults :: "Config \<Rightarrow> Config" where
  "applyDefaults c =
     (let d = cgDefaults c in
      c\<lparr>cgDefaults := d\<lparr>dfTimeout := (if dfTimeout d = 0 then defaultTimeout else dfTimeout d),
                        dfThreadIDHeader := (if dfThreadIDHeader d = [] then ''X-Thread-Id'' else dfThreadIDHeader d),
                        dfRequestIDHeader := (if dfRequestIDHeader d = [] then ''X-Request-ID'' else dfRequestIDHeader d),
                        dfLogBodies := (if dfLogBodies d = None then Some True else dfLogBodies d)\<rparr>,
        cgServices := map (\<lambda>(name, sc). (name, sc\<lparr>scEndpoints := map (\<lambda>(ep, ec). (ep, defaultCodec ec)) (scEndpoints sc)\<rparr>))
                          (cgServices c)\<rparr>)"

definition isSupportedCodec :: "string \<Rightarrow> bool" where
  "isSupportedCodec name \<longleftrightarrow> name = [] \<or> name \<in> {''json'', ''xml'', ''form-urlencoded''}"

definition validHTTPMethods :: "string list" where
  "validHTTPMethods = [''GET'', ''POST'', ''PUT'', ''PATCH'', ''DELETE'', ''HEAD'']"

definition validateEndpoint :: "string \<Rightarrow> EndpointConfig \<Rightarrow> string list" where
  "validateEndpoint prefix ec =
     (let m = ToUpper (epMethod ec) in
      (if m = [] then [prefix @ ''.method: required'']
       else if m \<notin> set validHTTPMethods
       then [prefix @ ''.method: '' @ quoted (epMethod ec) @
             '' is not a supported HTTP method (got one of GET/POST/PUT/PATCH/DELETE/HEAD)''] else []) @
      (if epPath ec = [] then [prefix @ ''.path: required'']
       else if \<not> HasPrefix (epPath ec) ''/''
       then [prefix @ ''.path: must start with '' @ [CHR 0x27, CHR 0x2F, CHR 0x27] @ '' (got '' @ quoted (epPath ec) @ '')''] else []) @
      (if \<not> isSupportedCodec (epRequestCodec ec)
       then [prefix @ ''.requestCodec: '' @ quoted (epRequestCodec ec) @ '' is not one of json|xml|form-urlencoded''] else []) @
      (if \<not> isSupportedCodec (epResponseCodec ec)
       then [prefix @ ''.responseCodec: '' @ quoted (epResponseCodec ec) @ '' is not one of json|xml|form-urlencoded''] else []) @
      concat (map (\<lambda>code. if code < 100 \<or> code > 599
                          then [prefix @ ''.acceptableStatus: '' @ Itoa code @
                                '' is not a valid HTTP status code (must be in 100..599)''] else []) (epAcceptableStatus ec)) @
      validateRetryConfig (prefix @ ''.retry'') (epRetry ec) @
      (case epRetry ec of
         None \<Rightarrow> []
       | Some rc \<Rightarrow>
           if rcMaxAttempts rc > 1 \<and> \<not> methodAllowsRetry (epMethod ec) \<and> epIdempotency ec = None
           then [prefix @ ''.retry.maxAttempts: '' @ Itoa (rcMaxAttempts rc) @ '' > 1 on '' @ ToUpper (epMethod ec) @
                 '' requires idempotency: block on the same endpoint''] else []) @
      validateEndpointCache (prefix @ ''.cache'') (epMethod ec) (epCache ec) @
      validateIdempotencyConfig (prefix @ ''.idempotency'') (epIdempotency ec) @
      (if epResponseStream ec \<and> epResponseSSE ec
       then [prefix @ '': responseStream and responseSSE are mutually exclusive''] else []) @
      (if epResponseStream ec \<and> epCache ec \<noteq> None
       then [prefix @ '': cache: cannot coexist with responseStream (caching a stream is undefined)''] else []) @
      (if epResponseSSE ec \<and> epCache ec \<noteq> None
       then [prefix @ '': cache: cannot coexist with responseSSE (caching a stream is undefined)''] else []))"

text \<open>The entries of a map in the order of their sorted keys.\<close>

definition sortedEntries :: "(string \<times> 'v) list \<Rightarrow> (string \<times> 'v) list" where
  "sortedEntries m = sort_key fst m"

definition validateService :: "(string \<Rightarrow> bool) \<Rightarrow> string \<times> ServiceConfig \<Rightarrow> string list" where
  "validateService isAbsoluteURL entry =
     (case entry of (name, sc) \<Rightarrow>
        let prefix = ''httpClient.services.'' @ name in
        (if scBaseURL sc \<noteq> [] \<and> \<not> isAbsoluteURL (scBaseURL sc)
         then [prefix @ ''.baseURL: '' @ quoted (scBaseURL sc) @ '' is not a valid absolute URL''] else []) @
        (if scTimeout sc < 0 then [prefix @ ''.timeout: must be non-negative''] else []) @
        validateTLSConfig (prefix @ ''.tls'') (scTLS sc) @
        validatePoolConfig (prefix @ ''.pool'') (scPool sc) @
        validateRedactionConfig (prefix @ ''.redaction'') (scRedaction sc) @
        validateSigningConfig (prefix @ ''.signing'') (scSigning sc) @
        (if scEndpoints sc = [] then [prefix @ ''.endpoints: must declare at least one endpoint'']
         else concat (map (\<lambda>(ep, ec). validateEndpoint (prefix @ ''.endpoints.'' @ ep) ec) (sortedEntries (scEndpoints sc)))))"

definition validateServiceAuthReferences ::
  "(string \<times> ServiceConfig) list \<Rightarrow> (string \<times> AuthProviderConfig) list \<Rightarrow> string list" where
  "validateServiceAuthReferences services providers =
     concat (map (\<lambda>(name, sc).
       case scAuth sc of
         None \<Rightarrow> []
       | Some p \<Rightarrow>
           if p = [] then [''httpClient.services.'' @ name @ ''.auth.provider: required'']
           else if map_of providers p = None
           then [''httpClient.services.'' @ name @ ''.auth.provider: '' @ quoted p @
                 '' is not declared under httpClient.authProviders''] else []) services)"

definition validateDefaults :: "(string \<Rightarrow> bool) \<Rightarrow> Config \<Rightarrow> string list" where
  "validateDefaults isAbsoluteURL c =
     (let d = cgDefaults c in
      (if dfTimeout d < 0 then [''httpClient.defaults.timeout: must be non-negative''] else []) @
      validateRetryConfig ''httpClient.defaults.retry'' (dfRetry d) @
      validateCacheDefaults ''httpClient.defaults.cache'' (dfCache d) @
      validateBreakerConfig ''httpClient.defaults.circuitBreaker'' (dfBreaker d) @
      validateTLSConfig ''httpClient.defaults.tls'' (dfTLS d) @
      validatePoolConfig ''httpClient.defaults.pool'' (dfPool d) @
      validateRedactionConfig ''httpClient.defaults.redaction'' (dfRedaction d) @
      validateAuthProviders isAbsoluteURL (cgAuthProviders c) @
      validateServiceAuthReferences (cgServices c) (cgAuthProviders c))"

definition Validate :: "(string \<Rightarrow> bool) \<Rightarrow> Config \<Rightarrow> string list" where
  "Validate isAbsoluteURL c =
     validateDefaults isAbsoluteURL c @ concat (map (validateService isAbsoluteURL) (sortedEntries (cgServices c)))"

subsection \<open>Services at run time\<close>

record endpointSpec =
  esMethod :: string
  esPath :: string
  esRequestCodec :: string
  esResponseCodec :: string
  esAcceptableStatus :: "int set"
  esHeaders :: "(string \<times> string) list"
  esRetry :: retryPolicy
  esCache :: cachePolicy
  esCacheAcceptable :: bool
  esIdempotency :: idempotencyPolicy
  esResponseStream :: bool
  esResponseSSE :: bool

record serviceClient =
  svName :: string
  svBaseURL :: string
  svTimeout :: duration
  svHeaders :: "(string \<times> string) list"
  svEndpoints :: "(string \<times> endpointSpec) list"
  svThreadID :: string
  svRequestID :: string
  svLogBodies :: bool
  svAuthProvider :: string
  svTLSConfig :: "tlsRuntime option"
  svPool :: "int \<times> int \<times> duration \<times> bool"
  svRedaction :: redactionPolicy
  svSigning :: signingPolicy

definition mergeHeaders :: "(string \<times> string) list \<Rightarrow> (string \<times> string) list \<Rightarrow> (string \<times> string) list" where
  "mergeHeaders a b = fold (\<lambda>(k, v). putField k v) b (fold (\<lambda>(k, v). putField k v) a [])"

definition statusSet :: "int list \<Rightarrow> int set" where
  "statusSet codes = set codes"

definition buildEndpoint :: "Defaults \<Rightarrow> (string \<times> string) list \<Rightarrow> EndpointConfig \<Rightarrow> endpointSpec" where
  "buildEndpoint df serviceHeaders ec =
     (let m = ToUpper (epMethod ec) in
      \<lparr>esMethod = m, esPath = epPath ec, esRequestCodec = epRequestCodec ec, esResponseCodec = epResponseCodec ec,
       esAcceptableStatus = statusSet (epAcceptableStatus ec), esHeaders = mergeHeaders serviceHeaders (epHeaders ec),
       esRetry = resolveRetryPolicy m (dfRetry df) (epRetry ec) (epIdempotency ec \<noteq> None),
       esCache = resolveCachePolicy (dfCache df) (epCache ec),
       esCacheAcceptable = epCacheAcceptable ec,
       esIdempotency = resolveIdempotencyPolicy (epIdempotency ec),
       esResponseStream = epResponseStream ec, esResponseSSE = epResponseSSE ec\<rparr>)"

definition TrimRightSlash :: "string \<Rightarrow> string" where
  "TrimRightSlash s = rev (dropWhile (\<lambda>c. c = CHR ''/'') (rev s))"

definition buildServiceClient :: "certFiles \<Rightarrow> string \<Rightarrow> ServiceConfig \<Rightarrow> Defaults \<Rightarrow> goError + serviceClient" where
  "buildServiceClient F name sc defaults =
     (case resolveTLSConfig F (dfTLS defaults) (scTLS sc) of
        Inl e \<Rightarrow> Inl (EWrap e)
      | Inr tlsCfg \<Rightarrow>
          let serviceHeaders = mergeHeaders (dfHeaders defaults) (scHeaders sc);
              signing = resolveSigningPolicy (scSigning sc)
          in Inr \<lparr>svName = name, svBaseURL = TrimRightSlash (scBaseURL sc),
                  svTimeout = (if scTimeout sc \<noteq> 0 then scTimeout sc
                               else if dfTimeout defaults \<noteq> 0 then dfTimeout defaults else defaultTimeout),
                  svHeaders = serviceHeaders,
                  svEndpoints = map (\<lambda>(ep, ec). (ep, buildEndpoint defaults serviceHeaders ec)) (scEndpoints sc),
                  svThreadID = dfThreadIDHeader defaults, svRequestID = dfRequestIDHeader defaults,
                  svLogBodies = (case dfLogBodies defaults of None \<Rightarrow> True | Some b \<Rightarrow> b),
                  svAuthProvider = (case scAuth sc of None \<Rightarrow> [] | Some p \<Rightarrow> p),
                  svTLSConfig = tlsCfg, svPool = resolvePoolConfig (dfPool defaults) (scPool sc),
                  svRedaction = addRedactedHeader (spKeyIdHeader signing)
                    (addRedactedHeader (spSignatureHeader signing) (resolveRedactionPolicy (dfRedaction defaults) (scRedaction sc))),
                  svSigning = signing\<rparr>)"

end
