(* ===== verification/Http_Registry.thy ===== *)
theory Http_Registry
  imports Http_Config "HOL-Library.AList"
begin

section \<open>The registry of services and providers\<close>

text \<open>
  Model of \<^verbatim>\<open>src/infra/httpclient/client.go\<close>: the snapshot that calls dispatch against, built at
  boot by \<^verbatim>\<open>New\<close> and changed at run time by \<^verbatim>\<open>RegisterIfAbsent\<close> and \<^verbatim>\<open>Unregister\<close>. A writer holds
  the lock and publishes its successor snapshot at once, so the operations are functions from
  snapshot to snapshot and a failed registration leaves the snapshot as it was. Maps are
  association lists.
\<close>

record runtimeMeta =
  rmRegisteredAt :: instant
  rmLastUsed :: instant

record registry =
  rgServices :: "(string \<times> serviceClient) list"
  rgBreakers :: "(string \<times> Breaker) list"
  rgAuth :: "(string \<times> provider) list"
  rgRevocation :: "(string \<times> bool) list"
  rgRuntime :: "(string \<times> runtimeMeta) list"
  rgRuntimeProviders :: "string list"

definition emptyRegistry :: registry where
  "emptyRegistry =
     \<lparr>rgServices = [], rgBreakers = [], rgAuth = [], rgRevocation = [], rgRuntime = [], rgRuntimeProviders = []\<rparr>"

datatype bootError = InvalidConfig "string list" | BuildFailed goError

definition breakerKey :: "string \<Rightarrow> string \<Rightarrow> string" where
  "breakerKey service endpoint = service @ ''|'' @ endpoint"

definition addBreakers ::
  "BreakerPolicy \<Rightarrow> serviceClient \<Rightarrow> (string \<times> Breaker) list \<Rightarrow> (string \<times> Breaker) list" where
  "addBreakers bp svc store =
     (if Enabled bp
      then fold (\<lambda>(ep, _). AList.update (breakerKey (svName svc) ep) (NewBreaker bp)) (svEndpoints svc) store
      else store)"

subsection \<open>Boot\<close>

fun bootServices ::
  "certFiles \<Rightarrow> Defaults \<Rightarrow> BreakerPolicy \<Rightarrow> (string \<times> ServiceConfig) list \<Rightarrow> registry \<Rightarrow> goError + registry" where
  "bootServices F df bp [] r = Inr r"
| "bootServices F df bp ((name, sc) # rest) r =
     (case buildServiceClient F name sc df of
        Inl e \<Rightarrow> Inl e
      | Inr svc \<Rightarrow>
          bootServices F df bp rest
            (r\<lparr>rgServices := AList.update name svc (rgServices r), rgBreakers := addBreakers bp svc (rgBreakers r)\<rparr>))"

fun buildAuthRegistry ::
  "(string \<times> AuthProviderConfig) list \<Rightarrow> (string \<times> provider) list \<times> (string \<times> bool) list \<Rightarrow>
   goError + (string \<times> provider) list \<times> (string \<times> bool) list" where
  "buildAuthRegistry [] acc = Inr acc"
| "buildAuthRegistry ((name, p) # rest) (reg, revocation) =
     (case buildAuthProvider name p of
        Inl e \<Rightarrow> Inl (EWrap e)
      | Inr q \<Rightarrow> buildAuthRegistry rest
                  (AList.update name q reg, AList.update name (apRevocationOnUnauthorized p) revocation))"

definition New :: "certFiles \<Rightarrow> (string \<Rightarrow> bool) \<Rightarrow> Config option \<Rightarrow> bootError + registry" where
  "New F isAbsoluteURL ocfg =
     (case ocfg of
        None \<Rightarrow> Inr emptyRegistry
      | Some cfg0 \<Rightarrow>
          let cfg = applyDefaults cfg0; errs = Validate isAbsoluteURL cfg in
          if errs \<noteq> [] then Inl (InvalidConfig errs)
          else case bootServices F (cgDefaults cfg) (resolveBreakerConfig (dfBreaker (cgDefaults cfg))) (cgServices cfg)
                      emptyRegistry of
                 Inl e \<Rightarrow> Inl (BuildFailed e)
               | Inr r \<Rightarrow>
                   (case buildAuthRegistry (cgAuthProviders cfg) ([], []) of
                      Inl e \<Rightarrow> Inl (BuildFailed e)
                    | Inr (reg, revocation) \<Rightarrow> Inr (r\<lparr>rgAuth := reg, rgRevocation := revocation\<rparr>)))"

subsection \<open>Registration at run time\<close>

text \<open>Both loops also say whether they added something.\<close>

fun registerProviders :: "(string \<times> AuthProviderConfig) list \<Rightarrow> registry \<Rightarrow> bool \<Rightarrow> goError + registry \<times> bool" where
  "registerProviders [] r added = Inr (r, added)"
| "registerProviders ((pname, p) # rest) r added =
     (if map_of (rgAuth r) pname \<noteq> None then registerProviders rest r added
      else case buildAuthProvider pname p of
        Inl e \<Rightarrow> Inl (EWrap e)
      | Inr q \<Rightarrow>
          registerProviders rest
            (r\<lparr>rgAuth := AList.update pname q (rgAuth r),
               rgRevocation := AList.update pname (apRevocationOnUnauthorized p) (rgRevocation r),
               rgRuntimeProviders := List.insert pname (rgRuntimeProviders r)\<rparr>) True)"

fun registerServices ::
  "certFiles \<Rightarrow> Defaults \<Rightarrow> BreakerPolicy \<Rightarrow> instant \<Rightarrow> (string \<times> ServiceConfig) list \<Rightarrow> registry \<Rightarrow> bool \<Rightarrow>
   goError + registry \<times> bool" where
  "registerServices F df bp now [] r added = Inr (r, added)"
| "registerServices F df bp now ((name, sc) # rest) r added =
     (if map_of (rgServices r) name \<noteq> None then registerServices F df bp now rest r added
      else case buildServiceClient F name sc df of
        Inl e \<Rightarrow> Inl e
      | Inr svc \<Rightarrow>
          registerServices F df bp now rest
            (r\<lparr>rgServices := AList.update name svc (rgServices r), rgBreakers := addBreakers bp svc (rgBreakers r),
               rgRuntime := AList.update name \<lparr>rmRegisteredAt = now, rmLastUsed = now\<rparr> (rgRuntime r)\<rparr>) True)"

definition RegisterIfAbsent ::
  "certFiles \<Rightarrow> (string \<Rightarrow> bool) \<Rightarrow> instant \<Rightarrow> Config option \<Rightarrow> registry \<Rightarrow> bootError option \<times> registry" where
  "RegisterIfAbsent F isAbsoluteURL now ocfg cur =
     (case ocfg of
        None \<Rightarrow> (None, cur)
      | Some cfg0 \<Rightarrow>
          let cfg = applyDefaults cfg0; errs = Validate isAbsoluteURL cfg in
          if errs \<noteq> [] then (Some (InvalidConfig errs), cur)
          else case registerProviders (cgAuthProviders cfg) cur False of
                 Inl e \<Rightarrow> (Some (BuildFailed e), cur)
               | Inr (r1, added) \<Rightarrow>
                   (case registerServices F (cgDefaults cfg) (resolveBreakerConfig (dfBreaker (cgDefaults cfg))) now
                           (cgServices cfg) r1 added of
                      Inl e \<Rightarrow> (Some (BuildFailed e), cur)
                    | Inr (r2, added2) \<Rightarrow> (None, if added2 then r2 else cur)))"

definition providerReferenced :: "(string \<times> serviceClient) list \<Rightarrow> string \<Rightarrow> bool" where
  "providerReferenced services p = list_ex (\<lambda>(_, s). svAuthProvider s = p) services"

definition dropProvider :: "string \<Rightarrow> registry \<Rightarrow> registry" where
  "dropProvider p r =
     (if p \<noteq> [] \<and> p \<in> set (rgRuntimeProviders r) \<and> \<not> providerReferenced (rgServices r) p
      then r\<lparr>rgAuth := AList.delete p (rgAuth r), rgRevocation := AList.delete p (rgRevocation r),
             rgRuntimeProviders := removeAll p (rgRuntimeProviders r)\<rparr>
      else r)"

definition Unregister :: "string \<Rightarrow> registry \<Rightarrow> bool \<times> registry" where
  "Unregister name cur =
     (if map_of (rgRuntime cur) name = None then (False, cur)
      else
        let r1 = cur\<lparr>rgServices := AList.delete name (rgServices cur), rgRuntime := AList.delete name (rgRuntime cur)\<rparr>
        in case map_of (rgServices cur) name of
             None \<Rightarrow> (True, r1)
           | Some svc \<Rightarrow>
               (True, dropProvider (svAuthProvider svc)
                  (r1\<lparr>rgBreakers := fold (\<lambda>(ep, _). AList.delete (breakerKey name ep)) (svEndpoints svc) (rgBreakers r1)\<rparr>)))"

subsection \<open>Look-ups of a call\<close>

definition lookupService :: "instant \<Rightarrow> string \<Rightarrow> registry \<Rightarrow> (goError + serviceClient) \<times> registry" where
  "lookupService now name r =
     (if rgServices r = []
      then (Inl (EText ''httpclient: no services configured (httpClient: block absent or empty)''), r)
      else case map_of (rgServices r) name of
        None \<Rightarrow> (Inl (EText (''httpclient: unknown service '' @ quoted name)), r)
      | Some s \<Rightarrow>
          (Inr s, (case map_of (rgRuntime r) name of
                     None \<Rightarrow> r
                   | Some m \<Rightarrow> r\<lparr>rgRuntime := AList.update name (m\<lparr>rmLastUsed := now\<rparr>) (rgRuntime r)\<rparr>)))"

definition breaker :: "string \<Rightarrow> string \<Rightarrow> registry \<Rightarrow> Breaker option" where
  "breaker service endpoint r = map_of (rgBreakers r) (breakerKey service endpoint)"

definition resolveAuthProvider :: "registry \<Rightarrow> serviceClient \<Rightarrow> string \<Rightarrow> goError + (provider \<times> bool) option" where
  "resolveAuthProvider r svc override =
     (let name = (if override = [] then svAuthProvider svc else override) in
      if name = [] then Inr None
      else if rgAuth r = []
      then Inl (EText (if override \<noteq> []
             then ''httpclient: CallConfig.AuthProvider '' @ quoted override @ '' used but no authProviders are configured''
             else ''httpclient: service '' @ quoted (svName svc) @ '' references provider '' @ quoted name @
                  '' but no authProviders are configured''))
      else case map_of (rgAuth r) name of
        None \<Rightarrow> Inl (EText (''auth: provider '' @ quoted name @ '' is not registered''))
      | Some p \<Rightarrow> Inr (Some (p, map_of (rgRevocation r) name = Some True)))"

definition Count :: "registry \<Rightarrow> nat" where
  "Count r = length (rgRuntime r)"

definition Registered :: "registry \<Rightarrow> (string \<times> instant \<times> instant) list" where
  "Registered r = map (\<lambda>(name, m). (name, rmRegisteredAt m, rmLastUsed m)) (sortedEntries (rgRuntime r))"

end
