(* ===== verification/Http_Call.thy ===== *)
theory Http_Call
  imports Http_Registry
begin

section \<open>One call: overrides, canonical chain, outcome\<close>

text \<open>
  Model of \<^verbatim>\<open>src/infra/httpclient/call.go\<close>, \<^verbatim>\<open>options.go\<close>, \<^verbatim>\<open>config_override.go\<close> and the chain of
  \<^verbatim>\<open>middleware.go\<close>: how a call overrides the policies of its endpoint, the chain it dispatches
  and how the outcome is classified. What surrounds the client is a \<open>site\<close>: the world's services, the
  token endpoint, the signer, the resolver of base URLs, and the reflective binding of typed
  requests and responses (\<^verbatim>\<open>infra/httpclient/binding\<close>), which is an argument. The registry lives
  in the world and is reached by \<open>stRegistry\<close> and \<open>stPut\<close>. A per-call client certificate changes only
  the transport, and a per-call timeout only how long the dial may take; both are choices of the
  world. Log records are not modelled.
\<close>

subsection \<open>Per-call overrides\<close>

record APIKeyAuth =
  akHeader :: string
  akValue :: string

record BasicAuth =
  baUsername :: string
  baPassword :: string

record InlineAuth =
  iaBearer :: string
  iaAPIKey :: "APIKeyAuth option"
  iaBasic :: "BasicAuth option"

record CallConfig =
  ccBaseURL :: string
  ccTimeout :: duration
  ccAuthProvider :: string
  ccMethod :: string
  ccPath :: string
  ccRequestCodec :: string
  ccResponseCodec :: string
  ccAcceptableStatus :: "int list"
  ccNoCache :: bool
  ccCacheKey :: string
  ccIdempotencyKey :: string
  ccRetry :: "RetryConfig option"
  ccInlineAuth :: "InlineAuth option"

record invokeConfig =
  extraHeaders :: "(string \<times> string) list"
  extraQuery :: "(string \<times> string list) list"
  baseURLOverride :: string
  callTimeout :: duration
  authOverride :: string
  methodOverride :: string
  pathOverride :: string
  requestCodecOverride :: string
  responseCodecOverride :: string
  acceptableStatus :: "int set"
  noCache :: bool
  cacheKey :: string
  idempotencyKey :: string
  inlineAuth :: "InlineAuth option"
  retryOverride :: "RetryConfig option"

definition emptyInvoke :: invokeConfig where
  "emptyInvoke =
     \<lparr>extraHeaders = [], extraQuery = [], baseURLOverride = [], callTimeout = 0, authOverride = [], methodOverride = [],
      pathOverride = [], requestCodecOverride = [], responseCodecOverride = [], acceptableStatus = {}, noCache = False,
      cacheKey = [], idempotencyKey = [], inlineAuth = None, retryOverride = None\<rparr>"

definition WithConfig :: "CallConfig \<Rightarrow> invokeConfig \<Rightarrow> invokeConfig" where
  "WithConfig cfg c =
     c\<lparr>baseURLOverride := (if ccBaseURL cfg \<noteq> [] then ccBaseURL cfg else baseURLOverride c),
       callTimeout := (if ccTimeout cfg > 0 then ccTimeout cfg else callTimeout c),
       authOverride := (if ccAuthProvider cfg \<noteq> [] then ccAuthProvider cfg else authOverride c),
       methodOverride := (if ccMethod cfg \<noteq> [] then ccMethod cfg else methodOverride c),
       pathOverride := (if ccPath cfg \<noteq> [] then ccPath cfg else pathOverride c),
       requestCodecOverride := (if ccRequestCodec cfg \<noteq> [] then ccRequestCodec cfg else requestCodecOverride c),
       responseCodecOverride := (if ccResponseCodec cfg \<noteq> [] then ccResponseCodec cfg else responseCodecOverride c),
       acceptableStatus := acceptableStatus c \<union> set (ccAcceptableStatus cfg),
       noCache := (ccNoCache cfg \<or> noCache c),
       cacheKey := (if ccCacheKey cfg \<noteq> [] then ccCacheKey cfg else cacheKey c),
       idempotencyKey := (if ccIdempotencyKey cfg \<noteq> [] then ccIdempotencyKey cfg else idempotencyKey c),
       retryOverride := (if ccRetry cfg \<noteq> None then ccRetry cfg else retryOverride c),
       inlineAuth := (if ccInlineAuth cfg \<noteq> None then ccInlineAuth cfg else inlineAuth c)\<rparr>"

definition WithExtraHeader :: "string \<Rightarrow> string \<Rightarrow> invokeConfig \<Rightarrow> invokeConfig" where
  "WithExtraHeader k v c = c\<lparr>extraHeaders := putField k v (extraHeaders c)\<rparr>"

text \<open>\<^verbatim>\<open>url.Values.Add\<close>.\<close>

fun valuesAdd :: "string \<Rightarrow> string \<Rightarrow> (string \<times> string list) list \<Rightarrow> (string \<times> string list) list" where
  "valuesAdd k v [] = [(k, [v])]"
| "valuesAdd k v ((k', vs) # q) = (if k' = k then (k, vs @ [v]) # q else (k', vs) # valuesAdd k v q)"

definition WithExtraQuery :: "string \<Rightarrow> string \<Rightarrow> invokeConfig \<Rightarrow> invokeConfig" where
  "WithExtraQuery k v c = c\<lparr>extraQuery := valuesAdd k v (extraQuery c)\<rparr>"

datatype InvokeOption = OptConfig CallConfig | OptHeader string string | OptQuery string string

fun applyOption :: "InvokeOption \<Rightarrow> invokeConfig \<Rightarrow> invokeConfig" where
  "applyOption (OptConfig cfg) c = WithConfig cfg c"
| "applyOption (OptHeader k v) c = WithExtraHeader k v c"
| "applyOption (OptQuery k v) c = WithExtraQuery k v c"

definition applyInvokeOptions :: "InvokeOption list \<Rightarrow> invokeConfig" where
  "applyInvokeOptions opts = fold applyOption opts emptyInvoke"

definition effectiveMethod :: "invokeConfig \<Rightarrow> string \<Rightarrow> string" where
  "effectiveMethod c yaml = (if methodOverride c = [] then yaml else methodOverride c)"

definition effectivePath :: "invokeConfig \<Rightarrow> string \<Rightarrow> string" where
  "effectivePath c yaml = (if pathOverride c = [] then yaml else pathOverride c)"

definition effectiveRequestCodec :: "invokeConfig \<Rightarrow> string \<Rightarrow> string" where
  "effectiveRequestCodec c yaml = (if requestCodecOverride c = [] then yaml else requestCodecOverride c)"

definition effectiveResponseCodec :: "invokeConfig \<Rightarrow> string \<Rightarrow> string" where
  "effectiveResponseCodec c yaml = (if responseCodecOverride c = [] then yaml else responseCodecOverride c)"

definition effectiveRetry :: "endpointSpec \<Rightarrow> invokeConfig \<Rightarrow> retryPolicy" where
  "effectiveRetry ep cfg =
     (case retryOverride cfg of
        None \<Rightarrow> esRetry ep
      | Some o' \<Rightarrow> resolveRetryOverride (effectiveMethod cfg (esMethod ep)) o' (ipEnabled (esIdempotency ep)))"

definition isAcceptable :: "int \<Rightarrow> int set \<Rightarrow> int set \<Rightarrow> bool" where
  "isAcceptable status fromYAML fromCall \<longleftrightarrow> status \<in> fromYAML \<or> status \<in> fromCall"

definition applyInvokeExtras :: "invokeConfig \<Rightarrow> httpRequest \<Rightarrow> httpRequest" where
  "applyInvokeExtras cfg req =
     req\<lparr>rqHeader := fold (\<lambda>(k, v) h. headerSet h k v) (extraHeaders cfg) (rqHeader req),
         rqQuery := fold (\<lambda>(k, vs) q. fold (valuesAdd k) vs q) (extraQuery cfg) (rqQuery req)\<rparr>"

subsection \<open>The provider of a call\<close>

definition buildInlineAuthProvider :: "InlineAuth \<Rightarrow> goError + provider" where
  "buildInlineAuthProvider ia =
     (let n = (if iaBearer ia \<noteq> [] then 1 else 0) + (if iaAPIKey ia \<noteq> None then 1 else 0) +
              (if iaBasic ia \<noteq> None then (1::int) else 0) in
      if n = 0 then Inl (EText ''inline auth: no credential set (one of Bearer / APIKey / Basic required)'')
      else if n > 1
      then Inl (EText (''inline auth: exactly one of Bearer / APIKey / Basic must be set (got '' @ Itoa n @ '')''))
      else if iaBearer ia \<noteq> []
      then map_sum id BearerStaticProvider (NewBearerStaticProvider ''inline:bearer'' (iaBearer ia) noAttach)
      else case iaAPIKey ia of
        Some k \<Rightarrow>
          if akValue k = [] then Inl (EText ''inline auth: APIKey.Value required'')
          else map_sum id HeaderStaticProvider (NewHeaderStaticProvider ''inline:apikey''
                 \<lparr>acKind = AttachHeader, acName = (if akHeader k = [] then ''X-API-Key'' else akHeader k), acFormat = [],
                  acValue = akValue k\<rparr>)
      | None \<Rightarrow>
          (case iaBasic ia of
             Some b \<Rightarrow>
               if baUsername b = [] \<or> baPassword b = []
               then Inl (EText ''inline auth: Basic.Username and Basic.Password required'')
               else map_sum id BasicProvider (NewBasicProvider ''inline:basic'' (baUsername b) (baPassword b) noAttach)
           | None \<Rightarrow> Inl (EText ''inline auth: unreachable'')))"

text \<open>The result also says under which name the provider is registered, if it is.\<close>

definition resolveEffectiveAuthProvider ::
  "registry \<Rightarrow> serviceClient \<Rightarrow> invokeConfig \<Rightarrow> goError + (provider \<times> bool \<times> string option) option" where
  "resolveEffectiveAuthProvider r svc cfg =
     (case inlineAuth cfg of
        Some ia \<Rightarrow> map_sum id (\<lambda>p. Some (p, False, None)) (buildInlineAuthProvider ia)
      | None \<Rightarrow>
          map_sum id (map_option (\<lambda>(p, flag). (p, flag, Some (if authOverride cfg = [] then svAuthProvider svc else authOverride cfg))))
            (resolveAuthProvider r svc (authOverride cfg)))"

fun provider_Name :: "provider \<Rightarrow> string" where
  "provider_Name (NoneProvider n) = n"
| "provider_Name (HeaderStaticProvider p) = spName p"
| "provider_Name (BearerStaticProvider p) = spName p"
| "provider_Name (BasicProvider p) = spName p"
| "provider_Name (ForwardBearerProvider p) = spName p"
| "provider_Name (OAuth2ClientCredentialsProvider p) = oaName p"
| "provider_Name (CredentialsExchangeProvider p) = ceName p"

fun provider_Apply :: "'w idp \<Rightarrow> provider \<Rightarrow> httpRequest \<Rightarrow> 'w \<Rightarrow> goError option \<times> httpRequest \<times> provider \<times> 'w" where
  "provider_Apply I (NoneProvider n) req w = (None, req, NoneProvider n, w)"
| "provider_Apply I (HeaderStaticProvider p) req w = (None, HeaderStatic_Apply p req, HeaderStaticProvider p, w)"
| "provider_Apply I (BearerStaticProvider p) req w = (None, BearerStatic_Apply p req, BearerStaticProvider p, w)"
| "provider_Apply I (BasicProvider p) req w = (None, Basic_Apply p req, BasicProvider p, w)"
| "provider_Apply I (ForwardBearerProvider p) req w =
     (case ForwardBearer_Apply I p req of (e, req') \<Rightarrow> (e, req', ForwardBearerProvider p, w))"
| "provider_Apply I (OAuth2ClientCredentialsProvider p) req w =
     (case OAuth2_Apply I p req w of (e, req', p', w') \<Rightarrow> (e, req', OAuth2ClientCredentialsProvider p', w'))"
| "provider_Apply I (CredentialsExchangeProvider p) req w =
     (case CE_Apply I p req w of (e, req', p', w') \<Rightarrow> (e, req', CredentialsExchangeProvider p', w'))"

fun provider_Invalidate :: "provider \<Rightarrow> provider option" where
  "provider_Invalidate (OAuth2ClientCredentialsProvider p) = Some (OAuth2ClientCredentialsProvider (OAuth2_Invalidate p))"
| "provider_Invalidate (CredentialsExchangeProvider p) = Some (CredentialsExchangeProvider (CE_Invalidate p))"
| "provider_Invalidate p = None"

subsection \<open>The site of a client\<close>

record EndpointMeta =
  emMethod :: string
  emPath :: string
  emRequestCodec :: string
  emResponseCodec :: string
  emHeaders :: "(string \<times> string) list"
  emAcceptableStatus :: "int set"

text \<open>
  \<open>stStreaming\<close> is \<^verbatim>\<open>binding.HasStreamingBody\<close> on the typed request, \<open>stBuild\<close> is \<^verbatim>\<open>binding.BuildRequest\<close>,
  \<open>stDecode\<close> is \<^verbatim>\<open>binding.DecodeResponse\<close>; \<open>stStreamType\<close> and \<open>stSSEType\<close> say whether the response type
  is the one that a streaming endpoint demands.
\<close>

record ('w, 'r) site =
  stServices :: "'w services"
  stIdp :: "'w idp"
  stSigner :: "'w signer"
  stHash :: "string \<Rightarrow> string"
  stRegistry :: "'w \<Rightarrow> registry"
  stPut :: "registry \<Rightarrow> 'w \<Rightarrow> 'w"
  stStore :: "'w cachePort option"
  stTracing :: "'w layer option"
  stResolver :: "(string \<Rightarrow> 'w \<Rightarrow> (goError + string) \<times> 'w) option"
  stCorrelation :: string
  stStreaming :: "string \<Rightarrow> bool"
  stBuild :: "string \<Rightarrow> EndpointMeta \<Rightarrow> goError + httpRequest"
  stDecode :: "EndpointMeta \<Rightarrow> httpResponse \<Rightarrow> goError + 'r"
  stStreamType :: bool
  stSSEType :: bool

text \<open>A provider of the registry, reached through its pointer, or an inline one.\<close>

definition currentProvider :: "('w, 'r) site \<Rightarrow> string option \<Rightarrow> provider \<Rightarrow> 'w \<Rightarrow> provider" where
  "currentProvider S on p w =
     (case on of
        None \<Rightarrow> p
      | Some n \<Rightarrow> (case map_of (rgAuth (stRegistry S w)) n of None \<Rightarrow> p | Some q \<Rightarrow> q))"

definition putProvider :: "('w, 'r) site \<Rightarrow> string option \<Rightarrow> provider \<Rightarrow> 'w \<Rightarrow> 'w" where
  "putProvider S on q w =
     (case on of
        None \<Rightarrow> w
      | Some n \<Rightarrow>
          let r = stRegistry S w in
          if map_of (rgAuth r) n = None then w else stPut S (r\<lparr>rgAuth := AList.update n q (rgAuth r)\<rparr>) w)"

definition boundProvider :: "('w, 'r) site \<Rightarrow> string option \<Rightarrow> provider \<Rightarrow> 'w authProvider" where
  "boundProvider S on p =
     \<lparr>apName = provider_Name p,
      apApply = (\<lambda>rq w. case provider_Apply (stIdp S) (currentProvider S on p w) rq w of
                   (e, rq', q, w') \<Rightarrow> (e, rq', putProvider S on q w')),
      apInvalidate =
        (if provider_Invalidate p = None then None
         else Some (\<lambda>w. case provider_Invalidate (currentProvider S on p w) of
                      None \<Rightarrow> w | Some q \<Rightarrow> putProvider S on q w))\<rparr>"

subsection \<open>The chain\<close>

record 'w chainParts =
  cTracing :: "'w layer option"
  cProvider :: "'w authProvider option"
  cRevocation :: bool
  cSigner :: "'w signer"
  cStore :: "'w cachePort option"
  cHash :: "string \<Rightarrow> string"
  cCorrelation :: string

text \<open>The layers that the configuration may leave out.\<close>

definition optLayer :: "'w layer option \<Rightarrow> 'w layer list" where
  "optLayer ol = (case ol of None \<Rightarrow> [] | Some l \<Rightarrow> [l])"

definition buildChain ::
  "'w services \<Rightarrow> 'w chainParts \<Rightarrow> serviceClient \<Rightarrow> string \<Rightarrow> string \<Rightarrow> endpointSpec \<Rightarrow> retryPolicy \<Rightarrow> 'w layer list" where
  "buildChain W P svc service endpoint ep rp =
     optLayer (cTracing P) @
     [correlationMiddleware (svThreadID svc) (svRequestID svc) (cCorrelation P), loggingMiddleware] @
     (if cProvider P \<noteq> None then [authMiddleware (cProvider P) (cRevocation P)] else []) @
     (if ipEnabled (esIdempotency ep) then [idempotencyMiddleware W (esIdempotency ep)] else []) @
     (if cpEnabled (esCache ep)
      then [cacheMiddleware W (cHash P) service endpoint (cStore P) (esCache ep) (esCacheAcceptable ep) (esAcceptableStatus ep)]
      else []) @
     [retryMiddleware W rp, breakerMiddleware W, signingMiddleware W (cSigner P) (svSigning svc), transportMiddleware W]"

definition newObservation :: "endpointSpec \<Rightarrow> invokeConfig \<Rightarrow> bool \<Rightarrow> observation" where
  "newObservation ep cfg streamingBody =
     \<lparr>obsAttempt = 1, obsRequestBody = [], obsRequestBytes = 0, obsStreamingRequest = streamingBody,
      obsStreamingResponse = (esResponseStream ep \<or> esResponseSSE ep),
      obsIdempotencyInput = idempotencyKey cfg, obsIdempotencyKey = [], obsNoCache = noCache cfg,
      obsCacheKey = cacheKey cfg, obsCacheStatus = ''bypass'', obsBreakerState = ''closed'', obsThreadID = [],
      obsAuthProvider = [], obsResponseBody = [], obsStatus = 0, obsErr = None\<rparr>"

subsection \<open>The outcome of a call\<close>

record HttpError =
  heService :: string
  heEndpoint :: string
  heMethod :: string
  heStatus :: int
  heHeaders :: httpHeader
  heBody :: string
  heCause :: "goError option"
  heAcceptable :: bool
  heAttempt :: int

text \<open>\<open>CallError\<close> is an error that is not an \<^verbatim>\<open>*HttpError\<close>; the value beside an \<open>HttpError\<close> is the body
  that decoded although the status is only acceptable. A stream is handed over open.\<close>

datatype 'r callResult =
    CallOk 'r
  | CallStream httpResponse
  | CallFailed HttpError "'r option"
  | CallError goError

definition buildHttpError ::
  "string \<Rightarrow> string \<Rightarrow> string \<Rightarrow> httpHeader \<Rightarrow> string \<Rightarrow> int \<Rightarrow> goError option \<Rightarrow> int \<Rightarrow> HttpError" where
  "buildHttpError service endpoint m headers body status cause attempt =
     \<lparr>heService = service, heEndpoint = endpoint, heMethod = m, heStatus = status, heHeaders = headers, heBody = body,
      heCause = cause, heAcceptable = False, heAttempt = (if attempt < 1 then 1 else attempt)\<rparr>"

definition resolveBaseURL ::
  "('w, 'r) site \<Rightarrow> string \<Rightarrow> string \<Rightarrow> string \<Rightarrow> 'w \<Rightarrow> (goError + string) \<times> 'w" where
  "resolveBaseURL S service yamlBaseURL perCallOverride w =
     (if perCallOverride \<noteq> [] then (Inr perCallOverride, w)
      else case stResolver S of
        None \<Rightarrow>
          (if yamlBaseURL = []
           then Inl (EText (''httpclient: service '' @ quoted service @
                  '' has no baseURL (YAML empty, no resolver, no CallConfig.BaseURL override)''))
           else Inr yamlBaseURL, w)
      | Some resolve \<Rightarrow>
          (case resolve service w of
             (Inl e, w1) \<Rightarrow> (Inl (EWrap e), w1)
           | (Inr url, w1) \<Rightarrow>
               (if url \<noteq> [] then Inr url
                else if yamlBaseURL = []
                then Inl (EText (''httpclient: service '' @ quoted service @
                       '' has no baseURL (resolver returned empty, YAML empty, no CallConfig.BaseURL override)''))
                else Inr yamlBaseURL, w1)))"

text \<open>What \<^verbatim>\<open>Call\<close> makes of the response of its chain.\<close>

definition is2xx :: "int \<Rightarrow> bool" where
  "is2xx n \<longleftrightarrow> 200 \<le> n \<and> n < 300"

definition finishCall ::
  "('w, 'r) site \<Rightarrow> string \<Rightarrow> string \<Rightarrow> endpointSpec \<Rightarrow> invokeConfig \<Rightarrow> EndpointMeta \<Rightarrow> outcome \<times> 'w call \<Rightarrow> 'r callResult" where
  "finishCall S service endpoint ep cfg meta res =
     (case res of
        ((_, Some err), c) \<Rightarrow>
          CallFailed (buildHttpError service endpoint (rqMethod (creq c)) Map.empty [] 0 (Some err) (obsAttempt (cobs c))) None
      | ((None, None), c) \<Rightarrow> CallError (EText ''nil response'')
      | ((Some resp, None), c) \<Rightarrow>
          let status = StatusCode resp;
              acceptable = isAcceptable status (esAcceptableStatus ep) (acceptableStatus cfg);
              err = (\<lambda>body cause. buildHttpError service endpoint (rqMethod (creq c)) (respHeader resp) body status cause
                                  (obsAttempt (cobs c)))
          in if esResponseStream ep \<or> esResponseSSE ep
             then (if \<not> is2xx status then CallFailed ((err (respBody resp) None)\<lparr>heAcceptable := acceptable\<rparr>) None
                   else if (if esResponseStream ep then stStreamType S else stSSEType S) then CallStream resp
                   else CallFailed ((err [] (Some (EWrap (ESentinel ErrResponseDecode))))\<lparr>heHeaders := Map.empty\<rparr>) None)
             else if is2xx status
             then (case stDecode S meta resp of
                     Inl e \<Rightarrow> CallFailed (err (obsResponseBody (cobs c)) (Some (EWrap (ESentinel ErrResponseDecode)))) None
                   | Inr out \<Rightarrow> CallOk out)
             else CallFailed ((err (obsResponseBody (cobs c)) None)\<lparr>heAcceptable := acceptable\<rparr>)
                    (if acceptable then (case stDecode S meta resp of Inl e \<Rightarrow> None | Inr out \<Rightarrow> Some out) else None))"

subsection \<open>The call\<close>

definition endpointMeta :: "endpointSpec \<Rightarrow> invokeConfig \<Rightarrow> EndpointMeta" where
  "endpointMeta ep cfg =
     \<lparr>emMethod = effectiveMethod cfg (esMethod ep), emPath = effectivePath cfg (esPath ep),
      emRequestCodec = effectiveRequestCodec cfg (esRequestCodec ep),
      emResponseCodec = effectiveResponseCodec cfg (esResponseCodec ep),
      emHeaders = esHeaders ep, emAcceptableStatus = esAcceptableStatus ep\<rparr>"

text \<open>Everything after the request is built: provider, chain, breaker written back, classification.\<close>

definition dispatchCall ::
  "('w, 'r) site \<Rightarrow> string \<Rightarrow> string \<Rightarrow> serviceClient \<Rightarrow> endpointSpec \<Rightarrow> invokeConfig \<Rightarrow> bool \<Rightarrow> httpRequest \<Rightarrow> 'w \<Rightarrow>
   'r callResult \<times> 'w" where
  "dispatchCall S service endpoint svc ep cfg streamingBody req w =
     (let r = stRegistry S w in
      case resolveEffectiveAuthProvider r svc cfg of
        Inl e \<Rightarrow> (CallError (EWrap (ESentinel ErrTokenAcquire)), w)
      | Inr op \<Rightarrow>
          let P = \<lparr>cTracing = stTracing S,
                   cProvider = map_option (\<lambda>(p, _, on). boundProvider S on p) op,
                   cRevocation = (case op of None \<Rightarrow> False | Some (_, flag, _) \<Rightarrow> flag),
                   cSigner = stSigner S, cStore = stStore S, cHash = stHash S, cCorrelation = stCorrelation S\<rparr>;
              c = \<lparr>creq = req, cobs = newObservation ep cfg streamingBody, cbreaker = breaker service endpoint r, cworld = w\<rparr>
          in case dispatch (buildChain (stServices S) P svc service endpoint ep (effectiveRetry ep cfg)) c of
               (out, c1) \<Rightarrow>
                 (finishCall S service endpoint ep cfg (endpointMeta ep cfg) (out, c1),
                  let w1 = cworld c1; r1 = stRegistry S w1 in
                  case cbreaker c1 of
                    None \<Rightarrow> w1
                  | Some b \<Rightarrow>
                      if map_of (rgBreakers r1) (breakerKey service endpoint) = None then w1
                      else stPut S (r1\<lparr>rgBreakers := AList.update (breakerKey service endpoint) b (rgBreakers r1)\<rparr>) w1))"

definition acceptSSE :: "endpointSpec \<Rightarrow> httpRequest \<Rightarrow> httpRequest" where
  "acceptSSE ep req = (if esResponseSSE ep then setIfAbsent ''Accept'' ''text/event-stream'' req else req)"

definition Call ::
  "('w, 'r) site \<Rightarrow> string \<Rightarrow> string \<Rightarrow> InvokeOption list \<Rightarrow> 'w \<Rightarrow> 'r callResult \<times> 'w" where
  "Call S service endpoint opts w =
     (case lookupService (wNow (stServices S) w) service (stRegistry S w) of
        (Inl e, _) \<Rightarrow> (CallError e, w)
      | (Inr svc, r) \<Rightarrow>
          let w1 = stPut S r w in
          case map_of (svEndpoints svc) endpoint of
            None \<Rightarrow> (CallError (EText (''httpclient: service '' @ quoted service @ '' has no endpoint '' @ quoted endpoint)), w1)
          | Some ep \<Rightarrow>
              let cfg = applyInvokeOptions opts; meta = endpointMeta ep cfg in
              case resolveBaseURL S service (svBaseURL svc) (baseURLOverride cfg) w1 of
                (Inl e, w2) \<Rightarrow>
                  (CallFailed (buildHttpError service endpoint (esMethod ep) Map.empty [] 0 (Some e) 1) None, w2)
              | (Inr baseURL, w2) \<Rightarrow>
                  let streamingBody = stStreaming S (emPath meta) in
                  if streamingBody \<and> spEnabled (svSigning svc)
                  then (CallFailed (buildHttpError service endpoint (esMethod ep) Map.empty [] 0
                          (Some (EText (''httpclient: service '' @ quoted service @
                             '' signs requests but endpoint '' @ quoted endpoint @ '' has a streaming body''))) 1) None, w2)
                  else
                    (case stBuild S baseURL meta of
                       Inl e \<Rightarrow> (CallError (EWrap (ESentinel ErrRequestBuild)), w2)
                     | Inr bound \<Rightarrow>
                         dispatchCall S service endpoint svc ep cfg streamingBody
                           (acceptSSE ep (applyInvokeExtras cfg bound)) w2))"

end
