(* ===== verification/Http_Props.thy ===== *)
theory Http_Props
  imports Http_Call
begin

section \<open>What one call dials\<close>

text \<open>
  The upstream as an adversary: a world that answers the dials of a call with any list of
  outcomes, lets each wait complete or be cancelled, and records every request that is dialed
  and every wait. \<^verbatim>\<open>http.Client.Do\<close> reads the body of the request it sends. The store of the
  response cache is the in-process cache.

  \<open>dials pre n rt\<close> says that the round tripper \<open>rt\<close>, started in a call that satisfies \<open>pre\<close>, dials at
  most \<open>n\<close> requests and that these are copies of each other: same method, same body, same value
  of the header \<open>H\<close>. The layers are shown to keep it one by one.
\<close>

record upstream =
  script :: "outcome list"
  wakeups :: "bool list"
  dialed :: "httpRequest list"
  waited :: "duration list"
  clock :: instant
  store :: memoryCache
  reg :: registry

definition upstreamDo :: "httpRequest \<Rightarrow> upstream \<Rightarrow> outcome \<times> httpRequest \<times> upstream" where
  "upstreamDo req w =
     (let sent = w\<lparr>dialed := dialed w @ [req], script := tl (script w)\<rparr>;
          read = req\<lparr>rqBody := map_option (\<lambda>_. []) (rqBody req)\<rparr>
      in (if script w = [] then (None, Some (EURL (EOp (EText ''connection refused'')))) else hd (script w), read, sent))"

definition upstreamSleep :: "duration \<Rightarrow> upstream \<Rightarrow> bool \<times> upstream" where
  "upstreamSleep d w =
     (wakeups w = [] \<or> hd (wakeups w),
      w\<lparr>wakeups := tl (wakeups w), waited := waited w @ [d], clock := clock w + max 0 d\<rparr>)"

definition recorder :: "upstream services" where
  "recorder =
     \<lparr>wNow = clock, wSleep = upstreamSleep, wInt63n = (\<lambda>w n. n div 2), wDo = upstreamDo,
      wNewKey = (\<lambda>w. (Inr (''key-'' @ Itoa (int (length (dialed w)))), w)), wParseTime = (\<lambda>_. None)\<rparr>"

definition memoryPort :: "(cacheEntry \<Rightarrow> string option) \<Rightarrow> (string \<Rightarrow> cacheEntry option) \<Rightarrow> upstream cachePort" where
  "memoryPort enc dec =
     \<lparr>portGet = (\<lambda>k w. case memory_Get (clock w) k (store w) of (r, c) \<Rightarrow> (Inr r, w\<lparr>store := c\<rparr>)),
      portSet = (\<lambda>k v ttl w. case memory_Set (clock w) k v ttl (store w) of (e, c) \<Rightarrow> (e, w\<lparr>store := c\<rparr>)),
      encodeEntry = enc, decodeEntry = dec\<rparr>"

subsection \<open>Counting and comparing dials\<close>

definition sameRequest :: "string \<Rightarrow> httpRequest \<Rightarrow> httpRequest \<Rightarrow> bool" where
  "sameRequest H r r' \<longleftrightarrow>
     rqMethod r = rqMethod r' \<and> rqBody r = rqBody r' \<and> headerGet (rqHeader r) H = headerGet (rqHeader r') H"

definition dials :: "string \<Rightarrow> (upstream call \<Rightarrow> bool) \<Rightarrow> nat \<Rightarrow> upstream roundTripper \<Rightarrow> bool" where
  "dials H pre n rt \<longleftrightarrow>
     (\<forall>c. pre c \<longrightarrow>
        (\<exists>rs. dialed (cworld (snd (rt c))) = dialed (cworld c) @ rs \<and> length rs \<le> n \<and>
              (\<forall>r\<in>set rs. \<forall>r'\<in>set rs. sameRequest H r r')))"

lemma dialsI:
  "(\<And>c. pre c \<Longrightarrow> \<exists>rs. dialed (cworld (snd (rt c))) = dialed (cworld c) @ rs \<and> length rs \<le> n \<and>
              (\<forall>r\<in>set rs. \<forall>r'\<in>set rs. sameRequest H r r')) \<Longrightarrow> dials H pre n rt"
  by (simp add: dials_def)

lemma dialsD:
  assumes "dials H pre n rt" and "pre c"
  obtains rs where "dialed (cworld (snd (rt c))) = dialed (cworld c) @ rs" and "length rs \<le> n"
    and "\<forall>r\<in>set rs. \<forall>r'\<in>set rs. sameRequest H r r'"
  using assms by (auto simp: dials_def)

lemma dials_none: "dialed (cworld (snd (rt c))) = dialed (cworld c) \<Longrightarrow>
  \<exists>rs. dialed (cworld (snd (rt c))) = dialed (cworld c) @ rs \<and> length rs \<le> n \<and>
       (\<forall>r\<in>set rs. \<forall>r'\<in>set rs. sameRequest H r r')"
  by (intro exI [of _ "[]"]) simp

lemma dials_weaken: "dials H pre n rt \<Longrightarrow> n \<le> m \<Longrightarrow> (\<And>c. pre' c \<Longrightarrow> pre c) \<Longrightarrow> dials H pre' m rt"
  unfolding dials_def by (meson order_trans)

text \<open>A layer that changes the call without dialing, hands it on at most once, and then leaves the
  record of the dials alone.\<close>

lemma dials_through:
  assumes "dials H pre n nxt"
    and "\<And>c. pre' c \<Longrightarrow>
           (\<exists>d. pre d \<and> dialed (cworld d) = dialed (cworld c) \<and>
                dialed (cworld (snd (l nxt c))) = dialed (cworld (snd (nxt d)))) \<or>
           dialed (cworld (snd (l nxt c))) = dialed (cworld c)"
  shows "dials H pre' n (l nxt)"
proof (rule dialsI)
  fix c assume "pre' c"
  from assms(2) [OF this] show "\<exists>rs. dialed (cworld (snd (l nxt c))) = dialed (cworld c) @ rs \<and> length rs \<le> n \<and>
              (\<forall>r\<in>set rs. \<forall>r'\<in>set rs. sameRequest H r r')"
  proof
    assume "\<exists>d. pre d \<and> dialed (cworld d) = dialed (cworld c) \<and>
                dialed (cworld (snd (l nxt c))) = dialed (cworld (snd (nxt d)))"
    then obtain d where d: "pre d" "dialed (cworld d) = dialed (cworld c)"
      "dialed (cworld (snd (l nxt c))) = dialed (cworld (snd (nxt d)))" by blast
    obtain rs where "dialed (cworld (snd (nxt d))) = dialed (cworld d) @ rs" "length rs \<le> n"
      "\<forall>r\<in>set rs. \<forall>r'\<in>set rs. sameRequest H r r'"
      by (rule dialsD [OF assms(1) d(1)])
    with d show ?thesis by auto
  qed (rule dials_none)
qed

subsection \<open>One attempt\<close>

text \<open>Below the retry loop a call makes one attempt: breaker, signature, transport. It dials at
  most once, with the method, body and header that the call has, and it keeps them for the next
  attempt, except for the body, which the dial has read.\<close>

definition untouched :: "signingPolicy \<Rightarrow> string \<Rightarrow> bool" where
  "untouched p H \<longleftrightarrow>
     \<not> spEnabled p \<or>
     CanonicalHeaderKey H \<notin> CanonicalHeaderKey `
       {spTimestampHeader p, spContentSHA256Header p, spSignatureHeader p, spKeyIdHeader p}"

definition attempt :: "upstream signer \<Rightarrow> signingPolicy \<Rightarrow> upstream roundTripper" where
  "attempt S p = breakerMiddleware recorder (signingMiddleware recorder S p
     (transportMiddleware recorder (invokeAt [])))"

definition kept :: "string \<Rightarrow> upstream call \<Rightarrow> upstream call \<Rightarrow> bool" where
  "kept H c d \<longleftrightarrow>
     rqMethod (creq d) = rqMethod (creq c) \<and> headerGet (rqHeader (creq d)) H = headerGet (rqHeader (creq c)) H \<and>
     obsRequestBody (cobs d) = obsRequestBody (cobs c) \<and>
     (rqBody (creq d) = rqBody (creq c) \<or> rqBody (creq d) = map_option (\<lambda>_. []) (rqBody (creq c)))"

lemma signRequest_keeps:
  assumes "untouched p H" and "spEnabled p"
  shows "rqMethod (signRequest S p now body r) = rqMethod r"
    and "rqBody (signRequest S p now body r) = rqBody r"
    and "headerGet (rqHeader (signRequest S p now body r)) H = headerGet (rqHeader r) H"
  using assms
  by (auto simp: signRequest_def injectSigningHeaders_def setHeader_def Let_def untouched_def
      headerGet_headerSet_other)

definition copyOf :: "string \<Rightarrow> upstream call \<Rightarrow> httpRequest \<Rightarrow> bool" where
  "copyOf H c r \<longleftrightarrow>
     rqMethod r = rqMethod (creq c) \<and> rqBody r = rqBody (creq c) \<and>
     headerGet (rqHeader r) H = headerGet (rqHeader (creq c)) H"

lemma signed_dial:
  assumes "untouched p H"
  shows "\<exists>r res. signingMiddleware recorder S p (transportMiddleware recorder (invokeAt [])) c =
           (res, c\<lparr>creq := r\<lparr>rqBody := map_option (\<lambda>_. []) (rqBody r)\<rparr>,
                   cworld := (cworld c)\<lparr>dialed := dialed (cworld c) @ [r], script := tl (script (cworld c))\<rparr>\<rparr>) \<and>
           copyOf H c r"
proof (cases "spEnabled p")
  case True
  let ?r = "signRequest S p (clock (cworld c)) (bodyForSigning c) (creq c)"
  show ?thesis
    using signRequest_keeps [OF assms True] True
    by (intro exI [of _ ?r] exI [of _ "if script (cworld c) = [] then (None, Some (EURL (EOp (EText ''connection refused'')))) else hd (script (cworld c))"])
       (simp add: signingMiddleware_def transportMiddleware_def recorder_def upstreamDo_def copyOf_def Let_def onReq_def)
next
  case False
  then show ?thesis
    by (intro exI [of _ "creq c"] exI [of _ "if script (cworld c) = [] then (None, Some (EURL (EOp (EText ''connection refused'')))) else hd (script (cworld c))"])
       (simp add: signingMiddleware_def transportMiddleware_def recorder_def upstreamDo_def copyOf_def Let_def)
qed

definition attempted :: "string \<Rightarrow> upstream call \<Rightarrow> upstream call \<Rightarrow> bool" where
  "attempted H c d \<longleftrightarrow>
     kept H c d \<and> obsStreamingRequest (cobs d) = obsStreamingRequest (cobs c) \<and>
     (\<exists>rs. dialed (cworld d) = dialed (cworld c) @ rs \<and> length rs \<le> 1 \<and> (\<forall>r\<in>set rs. copyOf H c r))"

lemma signed_dial_attempted:
  assumes "untouched p H"
    and "signingMiddleware recorder S p (transportMiddleware recorder (invokeAt [])) c = (res, d)"
  shows "attempted H c d"
  using signed_dial [OF assms(1), of S c] assms(2) by (auto simp: attempted_def kept_def copyOf_def)

lemma attempted_same:
  assumes "attempted H c d" and "creq c = creq c0" and "cobs c = f (cobs c0)"
    and "cworld c = cworld c0" and "\<And>ob. obsRequestBody (f ob) = obsRequestBody ob"
    and "\<And>ob. obsStreamingRequest (f ob) = obsStreamingRequest ob"
    and "creq d' = creq d" and "cobs d' = g (cobs d)" and "cworld d' = cworld d"
    and "\<And>ob. obsRequestBody (g ob) = obsRequestBody ob"
    and "\<And>ob. obsStreamingRequest (g ob) = obsStreamingRequest ob"
  shows "attempted H c0 d'"
  using assms by (auto simp: attempted_def kept_def copyOf_def)

lemma attempt_attempted:
  assumes "untouched p H"
  shows "attempted H c (snd (attempt S p c))"
proof -
  let ?nxt = "signingMiddleware recorder S p (transportMiddleware recorder (invokeAt []))"
  have plain: "attempted H c (snd (?nxt (onObs (\<lambda>ob. ob\<lparr>obsBreakerState := ''closed''\<rparr>) c)))"
    by (rule attempted_same [OF signed_dial_attempted [OF assms, of S]
          _ _ _ _ _ refl, where f = "\<lambda>ob. ob\<lparr>obsBreakerState := ''closed''\<rparr>" and g = "\<lambda>ob. ob"
          and c = "onObs (\<lambda>ob. ob\<lparr>obsBreakerState := ''closed''\<rparr>) c"])
       (simp_all add: prod_eq_iff)
  show ?thesis
  proof (cases "cbreaker c")
    case None
    then show ?thesis using plain by (simp add: attempt_def breakerMiddleware_def)
  next
    case (Some b)
    show ?thesis
    proof (cases "Enabled (bpolicy b)")
      case False
      then show ?thesis using plain Some by (simp add: attempt_def breakerMiddleware_def)
    next
      case True
      obtain admitted lab b1 where allow: "Allow (wNow recorder (cworld c)) (cbreaker c) = ((admitted, lab), b1)"
        by (metis prod.exhaust)
      let ?c1 = "onObs (\<lambda>ob. ob\<lparr>obsBreakerState := lab\<rparr>) (c\<lparr>cbreaker := b1\<rparr>)"
      show ?thesis
      proof (cases admitted)
        case False
        then show ?thesis
          using Some True allow
          by (auto simp: attempt_def breakerMiddleware_def attempted_def kept_def onObs_def)
      next
        case admitted: True
        obtain resp err c2 where nxt: "?nxt ?c1 = ((resp, err), c2)" by (metis prod.exhaust)
        from signed_dial_attempted [OF assms nxt] have "attempted H ?c1 c2" .
        then show ?thesis
          using Some True allow admitted nxt
          by (auto simp: attempt_def breakerMiddleware_def attempted_def kept_def copyOf_def onObs_def Let_def)
      qed
    qed
  qed
qed

subsection \<open>The retry loop\<close>

text \<open>What every attempt of one loop sends: method, body, header. The body is the buffered one, or
  the request never had a body worth replaying.\<close>

definition replays :: "string \<Rightarrow> string \<times> string option \<times> string \<Rightarrow> int \<Rightarrow> upstream call \<Rightarrow> bool" where
  "replays H ref k c \<longleftrightarrow>
     (case ref of (m, body, hv) \<Rightarrow>
        rqMethod (creq c) = m \<and> headerGet (rqHeader (creq c)) H = hv \<and> 1 \<le> k \<and>
        rqBody (creq (replayBody k c)) = body \<and>
        (if obsRequestBody (cobs c) = [] then rqBody (creq c) = body \<and> body \<in> {None, Some []}
         else body = Some (obsRequestBody (cobs c))))"

lemma replays_next:
  assumes "replays H ref k c" and "attempted H (replayBody k c) d"
  shows "replays H ref (k + 1) (d\<lparr>cworld := w\<rparr>)"
  using assms
  by (auto simp: replays_def attempted_def kept_def replayBody_def Let_def split: if_splits prod.splits)

lemma replays_copy:
  assumes "replays H (m, body, hv) k c" and "copyOf H (replayBody k c) r"
  shows "rqMethod r = m \<and> rqBody r = body \<and> headerGet (rqHeader r) H = hv"
  using assms by (auto simp: replays_def copyOf_def replayBody_def Let_def split: if_splits)

lemma recorder_sleep [simp]: "dialed (snd (wSleep recorder d w)) = dialed w"
  by (simp add: recorder_def upstreamSleep_def)

lemma retryLoop_dials:
  assumes "\<And>c. attempted H c (snd (nxt c))" and "replays H (m, body, hv) k c"
  shows "\<exists>rs. dialed (cworld (snd (retryLoop recorder p nxt k c))) = dialed (cworld c) @ rs \<and>
              length rs \<le> nat (maxAttempts p + 1 - k) \<and>
              (\<forall>r\<in>set rs. rqMethod r = m \<and> rqBody r = body \<and> headerGet (rqHeader r) H = hv)"
  using assms(2)
proof (induction "nat (maxAttempts p + 1 - k)" arbitrary: k c rule: less_induct)
  case less
  show ?case
  proof (cases "k > maxAttempts p")
    case True
    then show ?thesis by (intro exI [of _ "[]"]) (simp add: retryLoop.simps)
  next
    case False
    obtain resp err c1 where nx: "nxt (replayBody k c) = ((resp, err), c1)" by (metis prod.exhaust)
    have att: "attempted H (replayBody k c) c1" using assms(1) [of "replayBody k c"] nx by simp
    have w: "cworld (replayBody k c) = cworld c" by (simp add: replayBody_def Let_def)
    obtain rs1 where rs1: "dialed (cworld c1) = dialed (cworld c) @ rs1" "length rs1 \<le> 1"
      "\<forall>r\<in>set rs1. copyOf H (replayBody k c) r"
      using att w by (auto simp: attempted_def)
    then have copies: "\<forall>r\<in>set rs1. rqMethod r = m \<and> rqBody r = body \<and> headerGet (rqHeader r) H = hv"
      using replays_copy [OF less.prems] by blast
    have stop: ?thesis if "snd (retryLoop recorder p nxt k c) = d" and "dialed (cworld d) = dialed (cworld c1)" for d
      using that rs1 copies False by (intro exI [of _ rs1]) auto
    obtain slept w' where sl: "wSleep recorder (computeWait recorder (cworld c1) p k (map_option drainResponse resp)) (cworld c1) = (slept, w')"
      by (metis prod.exhaust)
    have w': "dialed w' = dialed (cworld c1)"
      using recorder_sleep [of "computeWait recorder (cworld c1) p k (map_option drainResponse resp)" "cworld c1"] sl by simp
    show ?thesis
    proof (cases "\<not> shouldRetry (resp, err) p \<or> k = maxAttempts p")
      case True
      then show ?thesis using False nx by (intro stop [OF _ refl]) (auto simp: retryLoop.simps [of recorder p nxt k c])
    next
      case again: False
      show ?thesis
      proof (cases slept)
        case False
        then show ?thesis
          using again \<open>\<not> k > maxAttempts p\<close> nx sl w'
          by (intro stop [of "c1\<lparr>cworld := w'\<rparr>"]) (auto simp: retryLoop.simps [of recorder p nxt k c])
      next
        case True
        have loop: "retryLoop recorder p nxt k c = retryLoop recorder p nxt (k + 1) (c1\<lparr>cworld := w'\<rparr>)"
          using again True \<open>\<not> k > maxAttempts p\<close> nx sl by (subst retryLoop.simps) auto
        obtain rs where "dialed (cworld (snd (retryLoop recorder p nxt (k + 1) (c1\<lparr>cworld := w'\<rparr>)))) = dialed w' @ rs"
          "length rs \<le> nat (maxAttempts p + 1 - (k + 1))"
          "\<forall>r\<in>set rs. rqMethod r = m \<and> rqBody r = body \<and> headerGet (rqHeader r) H = hv"
          using less.hyps [OF _ replays_next [OF less.prems att]] again \<open>\<not> k > maxAttempts p\<close> by fastforce
        then show ?thesis
          using loop rs1 copies w' again \<open>\<not> k > maxAttempts p\<close>
          by (intro exI [of _ "rs1 @ rs"]) auto
      qed
    qed
  qed
qed

subsection \<open>The layers above\<close>

text \<open>The buffered body is the body of the request, which the logging layer sees to.\<close>

definition captured :: "upstream call \<Rightarrow> bool" where
  "captured c \<longleftrightarrow>
     obsStreamingRequest (cobs c) \<or>
     (rqBody (creq c) = None \<and> obsRequestBody (cobs c) = []) \<or> rqBody (creq c) = Some (obsRequestBody (cobs c))"

definition budget :: "retryPolicy \<Rightarrow> nat" where
  "budget p = nat (max 1 (maxAttempts p))"

lemma retryMiddleware_dials:
  assumes "\<And>c. attempted H c (snd (nxt c))"
  shows "dials H captured (budget p) (retryMiddleware recorder p nxt)"
proof (rule dialsI)
  fix c assume cap: "captured c"
  show "\<exists>rs. dialed (cworld (snd (retryMiddleware recorder p nxt c))) = dialed (cworld c) @ rs \<and> length rs \<le> budget p \<and>
             (\<forall>r\<in>set rs. \<forall>r'\<in>set rs. sameRequest H r r')"
  proof (cases "obsStreamingRequest (cobs c) \<or> disabled p")
    case True
    let ?c = "onObs (\<lambda>ob. ob\<lparr>obsAttempt := 1\<rparr>) c"
    obtain rs where "dialed (cworld (snd (nxt ?c))) = dialed (cworld c) @ rs" "length rs \<le> 1" "\<forall>r\<in>set rs. copyOf H ?c r"
      using assms [of ?c] by (auto simp: attempted_def)
    with True show ?thesis
      by (intro exI [of _ rs]) (auto simp: retryMiddleware_def budget_def copyOf_def sameRequest_def)
  next
    case False
    then have "replays H (rqMethod (creq c), rqBody (creq c), headerGet (rqHeader (creq c)) H) 1 c"
      using cap by (auto simp: replays_def captured_def replayBody_def Let_def)
    from retryLoop_dials [OF assms this, of p] False show ?thesis
      by (auto simp: retryMiddleware_def budget_def sameRequest_def)
  qed
qed

lemma memoryPort_dialed [simp]:
  "dialed (snd (portGet (memoryPort enc dec) k w)) = dialed w"
  "dialed (snd (portSet (memoryPort enc dec) k v ttl w)) = dialed w"
  by (simp_all add: memoryPort_def split: prod.splits)

lemma captured_onObs:
  "(\<And>ob. obsRequestBody (f ob) = obsRequestBody ob) \<Longrightarrow> (\<And>ob. obsStreamingRequest (f ob) = obsStreamingRequest ob) \<Longrightarrow>
   captured (onObs f c) \<longleftrightarrow> captured c"
  by (simp add: captured_def)

lemma captured_world [simp]: "captured (c\<lparr>cworld := w\<rparr>) \<longleftrightarrow> captured c"
  by (simp add: captured_def)

lemma cacheMiss_world:
  "dialed (cworld (snd (cacheMiss W (memoryPort enc dec) p ca acc key nxt c))) =
   dialed (cworld (snd (nxt (onObs (\<lambda>ob. ob\<lparr>obsCacheStatus := ''miss''\<rparr>) c))))"
proof -
  obtain resp err c1 where nx: "nxt (onObs (\<lambda>ob. ob\<lparr>obsCacheStatus := ''miss''\<rparr>) c) = ((resp, err), c1)"
    by (metis prod.exhaust)
  have port: "dialed w = dialed (cworld c1)" if "portSet (memoryPort enc dec) k v ttl (cworld c1) = (e, w)" for k v ttl e w
    using memoryPort_dialed(2) [of enc dec k v ttl "cworld c1"] that by simp
  show ?thesis
    by (cases resp; cases err)
       (auto simp: cacheMiss_def nx Let_def port split: option.splits prod.splits)
qed

lemma cacheMiddleware_dials:
  assumes "dials H captured n nxt" and "st = None \<or> (\<exists>enc dec. st = Some (memoryPort enc dec))"
  shows "dials H captured n (cacheMiddleware recorder h svc ep st p ca acc nxt)"
proof (rule dials_through [OF assms(1)])
  fix c :: "upstream call" assume cap: "captured c"
  show "(\<exists>d. captured d \<and> dialed (cworld d) = dialed (cworld c) \<and>
             dialed (cworld (snd (cacheMiddleware recorder h svc ep st p ca acc nxt c))) = dialed (cworld (snd (nxt d)))) \<or>
        dialed (cworld (snd (cacheMiddleware recorder h svc ep st p ca acc nxt c))) = dialed (cworld c)"
  proof (cases "st = None \<or> \<not> cpEnabled p \<or> \<not> isCacheableMethod (rqMethod (creq c)) \<or> obsNoCache (cobs c)")
    case True
    then have "cacheMiddleware recorder h svc ep st p ca acc nxt c = nxt (onObs (\<lambda>ob. ob\<lparr>obsCacheStatus := ''bypass''\<rparr>) c)"
      by (auto simp: cacheMiddleware_def Let_def split: option.splits)
    then show ?thesis
      using cap by (intro disjI1 exI [of _ "onObs (\<lambda>ob. ob\<lparr>obsCacheStatus := ''bypass''\<rparr>) c"])
                   (simp add: captured_onObs)
  next
    case False
    then obtain enc dec where st: "st = Some (memoryPort enc dec)" using assms(2) by auto
    let ?key = "if obsCacheKey (cobs c) \<noteq> [] then obsCacheKey (cobs c) else buildCacheKey h svc ep (creq c) p"
    obtain r w where get: "portGet (memoryPort enc dec) ?key (cworld c) = (r, w)" by (metis prod.exhaust)
    have w: "dialed w = dialed (cworld c)"
      using memoryPort_dialed(1) [of enc dec ?key "cworld c"] get by simp
    let ?d = "onObs (\<lambda>ob. ob\<lparr>obsCacheStatus := ''miss''\<rparr>) (c\<lparr>cworld := w\<rparr>)"
    have d: "captured ?d \<and> dialed (cworld ?d) = dialed (cworld c)" using cap w by (simp add: captured_onObs)
    show ?thesis
      using False st get w d
      by (auto simp: cacheMiddleware_def Let_def cacheMiss_world split: sum.splits option.splits)
  qed
qed

lemma idempotencyMiddleware_dials:
  assumes "dials H captured n nxt"
  shows "dials H captured n (idempotencyMiddleware recorder p nxt)"
proof (rule dials_through [OF assms])
  fix c :: "upstream call" assume cap: "captured c"
  let ?go = "\<lambda>key. onObs (\<lambda>ob. ob\<lparr>obsIdempotencyKey := key\<rparr>)
               (onReq (\<lambda>r. r\<lparr>rqHeader := headerSet (rqHeader r) (ipHeader p) key\<rparr>) c)"
  have go: "captured (?go key)" "dialed (cworld (?go key)) = dialed (cworld c)" for key
    using cap by (simp_all add: captured_def)
  show "(\<exists>d. captured d \<and> dialed (cworld d) = dialed (cworld c) \<and>
             dialed (cworld (snd (idempotencyMiddleware recorder p nxt c))) = dialed (cworld (snd (nxt d)))) \<or>
        dialed (cworld (snd (idempotencyMiddleware recorder p nxt c))) = dialed (cworld c)"
  proof -
    have "idempotencyMiddleware recorder p nxt c = nxt c \<or>
          (\<exists>key. idempotencyMiddleware recorder p nxt c = nxt (?go key)) \<or>
          snd (idempotencyMiddleware recorder p nxt c) = c"
      by (auto simp: idempotencyMiddleware_def Let_def recorder_def)
    then show ?thesis
    proof (elim disjE exE)
      assume "idempotencyMiddleware recorder p nxt c = nxt c"
      then show ?thesis using cap by (intro disjI1 exI [of _ c]) simp
    next
      fix key assume "idempotencyMiddleware recorder p nxt c = nxt (?go key)"
      then show ?thesis using go by (intro disjI1 exI [of _ "?go key"]) simp
    qed simp
  qed
qed

text \<open>A provider touches the headers, the query or its own token state.\<close>

definition goodProvider :: "upstream authProvider \<Rightarrow> bool" where
  "goodProvider ap \<longleftrightarrow>
     (\<forall>rq w. dialed (snd (snd (apApply ap rq w))) = dialed w \<and>
             rqBody (fst (snd (apApply ap rq w))) = rqBody rq)"

lemma authMiddleware_dials:
  assumes "dials H captured n nxt" and "\<And>ap. oap = Some ap \<Longrightarrow> goodProvider ap"
  shows "dials H captured n (authMiddleware oap False nxt)"
proof (rule dials_through [OF assms(1)])
  fix c :: "upstream call" assume cap: "captured c"
  show "(\<exists>d. captured d \<and> dialed (cworld d) = dialed (cworld c) \<and>
             dialed (cworld (snd (authMiddleware oap False nxt c))) = dialed (cworld (snd (nxt d)))) \<or>
        dialed (cworld (snd (authMiddleware oap False nxt c))) = dialed (cworld c)"
  proof (cases oap)
    case None
    then show ?thesis using cap by (auto simp: authMiddleware_def)
  next
    case (Some ap)
    let ?c = "onObs (\<lambda>ob. ob\<lparr>obsAuthProvider := apName ap\<rparr>) c"
    obtain e rq w where ap: "apApply ap (creq c) (cworld c) = (e, rq, w)" by (metis prod.exhaust)
    have good: "dialed w = dialed (cworld c)" "rqBody rq = rqBody (creq c)"
      using assms(2) [OF Some] ap unfolding goodProvider_def by (metis fst_conv snd_conv)+
    let ?d = "?c\<lparr>creq := rq, cworld := w\<rparr>"
    have d: "captured ?d" "dialed (cworld ?d) = dialed (cworld c)" using cap good by (simp_all add: captured_def)
    have once: "snd (authMiddleware oap False nxt c) = snd (applyProvider ap nxt ?c)"
    proof -
      obtain resp err c1 where r: "applyProvider ap nxt ?c = ((resp, err), c1)" by (metis prod.exhaust)
      show ?thesis by (cases resp; cases err) (simp_all add: authMiddleware_def Some r split: option.split)
    qed
    show ?thesis
    proof (cases e)
      case None
      then have "applyProvider ap nxt ?c = nxt ?d" using ap by (simp add: applyProvider_def)
      with d once show ?thesis by metis
    next
      case (Some e')
      then have "dialed (cworld (snd (applyProvider ap nxt ?c))) = dialed w"
        using ap by (simp add: applyProvider_def)
      with good once show ?thesis by simp
    qed
  qed
qed

definition fresh :: "upstream call \<Rightarrow> bool" where
  "fresh c \<longleftrightarrow> obsRequestBody (cobs c) = []"

lemma captured_capture: "fresh c \<Longrightarrow> captured (captureRequestObservation c)"
  by (auto simp: captured_def fresh_def captureRequestObservation_def Let_def split: option.splits)

lemma capture_world [simp]: "cworld (captureRequestObservation c) = cworld c"
  by (simp add: captureRequestObservation_def Let_def split: option.splits)

lemma loggingMiddleware_dials:
  assumes "dials H captured n nxt"
  shows "dials H fresh n (loggingMiddleware nxt)"
proof (rule dials_through [OF assms])
  fix c :: "upstream call" assume "fresh c"
  moreover have "cworld (snd (loggingMiddleware nxt c)) = cworld (snd (nxt (captureRequestObservation c)))"
  proof -
    obtain resp err c1 where r: "nxt (captureRequestObservation c) = ((resp, err), c1)" by (metis prod.exhaust)
    show ?thesis by (cases resp; cases err) (simp_all add: loggingMiddleware_def r Let_def)
  qed
  ultimately show "(\<exists>d. captured d \<and> dialed (cworld d) = dialed (cworld c) \<and>
             dialed (cworld (snd (loggingMiddleware nxt c))) = dialed (cworld (snd (nxt d)))) \<or>
        dialed (cworld (snd (loggingMiddleware nxt c))) = dialed (cworld c)"
    by (intro disjI1 exI [of _ "captureRequestObservation c"]) (simp add: captured_capture)
qed

lemma correlationMiddleware_dials:
  assumes "dials H fresh n nxt"
  shows "dials H fresh n (correlationMiddleware th rh cid nxt)"
proof (rule dials_through [OF assms])
  fix c :: "upstream call" assume fr: "fresh c"
  let ?d = "let c1 = onObs (\<lambda>ob. ob\<lparr>obsThreadID := cid\<rparr>) c in
            if cid \<noteq> [] then onReq (setIfAbsent rh cid) (onReq (setIfAbsent th cid) c1) else c1"
  show "(\<exists>d. fresh d \<and> dialed (cworld d) = dialed (cworld c) \<and>
             dialed (cworld (snd (correlationMiddleware th rh cid nxt c))) = dialed (cworld (snd (nxt d)))) \<or>
        dialed (cworld (snd (correlationMiddleware th rh cid nxt c))) = dialed (cworld c)"
    using fr by (intro disjI1 exI [of _ ?d]) (simp add: fresh_def correlationMiddleware_def Let_def)
qed

subsection \<open>The whole chain\<close>

text \<open>The parts of a chain with a provider that behaves and does not revoke, no tracing, and the
  in-process cache or none.\<close>

definition plainParts :: "upstream chainParts \<Rightarrow> bool" where
  "plainParts P \<longleftrightarrow>
     cTracing P = None \<and> \<not> cRevocation P \<and> (\<forall>ap. cProvider P = Some ap \<longrightarrow> goodProvider ap) \<and>
     (cStore P = None \<or> (\<exists>enc dec. cStore P = Some (memoryPort enc dec)))"

lemma buildChain_dials:
  assumes "plainParts P" and "untouched (svSigning svc) H"
  shows "dials H fresh (budget rp) (dispatch (buildChain recorder P svc sname name ep rp))"
proof -
  let ?retry = "retryMiddleware recorder rp (attempt (cSigner P) (svSigning svc))"
  let ?cache = "if cpEnabled (esCache ep) then cacheMiddleware recorder (cHash P) sname name (cStore P) (esCache ep)
                  (esCacheAcceptable ep) (esAcceptableStatus ep) ?retry else ?retry"
  let ?idem = "if ipEnabled (esIdempotency ep) then idempotencyMiddleware recorder (esIdempotency ep) ?cache else ?cache"
  let ?auth = "if cProvider P \<noteq> None then authMiddleware (cProvider P) False ?idem else ?idem"
  have 1: "dials H captured (budget rp) ?retry"
    by (rule retryMiddleware_dials) (use assms in \<open>simp add: attempt_attempted\<close>)
  have 2: "dials H captured (budget rp) ?cache"
    using cacheMiddleware_dials [OF 1] 1 assms(1) by (simp add: plainParts_def)
  have 3: "dials H captured (budget rp) ?idem" using idempotencyMiddleware_dials [OF 2] 2 by simp
  have 4: "dials H captured (budget rp) ?auth"
    using authMiddleware_dials [OF 3, of "cProvider P"] 3 assms(1) by (auto simp: plainParts_def)
  have "dispatch (buildChain recorder P svc sname name ep rp) =
        correlationMiddleware (svThreadID svc) (svRequestID svc) (cCorrelation P) (loggingMiddleware ?auth)"
    using assms(1) by (simp add: dispatch_def buildChain_def optLayer_def plainParts_def attempt_def)
  then show ?thesis
    using correlationMiddleware_dials [OF loggingMiddleware_dials [OF 4]] by simp
qed

subsection \<open>The whole call\<close>

text \<open>A site whose world is the adversary: the token endpoint and the resolver of base URLs do not
  dial the upstream, and the resolver leaves the registry alone.\<close>

definition upstreamSite :: "(upstream, 'r) site \<Rightarrow> bool" where
  "upstreamSite S \<longleftrightarrow>
     stServices S = recorder \<and> stTracing S = None \<and> stRegistry S = reg \<and> stPut S = (\<lambda>r w. w\<lparr>reg := r\<rparr>) \<and>
     (stStore S = None \<or> (\<exists>enc dec. stStore S = Some (memoryPort enc dec))) \<and>
     (\<forall>rq w. dialed (snd (idpDo (stIdp S) rq w)) = dialed w) \<and>
     (\<forall>resolve s w. stResolver S = Some resolve \<longrightarrow>
        dialed (snd (resolve s w)) = dialed w \<and> reg (snd (resolve s w)) = reg w)"

lemma Attach_body [simp]: "rqBody (Attach r a v) = rqBody r"
  by (simp add: Attach_def split: AttachKind.splits)

lemma fetchPayload_dialed:
  assumes "\<forall>rq w. dialed (snd (idpDo I rq w)) = dialed w"
  shows "dialed (snd (fetchPayload I who rq w)) = dialed w"
  using assms [THEN spec, THEN spec, of rq w]
  by (auto simp: fetchPayload_def split: option.splits sum.splits prod.splits)

lemma keepToken_world [simp]: "snd (snd (keepToken I who cfg t pl c w)) = w"
  by (simp add: keepToken_def split: sum.splits)

lemma OAuth2_Apply_good:
  assumes "\<forall>rq w. dialed (snd (idpDo I rq w)) = dialed w" and "OAuth2_Apply I p rq w = (e, rq', p', w')"
  shows "dialed w' = dialed w \<and> rqBody rq' = rqBody rq"
proof -
  let ?f = "fetchPayload I ''oauth2''
    (tokenRequest (oaTokenEndpoint p) ''application/x-www-form-urlencoded'' [] (formEncode (oauth2Form p))) w"
  obtain r w1 where f: "?f = (r, w1)" by (metis prod.exhaust)
  have "dialed (snd (snd (OAuth2_acquireToken I p w))) = dialed w1"
    by (simp add: OAuth2_acquireToken_def f split_beta split: sum.splits option.splits json.splits)
  moreover have "dialed w1 = dialed w" using fetchPayload_dialed [OF assms(1)] f by (metis snd_conv)
  ultimately have "dialed (snd (snd (OAuth2_getOrAcquireToken I p w))) = dialed w"
    by (simp add: OAuth2_getOrAcquireToken_def split: option.splits)
  then show ?thesis using assms(2) by (auto simp: OAuth2_Apply_def split: sum.splits prod.splits)
qed

lemma CE_Apply_good:
  assumes "\<forall>rq w. dialed (snd (idpDo I rq w)) = dialed w" and "CE_Apply I p rq w = (e, rq', p', w')"
  shows "dialed w' = dialed w \<and> rqBody rq' = rqBody rq"
proof -
  have acq: "dialed (snd (snd (CE_acquireToken I q c fs w))) = dialed w" for q c fs
  proof (cases "buildBody I q fs")
    case (Inr b)
    obtain body ct where b: "b = (body, ct)" by (cases b)
    obtain r w1 where f: "fetchPayload I ''credentials-exchange''
        (tokenRequest (ceTokenEndpoint q) ct (ceRequestHeaders q) body) w = (r, w1)" by (metis prod.exhaust)
    have "dialed (snd (snd (CE_acquireToken I q c fs w))) = dialed w1"
      by (simp add: CE_acquireToken_def Inr b f split: sum.splits json.splits)
    then show ?thesis using fetchPayload_dialed [OF assms(1)] f by (metis snd_conv)
  qed (simp add: CE_acquireToken_def)
  then have "dialed (snd (snd (storeIn i q (CE_acquireToken I q c fs w)))) = dialed w" for i q c fs
    by (simp add: storeIn_def split_beta)
  then have "dialed (snd (snd (CE_getOrAcquireToken I p i fs w))) = dialed w" for i fs
    by (simp add: CE_getOrAcquireToken_def split_beta split: option.splits)
  then show ?thesis
    using assms(2) by (auto simp: CE_Apply_def split: sum.splits prod.splits) (metis snd_conv)+
qed

lemma provider_Apply_good:
  assumes "\<forall>rq w. dialed (snd (idpDo I rq w)) = dialed w" and "provider_Apply I p rq w = (e, rq', p', w')"
  shows "dialed w' = dialed w \<and> rqBody rq' = rqBody rq"
  using assms(2) OAuth2_Apply_good [OF assms(1)] CE_Apply_good [OF assms(1)]
  by (cases p)
     (auto simp: HeaderStatic_Apply_def BearerStatic_Apply_def Basic_Apply_def ForwardBearer_Apply_def
       split: prod.splits option.splits if_splits)

lemma boundProvider_good:
  assumes "upstreamSite S"
  shows "goodProvider (boundProvider S on p)"
proof -
  have put: "dialed (putProvider S on q w) = dialed w" for q w
    using assms by (simp add: putProvider_def upstreamSite_def Let_def split: option.splits)
  have "dialed (snd (snd (apApply (boundProvider S on p) rq w))) = dialed w \<and>
        rqBody (fst (snd (apApply (boundProvider S on p) rq w))) = rqBody rq" for rq w
  proof -
    obtain e rq' q w' where a: "provider_Apply (stIdp S) (currentProvider S on p w) rq w = (e, rq', q, w')"
      by (metis prod.exhaust)
    from provider_Apply_good [OF _ a] assms show ?thesis
      by (simp add: boundProvider_def a put upstreamSite_def)
  qed
  then show ?thesis by (simp add: goodProvider_def)
qed

text \<open>No provider of the registry is revoked on a 401.\<close>

definition noRevocation :: "registry \<Rightarrow> bool" where
  "noRevocation r \<longleftrightarrow> (\<forall>(n, flag)\<in>set (rgRevocation r). \<not> flag)"

lemma resolveEffective_plain:
  assumes "noRevocation r" and "resolveEffectiveAuthProvider r svc cfg = Inr (Some (p, flag, on))"
  shows "\<not> flag"
proof (cases "inlineAuth cfg")
  case (Some ia)
  then show ?thesis
    using assms(2) by (cases "buildInlineAuthProvider ia") (auto simp: resolveEffectiveAuthProvider_def)
next
  case None
  have "map_of (rgRevocation r) n \<noteq> Some True" for n
    using assms(1) by (auto simp: noRevocation_def dest: map_of_SomeD)
  then show ?thesis
    using None assms(2)
    by (auto simp: resolveEffectiveAuthProvider_def resolveAuthProvider_def Let_def split: if_splits option.splits)
qed

lemma dispatchCall_dials:
  assumes "upstreamSite S" and "untouched (svSigning svc) H" and "noRevocation (reg w)"
  shows "\<exists>rs. dialed (snd (dispatchCall S sname ename svc ep cfg streaming req w)) = dialed w @ rs \<and>
              length rs \<le> budget (effectiveRetry ep cfg) \<and> (\<forall>r\<in>set rs. \<forall>r'\<in>set rs. sameRequest H r r')"
proof (cases "resolveEffectiveAuthProvider (reg w) svc cfg")
  case (Inl e)
  then show ?thesis
    using assms(1) by (intro exI [of _ "[]"]) (simp add: dispatchCall_def upstreamSite_def)
next
  case (Inr op)
  let ?P = "\<lparr>cTracing = stTracing S, cProvider = map_option (\<lambda>(p, _, on). boundProvider S on p) op,
             cRevocation = (case op of None \<Rightarrow> False | Some (_, flag, _) \<Rightarrow> flag),
             cSigner = stSigner S, cStore = stStore S, cHash = stHash S, cCorrelation = stCorrelation S\<rparr>"
  let ?c = "\<lparr>creq = req, cobs = newObservation ep cfg streaming, cbreaker = breaker sname ename (reg w), cworld = w\<rparr>"
  let ?d = "dispatch (buildChain recorder ?P svc sname ename ep (effectiveRetry ep cfg)) ?c"
  have "\<not> flag" if "op = Some (p, flag, on)" for p flag on
    by (rule resolveEffective_plain [OF assms(3) Inr [unfolded that]])
  then have "plainParts ?P"
    using assms(1) boundProvider_good [OF assms(1)]
    by (auto simp: plainParts_def upstreamSite_def split: option.splits)
  moreover have "fresh ?c" by (simp add: fresh_def newObservation_def)
  ultimately obtain rs where rs: "dialed (cworld (snd ?d)) = dialed (cworld ?c) @ rs"
      "length rs \<le> budget (effectiveRetry ep cfg)" "\<forall>r\<in>set rs. \<forall>r'\<in>set rs. sameRequest H r r'"
    by (rule dialsD [OF buildChain_dials [OF _ assms(2)]])
  obtain out c1 where d: "?d = (out, c1)" by (metis prod.exhaust)
  have "dialed (snd (dispatchCall S sname ename svc ep cfg streaming req w)) = dialed (cworld c1)"
    using assms(1) Inr d
    by (simp add: dispatchCall_def upstreamSite_def Let_def split: option.splits)
  then show ?thesis using rs d by (intro exI [of _ rs]) simp
qed

lemma lookupService_found:
  "map_of (rgServices r) n = Some svc \<Longrightarrow>
   fst (lookupService now n r) = Inr svc \<and> rgRevocation (snd (lookupService now n r)) = rgRevocation r"
  by (auto simp: lookupService_def split: option.splits)

lemma Call_dials:
  assumes S: "upstreamSite S" and svc: "map_of (rgServices (reg w)) sname = Some svc"
    and ep: "map_of (svEndpoints svc) ename = Some ep" and "untouched (svSigning svc) H" and "noRevocation (reg w)"
  shows "\<exists>rs. dialed (snd (Call S sname ename opts w)) = dialed w @ rs \<and>
              length rs \<le> budget (effectiveRetry ep (applyInvokeOptions opts)) \<and>
              (\<forall>r\<in>set rs. \<forall>r'\<in>set rs. sameRequest H r r')"
proof -
  obtain r where l: "lookupService (wNow recorder w) sname (reg w) = (Inr svc, r)" and rv: "rgRevocation r = rgRevocation (reg w)"
    using lookupService_found [OF svc] by (metis prod.collapse)
  let ?w1 = "w\<lparr>reg := r\<rparr>"
  obtain u w2 where u: "resolveBaseURL S sname (svBaseURL svc) (baseURLOverride (applyInvokeOptions opts)) ?w1 = (u, w2)"
    by (metis prod.exhaust)
  have same: "dialed w2 = dialed w \<and> reg w2 = r"
  proof (cases "stResolver S")
    case (Some resolve)
    then have "dialed (snd (resolve sname ?w1)) = dialed w \<and> reg (snd (resolve sname ?w1)) = r"
      using S by (simp add: upstreamSite_def)
    moreover have "w2 = ?w1 \<or> w2 = snd (resolve sname ?w1)"
      using u Some by (auto simp: resolveBaseURL_def split: if_splits sum.splits prod.splits)
    ultimately show ?thesis by auto
  qed (use u in \<open>auto simp: resolveBaseURL_def split: if_splits\<close>)
  then have nr: "noRevocation (reg w2)" using assms(5) rv by (simp add: noRevocation_def)
  have C: "Call S sname ename opts w =
      (let cfg = applyInvokeOptions opts; meta = endpointMeta ep cfg in
       case (u, w2) of
         (Inl e, w2) \<Rightarrow> (CallFailed (buildHttpError sname ename (esMethod ep) Map.empty [] 0 (Some e) 1) None, w2)
       | (Inr baseURL, w2) \<Rightarrow>
           let streamingBody = stStreaming S (emPath meta) in
           if streamingBody \<and> spEnabled (svSigning svc)
           then (CallFailed (buildHttpError sname ename (esMethod ep) Map.empty [] 0
                   (Some (EText (''httpclient: service '' @ quoted sname @
                      '' signs requests but endpoint '' @ quoted ename @ '' has a streaming body''))) 1) None, w2)
           else
             (case stBuild S baseURL meta of
                Inl e \<Rightarrow> (CallError (EWrap (ESentinel ErrRequestBuild)), w2)
              | Inr bound \<Rightarrow>
                  dispatchCall S sname ename svc ep cfg streamingBody (acceptSSE ep (applyInvokeExtras cfg bound)) w2))"
    using S l ep u by (simp add: Call_def upstreamSite_def Let_def)
  show ?thesis
    using dispatchCall_dials [OF S assms(4) nr] same unfolding C Let_def
    by (auto split: sum.splits intro: exI [of _ "[]"])
qed

end
