(* ===== verification/Registry_Contract.thy ===== *)
theory Registry_Contract
  imports Http_Registry
begin

section \<open>What boot and registration guarantee\<close>

text \<open>
  A validated configuration builds; whatever is registered and unregistered afterwards, the services
  of the boot stay as they are and every service finds its provider.
\<close>

subsection \<open>A validated configuration builds\<close>

definition filesUsable :: "certFiles \<Rightarrow> bool" where
  "filesUsable F \<longleftrightarrow> (\<forall>c k. cfKeyPair F c k = None) \<and> (\<forall>b. cfBundle F b = None)"

text \<open>What the validation of one TLS block establishes, and what merging two blocks keeps.\<close>

definition tlsOk :: "TLSConfig \<Rightarrow> bool" where
  "tlsOk m \<longleftrightarrow>
     (tlMinVersion m = [] \<or> map_of supportedTLSVersions (tlMinVersion m) \<noteq> None) \<and>
     (case tlCipherSuites m of None \<Rightarrow> True | Some xs \<Rightarrow> xs = [] \<or> (\<exists>out. resolveCipherSuites xs = Inr out)) \<and>
     (tlClientCertFile m = [] \<longleftrightarrow> tlClientKeyFile m = [])"

lemma validateTLSConfig_ok: "validateTLSConfig prefix (Some m) = [] \<Longrightarrow> tlsOk m"
  unfolding validateTLSConfig_def tlsOk_def
  by (auto split: option.splits list.splits sum.splits if_splits goError.splits)

lemma mergeTLSConfig_ok:
  assumes "\<And>x. d = Some x \<Longrightarrow> tlsOk x" and "\<And>x. s = Some x \<Longrightarrow> tlsOk x" and "mergeTLSConfig d s = Some m"
  shows "tlsOk m"
proof (cases s)
  case None
  then show ?thesis using assms by (auto simp: mergeTLSConfig_def split: option.splits)
next
  case (Some x)
  then have "tlsOk x" using assms(2) by blast
  show ?thesis
  proof (cases d)
    case None
    then show ?thesis using assms(3) Some \<open>tlsOk x\<close> unfolding mergeTLSConfig_def tlsOk_def
      by (auto simp: Let_def split: option.splits if_splits)
  next
    fix y assume y: "d = Some y"
    then have "tlsOk y" using assms(1) by blast
    have m: "tlMinVersion m = (if tlMinVersion x \<noteq> [] then tlMinVersion x else tlMinVersion y)"
        "tlCipherSuites m = (if tlCipherSuites x \<noteq> None then tlCipherSuites x else tlCipherSuites y)"
        "tlClientCertFile m = (if tlClientCertFile x \<noteq> [] then tlClientCertFile x else tlClientCertFile y)"
        "tlClientKeyFile m = (if tlClientKeyFile x \<noteq> [] then tlClientKeyFile x else tlClientKeyFile y)"
      using assms(3) Some y by (auto simp: mergeTLSConfig_def Let_def)
    show ?thesis using \<open>tlsOk x\<close> \<open>tlsOk y\<close> unfolding tlsOk_def m by (simp split: if_splits) blast
  qed
qed

lemma resolveTLSConfig_builds:
  assumes "filesUsable F" and "validateTLSConfig pre d = []" and "validateTLSConfig pre' s = []"
  shows "\<exists>t. resolveTLSConfig F d s = Inr t"
proof (cases "mergeTLSConfig d s")
  case None
  then show ?thesis by (simp add: resolveTLSConfig_def)
next
  case (Some m)
  have "tlsOk m" by (rule mergeTLSConfig_ok [OF _ _ Some]) (use assms(2,3) validateTLSConfig_ok in blast)+
  then show ?thesis
    using Some assms(1)
    by (auto simp: resolveTLSConfig_def tlsOk_def loadCertPair_def filesUsable_def Let_def split: option.splits)
qed

lemma buildServiceClient_builds:
  assumes "filesUsable F" and "validateTLSConfig pre (dfTLS df) = []" and "validateTLSConfig pre' (scTLS sc) = []"
  obtains svc where "buildServiceClient F name sc df = Inr svc"
  using resolveTLSConfig_builds [OF assms] by (auto simp: buildServiceClient_def Let_def)

lemma toRuntimeAttach_fields [simp]:
  "acName (toRuntimeAttach (apAttach p)) = attachField ayName p"
  "acValue (toRuntimeAttach (apAttach p)) = attachField ayValue p"
  by (simp_all add: toRuntimeAttach_def attachField_def noAttach_def split: option.splits)

lemma buildAuthProvider_builds:
  assumes "validateAuthProvider url (name, p) = []"
  obtains q where "buildAuthProvider name' p = Inr q"
proof -
  let ?t = "ToLower (TrimSpace (apType p))"
  have t: "?t \<in> set supportedAuthTypes" and shape: "validateAuthProviderShape url (''httpClient.authProviders.'' @ name) ?t p = []"
    using assms by (auto simp: validateAuthProvider_def Let_def split: if_splits)
  from t consider "?t = ''none''" | "?t = ''header-static''" | "?t = ''bearer-static''" | "?t = ''basic''"
    | "?t = ''forward-bearer''" | "?t = ''oauth2-client-credentials''" | "?t = ''credentials-exchange''"
    by (auto simp: supportedAuthTypes_def)
  then have "\<exists>q. buildAuthProvider name' p = Inr q"
    by cases (use shape in \<open>auto simp: buildAuthProvider_def validateAuthProviderShape_def NewHeaderStaticProvider_def
        NewBearerStaticProvider_def NewBasicProvider_def NewOAuth2ClientCredentialsProvider_def endpointErrors_def
        NewCredentialsExchangeProvider_def Let_def TrimSpace_def ToLower_def split: if_splits\<close>)
  then show thesis using that by blast
qed

lemma Validate_parts:
  assumes "Validate url c = []"
  shows "validateTLSConfig ''httpClient.defaults.tls'' (dfTLS (cgDefaults c)) = []"
    and "(name, sc) \<in> set (cgServices c) \<Longrightarrow> validateTLSConfig (''httpClient.services.'' @ name @ ''.tls'') (scTLS sc) = []"
    and "(pname, p) \<in> set (cgAuthProviders c) \<Longrightarrow> validateAuthProvider url (pname, p) = []"
    and "(name, sc) \<in> set (cgServices c) \<Longrightarrow> scAuth sc = Some q \<Longrightarrow> q \<noteq> [] \<and> map_of (cgAuthProviders c) q \<noteq> None"
proof -
  have d: "validateDefaults url c = []" and s: "\<forall>e\<in>set (cgServices c). validateService url e = []"
    using assms by (auto simp: Validate_def sortedEntries_def)
  show "validateTLSConfig ''httpClient.defaults.tls'' (dfTLS (cgDefaults c)) = []"
    using d by (simp add: validateDefaults_def Let_def)
  show "validateTLSConfig (''httpClient.services.'' @ name @ ''.tls'') (scTLS sc) = []"
    if "(name, sc) \<in> set (cgServices c)"
    using s that by (fastforce simp: validateService_def Let_def)
  show "validateAuthProvider url (pname, p) = []" if "(pname, p) \<in> set (cgAuthProviders c)"
    using d that by (simp add: validateDefaults_def validateAuthProviders_def Let_def)
  have "validateServiceAuthReferences (cgServices c) (cgAuthProviders c) = []"
    using d by (simp add: validateDefaults_def Let_def)
  then show "q \<noteq> [] \<and> map_of (cgAuthProviders c) q \<noteq> None" if "(name, sc) \<in> set (cgServices c)" "scAuth sc = Some q"
    using that by (fastforce simp: validateServiceAuthReferences_def split: if_splits)
qed

lemma bootServices_builds:
  assumes "filesUsable F" and "validateTLSConfig pre (dfTLS df) = []"
    and "\<And>name sc. (name, sc) \<in> set scs \<Longrightarrow> validateTLSConfig (''httpClient.services.'' @ name @ ''.tls'') (scTLS sc) = []"
  shows "\<exists>r'. bootServices F df bp scs r = Inr r'"
  using assms(3)
proof (induction scs arbitrary: r)
  case (Cons e scs)
  obtain name sc where e: "e = (name, sc)" by (cases e)
  obtain svc where "buildServiceClient F name sc df = Inr svc"
    by (rule buildServiceClient_builds [OF assms(1,2) Cons.prems [of name sc]]) (simp_all add: e)
  then show ?case using Cons.IH Cons.prems e by simp
qed simp

lemma buildAuthRegistry_builds:
  assumes "\<And>name p. (name, p) \<in> set ps \<Longrightarrow> validateAuthProvider url (name, p) = []"
  shows "\<exists>reg rev. buildAuthRegistry ps acc = Inr (reg, rev)"
  using assms
proof (induction ps arbitrary: acc)
  case Nil
  then show ?case by (cases acc) simp
next
  case (Cons e ps)
  obtain name p where e: "e = (name, p)" by (cases e)
  obtain q where "buildAuthProvider name p = Inr q"
    by (rule buildAuthProvider_builds [OF Cons.prems [of name p]]) (simp_all add: e)
  then show ?case using Cons.IH Cons.prems e by (cases acc) simp
qed

definition anyFiles :: certFiles where
  "anyFiles = \<lparr>cfKeyPair = (\<lambda>_ _. None), cfBundle = (\<lambda>_. None)\<rparr>"

definition bareProvider :: "string \<Rightarrow> AuthProviderConfig" where
  "bareProvider t =
     \<lparr>apType = t, apAttach = None, apToken = ''t0k3n'', apUsername = [], apPassword = [], apTokenEndpoint = [],
      apClientID = [], apClientSecret = [], apScope = [], apAudience = [], apTokenCache = None,
      apRevocationOnUnauthorized = False, apRequestCodec = [], apRequestFields = [], apRequestFieldsFromCtx = [],
      apRequestHeaders = [], apResponseTokenPath = []\<rparr>"

definition bareEndpoint :: "string \<Rightarrow> EndpointConfig" where
  "bareEndpoint m =
     \<lparr>epMethod = m, epPath = ''/pay'', epRequestCodec = [], epResponseCodec = [], epAcceptableStatus = [], epHeaders = [],
      epCache = None, epCacheAcceptable = False, epRetry = None, epIdempotency = None, epResponseStream = False,
      epResponseSSE = False\<rparr>"

definition bareDefaults :: Defaults where
  "bareDefaults =
     \<lparr>dfTimeout = 0, dfThreadIDHeader = [], dfRequestIDHeader = [], dfLogBodies = None, dfHeaders = [],
      dfRetry = Some \<lparr>rcMaxAttempts = 3, rcBackoff = ''constant'', rcInitialDelay = 1, rcMaxDelay = 1, rcRetryOn = None,
                      rcRespectRetryAfter = None\<rparr>,
      dfCache = None, dfBreaker = Some \<lparr>cbEnabled = None, cbFailureThreshold = 0, cbSuccessThreshold = 0, cbOpenFor = 0\<rparr>,
      dfPool = None, dfTLS = None, dfRedaction = None\<rparr>"

definition oneService :: "string \<Rightarrow> string \<Rightarrow> Config" where
  "oneService name ep =
     \<lparr>cgDefaults = bareDefaults,
      cgServices = [(name, \<lparr>scBaseURL = ''https://bank'', scTimeout = 0, scHeaders = [],
                            scEndpoints = [(ep, bareEndpoint ''POST'')], scAuth = Some ''key'', scTLS = None, scPool = None,
                            scSigning = None, scRedaction = None\<rparr>)],
      cgAuthProviders = [(''key'', bareProvider ''bearer-static'')]\<rparr>"

text \<open>C15: a configuration that passes validation boots. When the certificate files are usable, \<^verbatim>\<open>New\<close>
  returns a client exactly if the validation of the configuration with its defaults finds
  nothing, and otherwise the list of everything it found: no provider constructor and no
  resolution of TLS settings refuses what the validator let through, although defaults and
  service blocks are validated one by one and merged afterwards.
\<close>

theorem validated_config_boots:
  assumes "filesUsable F"
  shows "if Validate url (applyDefaults cfg) = [] then \<exists>r. New F url (Some cfg) = Inr r
         else New F url (Some cfg) = Inl (InvalidConfig (Validate url (applyDefaults cfg)))"
proof (cases "Validate url (applyDefaults cfg) = []")
  case True
  note v = Validate_parts [OF True]
  obtain r where "bootServices F (cgDefaults (applyDefaults cfg))
      (resolveBreakerConfig (dfBreaker (cgDefaults (applyDefaults cfg)))) (cgServices (applyDefaults cfg)) emptyRegistry = Inr r"
    using bootServices_builds [OF assms v(1) v(2)] by blast
  moreover obtain reg rev where "buildAuthRegistry (cgAuthProviders (applyDefaults cfg)) ([], []) = Inr (reg, rev)"
    using buildAuthRegistry_builds [OF v(3)] by blast
  ultimately show ?thesis using True by (simp add: New_def Let_def)
qed (simp add: New_def Let_def)

theorem validated_config_boots_witness:
  "filesUsable anyFiles \<and> Validate (\<lambda>_. True) (applyDefaults (oneService ''bank'' ''pay'')) = [] \<and>
   (\<exists>r. New anyFiles (\<lambda>_. True) (Some (oneService ''bank'' ''pay'')) = Inr r)"
proof -
  have f: "filesUsable anyFiles" by (simp add: filesUsable_def anyFiles_def)
  have v: "Validate (\<lambda>_. True) (applyDefaults (oneService ''bank'' ''pay'')) = []" by code_simp
  from validated_config_boots [OF f, of "\<lambda>_. True" "oneService ''bank'' ''pay''"] f v show ?thesis by simp
qed

subsection \<open>Registration keeps the boot\<close>

definition providersFound :: "registry \<Rightarrow> bool" where
  "providersFound r \<longleftrightarrow>
     (\<forall>name svc. map_of (rgServices r) name = Some svc \<longrightarrow>
        svAuthProvider svc = [] \<or> map_of (rgAuth r) (svAuthProvider svc) \<noteq> None) \<and>
     distinct (map fst (rgServices r))"

text \<open>What a later snapshot \<open>r\<close> keeps of the snapshot \<open>b\<close> of the boot.\<close>

definition keepsBoot :: "registry \<Rightarrow> registry \<Rightarrow> bool" where
  "keepsBoot b r \<longleftrightarrow>
     (\<forall>name svc. map_of (rgServices b) name = Some svc \<longrightarrow>
        map_of (rgServices r) name = Some svc \<and> map_of (rgRuntime r) name = None) \<and>
     (\<forall>p q. map_of (rgAuth b) p = Some q \<longrightarrow>
        map_of (rgAuth r) p = Some q \<and> map_of (rgRevocation r) p = map_of (rgRevocation b) p \<and>
        p \<notin> set (rgRuntimeProviders r))"

lemma buildServiceClient_provider:
  "buildServiceClient F name sc df = Inr svc \<Longrightarrow> svAuthProvider svc = (case scAuth sc of None \<Rightarrow> [] | Some p \<Rightarrow> p)"
  by (auto simp: buildServiceClient_def Let_def split: sum.splits)

lemma registerProviders_keeps:
  assumes "registerProviders ps r added = Inr (r', added')" and "providersFound r" and "keepsBoot b r"
  shows "providersFound r' \<and> keepsBoot b r' \<and> (\<forall>p\<in>fst ` set ps. map_of (rgAuth r') p \<noteq> None) \<and>
         (\<forall>p. map_of (rgAuth r) p \<noteq> None \<longrightarrow> map_of (rgAuth r') p \<noteq> None)"
  using assms
proof (induction ps r added rule: registerProviders.induct)
  case (2 pname p rest r added)
  show ?case
  proof (cases "map_of (rgAuth r) pname")
    case None
    then obtain q where q: "buildAuthProvider pname p = Inr q"
      using "2.prems"(1) by (auto split: sum.splits)
    let ?r = "r\<lparr>rgAuth := AList.update pname q (rgAuth r),
               rgRevocation := AList.update pname (apRevocationOnUnauthorized p) (rgRevocation r),
               rgRuntimeProviders := List.insert pname (rgRuntimeProviders r)\<rparr>"
    have "providersFound ?r" using "2.prems"(2) by (auto simp: providersFound_def update_conv')
    moreover have "map_of (rgAuth b) pname = None"
      using "2.prems"(3) None by (cases "map_of (rgAuth b) pname") (auto simp: keepsBoot_def)
    then have "keepsBoot b ?r" using "2.prems"(3) by (auto simp: keepsBoot_def update_conv')
    ultimately show ?thesis
      using "2.IH"(2) [of q] "2.prems"(1) None q by (auto simp: update_conv')
  next
    case (Some q)
    then show ?thesis using "2.IH"(1) "2.prems" by fastforce
  qed
qed simp

lemma registerServices_keeps:
  assumes "registerServices F df bp now scs r added = Inr (r', added')" and "providersFound r" and "keepsBoot b r"
    and "\<forall>(name, sc)\<in>set scs. \<forall>q. scAuth sc = Some q \<longrightarrow> q \<noteq> [] \<and> map_of (rgAuth r) q \<noteq> None"
  shows "providersFound r' \<and> keepsBoot b r'"
  using assms
proof (induction F df bp now scs r added rule: registerServices.induct)
  case (2 F df bp now name sc rest r added)
  show ?case
  proof (cases "map_of (rgServices r) name")
    case None
    then obtain svc where svc: "buildServiceClient F name sc df = Inr svc"
      using "2.prems"(1) by (auto split: sum.splits)
    let ?r = "r\<lparr>rgServices := AList.update name svc (rgServices r), rgBreakers := addBreakers bp svc (rgBreakers r),
               rgRuntime := AList.update name \<lparr>rmRegisteredAt = now, rmLastUsed = now\<rparr> (rgRuntime r)\<rparr>"
    have "svAuthProvider svc = [] \<or> map_of (rgAuth r) (svAuthProvider svc) \<noteq> None"
      using buildServiceClient_provider [OF svc] "2.prems"(4) by (auto split: option.splits)
    then have "providersFound ?r"
      using "2.prems"(2) by (auto simp: providersFound_def update_conv' distinct_update)
    moreover have "map_of (rgServices b) name = None"
      using "2.prems"(3) None by (cases "map_of (rgServices b) name") (auto simp: keepsBoot_def)
    then have "keepsBoot b ?r" using "2.prems"(3) by (auto simp: keepsBoot_def update_conv')
    ultimately show ?thesis
      using "2.IH"(2) [of svc] "2.prems"(1,4) None svc by auto
  next
    case (Some q)
    then show ?thesis using "2.IH"(1) "2.prems" by auto
  qed
qed simp

lemma RegisterIfAbsent_keeps:
  assumes "providersFound r" and "keepsBoot b r"
  shows "providersFound (snd (RegisterIfAbsent F url now ocfg r)) \<and> keepsBoot b (snd (RegisterIfAbsent F url now ocfg r))"
proof (cases ocfg)
  case None
  then show ?thesis using assms by (simp add: RegisterIfAbsent_def)
next
  case (Some cfg0)
  let ?cfg = "applyDefaults cfg0"
  show ?thesis
  proof (cases "Validate url ?cfg = []")
    case True
    note v = Validate_parts [OF True]
    show ?thesis
    proof (cases "registerProviders (cgAuthProviders ?cfg) r False")
      case (Inr x)
      obtain r1 added where x: "x = (r1, added)" by (cases x)
      have r1: "providersFound r1" "keepsBoot b r1" "\<forall>p\<in>fst ` set (cgAuthProviders ?cfg). map_of (rgAuth r1) p \<noteq> None"
        using registerProviders_keeps [OF Inr [unfolded x] assms] by auto
      have refs: "\<forall>(name, sc)\<in>set (cgServices ?cfg). \<forall>q. scAuth sc = Some q \<longrightarrow> q \<noteq> [] \<and> map_of (rgAuth r1) q \<noteq> None"
        using v(4) r1(3) by (auto simp: map_of_eq_None_iff) blast+
      then show ?thesis
        using Some True Inr x assms registerServices_keeps [OF _ r1(1,2) refs]
        by (auto simp: RegisterIfAbsent_def Let_def split: sum.splits)
    qed (use Some True assms in \<open>simp add: RegisterIfAbsent_def Let_def\<close>)
  qed (use Some assms in \<open>simp add: RegisterIfAbsent_def Let_def\<close>)
qed

lemma fold_delete: "map_of (fold (\<lambda>(ep, _). AList.delete (k ep)) eps m) x = (if x \<in> k ` fst ` set eps then None else map_of m x)"
  by (induction eps arbitrary: m) (auto simp: delete_conv')

lemma dropProvider_keeps:
  assumes "providersFound r" and "keepsBoot b r"
  shows "providersFound (dropProvider p r) \<and> keepsBoot b (dropProvider p r)"
proof (cases "p \<noteq> [] \<and> p \<in> set (rgRuntimeProviders r) \<and> \<not> providerReferenced (rgServices r) p")
  case True
  have "svAuthProvider svc \<noteq> p" if "map_of (rgServices r) name = Some svc" for name svc
    using True map_of_SomeD [OF that] by (auto simp: providerReferenced_def list_ex_iff)
  moreover have "map_of (rgAuth b) p = None"
    using assms(2) True by (cases "map_of (rgAuth b) p") (auto simp: keepsBoot_def)
  ultimately show ?thesis
    using True assms by (auto simp: dropProvider_def providersFound_def keepsBoot_def delete_conv')
qed (use assms in \<open>auto simp: dropProvider_def\<close>)

lemma Unregister_keeps:
  assumes "providersFound r" and "keepsBoot b r"
  shows "providersFound (snd (Unregister name r)) \<and> keepsBoot b (snd (Unregister name r))"
proof (cases "map_of (rgRuntime r) name")
  case (Some m)
  let ?r = "r\<lparr>rgServices := AList.delete name (rgServices r), rgRuntime := AList.delete name (rgRuntime r)\<rparr>"
  have "map_of (rgServices b) name = None"
    using assms(2) Some by (cases "map_of (rgServices b) name") (auto simp: keepsBoot_def)
  then have r: "providersFound ?r" "keepsBoot b ?r"
    using assms by (auto simp: providersFound_def keepsBoot_def delete_conv' distinct_delete)
  have "providersFound (?r\<lparr>rgBreakers := x\<rparr>) \<and> keepsBoot b (?r\<lparr>rgBreakers := x\<rparr>)" for x
    using r by (simp add: providersFound_def keepsBoot_def)
  then show ?thesis
    using Some r dropProvider_keeps by (auto simp: Unregister_def Let_def split: option.splits)
qed (use assms in \<open>simp add: Unregister_def\<close>)

lemma lookupService_keeps:
  assumes "providersFound r" and "keepsBoot b r"
  shows "providersFound (snd (lookupService now name r)) \<and> keepsBoot b (snd (lookupService now name r))"
proof (cases "map_of (rgRuntime r) name")
  case (Some m)
  then have "map_of (rgServices b) name = None"
    using assms(2) by (cases "map_of (rgServices b) name") (auto simp: keepsBoot_def)
  then show ?thesis
    using assms Some
    by (auto simp: lookupService_def providersFound_def keepsBoot_def update_conv' split: option.splits)
qed (use assms in \<open>auto simp: lookupService_def split: option.splits\<close>)

datatype registryOp =
    OpRegister certFiles instant "Config option"
  | OpUnregister string
  | OpCall instant string

fun registryStep :: "(string \<Rightarrow> bool) \<Rightarrow> registry \<Rightarrow> registryOp \<Rightarrow> registry" where
  "registryStep url r (OpRegister F now cfg) = snd (RegisterIfAbsent F url now cfg r)"
| "registryStep url r (OpUnregister name) = snd (Unregister name r)"
| "registryStep url r (OpCall now name) = snd (lookupService now name r)"

interpretation registry_runs: step_invariant "registryStep url" "\<lambda>r. providersFound r \<and> keepsBoot b r" for url b
proof
  fix r c assume "providersFound r \<and> keepsBoot b r"
  then show "providersFound (registryStep url r c) \<and> keepsBoot b (registryStep url r c)"
    by (cases c) (metis RegisterIfAbsent_keeps Unregister_keeps lookupService_keeps registryStep.simps)+
qed

lemma set_update_alist: "set (AList.update k v m) \<subseteq> insert (k, v) (set m)"
  by (induction m) auto

lemma bootServices_services:
  assumes "bootServices F df bp scs r = Inr r'" and "distinct (map fst (rgServices r))"
    and "\<forall>(name, svc)\<in>set (rgServices r). svAuthProvider svc = [] \<or> svAuthProvider svc \<in> A"
    and "\<forall>(name, sc)\<in>set scs. \<forall>q. scAuth sc = Some q \<longrightarrow> q \<in> A"
  shows "distinct (map fst (rgServices r')) \<and> rgRuntime r' = rgRuntime r \<and> rgRuntimeProviders r' = rgRuntimeProviders r \<and>
         (\<forall>(name, svc)\<in>set (rgServices r'). svAuthProvider svc = [] \<or> svAuthProvider svc \<in> A)"
  using assms
proof (induction F df bp scs r rule: bootServices.induct)
  case (2 F df bp name sc rest r)
  then obtain svc where svc: "buildServiceClient F name sc df = Inr svc" by (auto split: sum.splits)
  let ?r = "r\<lparr>rgServices := AList.update name svc (rgServices r), rgBreakers := addBreakers bp svc (rgBreakers r)\<rparr>"
  have "svAuthProvider svc = [] \<or> svAuthProvider svc \<in> A"
    using buildServiceClient_provider [OF svc] "2.prems"(4) by (auto split: option.splits)
  moreover note set_update_alist [of name svc "rgServices r"]
  ultimately have "\<forall>(name, svc)\<in>set (rgServices ?r). svAuthProvider svc = [] \<or> svAuthProvider svc \<in> A"
    using "2.prems"(3) by auto
  then show ?case using "2.IH" [OF svc, of] "2.prems" svc by (simp add: distinct_update)
qed auto

lemma buildAuthRegistry_names:
  "buildAuthRegistry ps (reg0, rev0) = Inr (reg, flags) \<Longrightarrow>
   fst ` set ps \<subseteq> dom (map_of reg) \<and> dom (map_of reg0) \<subseteq> dom (map_of reg)"
proof (induction ps arbitrary: reg0 rev0)
  case (Cons e ps)
  obtain name p where e: "e = (name, p)" by (cases e)
  then obtain q where q: "buildAuthProvider name p = Inr q" using Cons.prems by (auto split: sum.splits)
  have "dom (map_of (AList.update name q reg0)) = insert name (dom (map_of reg0))" by (simp add: update_conv')
  then show ?case
    using Cons.IH [of "AList.update name q reg0" "AList.update name (apRevocationOnUnauthorized p) rev0"] Cons.prems e q
    by auto
qed simp

lemma New_keeps:
  assumes "New F url (Some cfg) = Inr b"
  shows "providersFound b \<and> keepsBoot b b"
proof -
  let ?cfg = "applyDefaults cfg"
  have v: "Validate url ?cfg = []" using assms by (auto simp: New_def Let_def split: if_splits)
  obtain r reg flags where
      r: "bootServices F (cgDefaults ?cfg) (resolveBreakerConfig (dfBreaker (cgDefaults ?cfg))) (cgServices ?cfg) emptyRegistry = Inr r"
    and reg: "buildAuthRegistry (cgAuthProviders ?cfg) ([], []) = Inr (reg, flags)"
    and b: "b = r\<lparr>rgAuth := reg, rgRevocation := flags\<rparr>"
    using assms v by (auto simp: New_def Let_def split: sum.splits)
  have "\<forall>(name, sc)\<in>set (cgServices ?cfg). \<forall>q. scAuth sc = Some q \<longrightarrow> q \<in> dom (map_of reg)"
    using Validate_parts(4) [OF v] buildAuthRegistry_names [OF reg] by (force simp: map_of_eq_None_iff)
  with bootServices_services [OF r, of "dom (map_of reg)"]
  have s: "distinct (map fst (rgServices r))" "rgRuntime r = []" "rgRuntimeProviders r = []"
      "\<forall>(name, svc)\<in>set (rgServices r). svAuthProvider svc = [] \<or> svAuthProvider svc \<in> dom (map_of reg)"
    by (simp_all add: emptyRegistry_def)
  have "providersFound b"
    unfolding providersFound_def using s(1,4) b by (auto dest!: map_of_SomeD)
  moreover have "keepsBoot b b" using s(2,3) b by (simp add: keepsBoot_def)
  ultimately show ?thesis by blast
qed

text \<open>C14: what the boot declared outlives every registration. After any sequence of registrations,
  removals and calls, a service of the boot configuration is still the client that was built
  for it and cannot be unregistered, a provider of the boot is still the same with the same
  revocation flag, and the provider that a service declares is always found.
\<close>

theorem boot_survives_registrations:
  assumes "New F url (Some cfg) = Inr b"
  shows "let r = run_steps (registryStep url) b ops in
         (\<forall>name svc. map_of (rgServices b) name = Some svc \<longrightarrow>
            map_of (rgServices r) name = Some svc \<and> Unregister name r = (False, r)) \<and>
         (\<forall>p q. map_of (rgAuth b) p = Some q \<longrightarrow>
            map_of (rgAuth r) p = Some q \<and> map_of (rgRevocation r) p = map_of (rgRevocation b) p) \<and>
         (\<forall>name svc. map_of (rgServices r) name = Some svc \<longrightarrow> (\<exists>found. resolveAuthProvider r svc [] = Inr found))"
proof -
  let ?r = "run_steps (registryStep url) b ops"
  have inv: "providersFound ?r \<and> keepsBoot b ?r" by (rule registry_runs.run_keeps) (rule New_keeps [OF assms])
  have "\<exists>found. resolveAuthProvider ?r svc [] = Inr found" if "map_of (rgServices ?r) name = Some svc" for name svc
    using inv that by (fastforce simp: resolveAuthProvider_def providersFound_def Let_def)
  then show ?thesis using inv by (auto simp: keepsBoot_def Unregister_def Let_def)
qed

theorem boot_survives_registrations_witness:
  "\<exists>b svc. New anyFiles (\<lambda>_. True) (Some (oneService ''bank'' ''pay'')) = Inr b \<and> map_of (rgServices b) ''bank'' = Some svc \<and>
     map_of (rgServices (run_steps (registryStep (\<lambda>_. True)) b
       [OpRegister anyFiles 5 (Some (oneService ''crm'' ''sync'')), OpUnregister ''bank'', OpUnregister ''crm''])) ''bank'' = Some svc"
proof -
  let ?n = "New anyFiles (\<lambda>_. True) (Some (oneService ''bank'' ''pay''))"
  have "(case ?n of Inl _ \<Rightarrow> False | Inr b \<Rightarrow> map_of (rgServices b) ''bank'' \<noteq> None)" by code_simp
  then obtain b svc where b: "?n = Inr b" "map_of (rgServices b) ''bank'' = Some svc" by (auto split: sum.splits)
  from boot_survives_registrations [OF b(1), of "[OpRegister anyFiles 5 (Some (oneService ''crm'' ''sync'')),
      OpUnregister ''bank'', OpUnregister ''crm'']"] b
  show ?thesis by (simp add: Let_def del: run_steps.simps)
qed

text \<open>The breakers of two services can be one entry. Breakers are kept under the names of service
  and endpoint joined by a vertical bar, which neither name excludes: unregistering a service
  \<^verbatim>\<open>a\<close> with an endpoint \<^verbatim>\<open>b|c\<close> removes the breaker of the endpoint \<^verbatim>\<open>c\<close> of the boot service
  \<^verbatim>\<open>a|b\<close>, which from then on is not protected.
\<close>

theorem unregister_drops_a_boot_breaker:
  "(case New anyFiles (\<lambda>_. True) (Some (oneService ''a|b'' ''c'')) of
      Inl _ \<Rightarrow> False
    | Inr b \<Rightarrow>
        let r = registryStep (\<lambda>_. True) b (OpRegister anyFiles 5 (Some (oneService ''a'' ''b|c''))) in
        breaker ''a|b'' ''c'' b \<noteq> None \<and> breaker ''a|b'' ''c'' r \<noteq> None \<and>
        fst (Unregister ''a'' r) \<and> breaker ''a|b'' ''c'' (snd (Unregister ''a'' r)) = None)"
  by code_simp

end
