(* ===== verification/Http_Contract.thy ===== *)
theory Http_Contract
  imports Http_Props Registry_Contract
begin

section \<open>What the HTTP client guarantees\<close>

text \<open>
  What one call may send upstream, how the response cache tells requests apart, and the places
  where the composition of the layers breaks its promise.
\<close>

subsection \<open>Cache keys\<close>

lemma vary_segments:
  assumes "x @ concat (map (\<lambda>h. s # t @ f h) hs) = y @ concat (map (\<lambda>h. s # t @ g h) hs)"
    and "s \<notin> set t" and "\<And>h. s \<notin> set (f h)" and "\<And>h. s \<notin> set (g h)"
  shows "x = y \<and> (\<forall>h\<in>set hs. f h = g h)"
  using assms(1)
proof (induction hs rule: rev_induct)
  case (snoc h hs)
  have "(x @ concat (map (\<lambda>h. s # t @ f h) hs)) @ s # (t @ f h) =
        (y @ concat (map (\<lambda>h. s # t @ g h) hs)) @ s # (t @ g h)"
    using snoc.prems by simp
  then have eq: "x @ concat (map (\<lambda>h. s # t @ f h) hs) = y @ concat (map (\<lambda>h. s # t @ g h) hs) \<and>
      t @ f h = t @ g h"
    by (rule sep_last) (simp_all add: assms(2-4))
  show ?case using snoc.IH [OF eq [THEN conjunct1]] eq [THEN conjunct2] by simp
qed simp

lemma of_hexDigit: "n < 16 \<Longrightarrow> (of_char (hexDigit n) :: nat) = (if n < 10 then 48 + n else 55 + n)"
  by (simp add: hexDigit_def)

lemma hexDigit_inj: "m < 16 \<Longrightarrow> n < 16 \<Longrightarrow> hexDigit m = hexDigit n \<Longrightarrow> m = n"
  by (drule arg_cong [where f = "of_char :: char \<Rightarrow> nat"]) (simp add: of_hexDigit split: if_splits)

lemma of_char_nibble [simp]: "(of_char (c :: char) :: nat) div 16 < 16"
proof -
  have "(of_char c :: nat) < 256" by (rule nat_of_char_less_256)
  then show ?thesis by linarith
qed

lemma of_char_hex:
  assumes "hexDigit (of_char c div 16) = hexDigit (of_char d div 16)"
    and "hexDigit (of_char c mod 16) = hexDigit (of_char d mod 16)"
  shows "c = d"
proof -
  have "(of_char c :: nat) div 16 = of_char d div 16" "(of_char c :: nat) mod 16 = of_char d mod 16"
    using assms by (auto intro!: hexDigit_inj)
  then have "(of_char c :: nat) = of_char d" by (metis div_mult_mod_eq)
  then show ?thesis by simp
qed

lemma escape_heads [simp]:
  "\<not> unreservedByte (CHR ''+'')" "\<not> unreservedByte (CHR ''%'')" "\<not> unreservedByte (CHR '' '')"
  "\<not> unreservedByte (CHR ''&'')" "\<not> unreservedByte (CHR ''='')" "\<not> unreservedByte (CHR ''|'')"
  by (simp_all add: unreservedByte_def isUpperRune_def isLowerRune_def isDigit_def)

lemma QueryEscape_inj: "QueryEscape s = QueryEscape t \<Longrightarrow> s = t"
proof (induction s arbitrary: t)
  case Nil
  then show ?case by (cases t) (auto split: if_splits)
next
  case (Cons c cs)
  then obtain d ds where t: "t = d # ds" by (cases t) (auto split: if_splits)
  have "c = d \<and> QueryEscape cs = QueryEscape ds"
  proof (cases "c = CHR '' '' \<or> d = CHR '' '' \<or> unreservedByte c \<or> unreservedByte d")
    case True
    then show ?thesis using Cons.prems unfolding t by (fastforce split: if_splits)
  next
    case False
    then show ?thesis using Cons.prems of_char_hex [of c d] unfolding t by simp
  qed
  then show ?case using Cons.IH t by blast
qed

lemma hexDigit_plain:
  assumes "n < 16"
  shows "hexDigit n \<notin> {CHR ''&'', CHR ''='', CHR ''|''}"
proof
  assume "hexDigit n \<in> {CHR ''&'', CHR ''='', CHR ''|''}"
  then have "(of_char (hexDigit n) :: nat) \<in> {38, 61, 124}" by auto
  then show False using assms by (simp add: of_hexDigit split: if_splits)
qed

lemma QueryEscape_plain: "c \<in> set (QueryEscape s) \<Longrightarrow> c \<notin> {CHR ''&'', CHR ''='', CHR ''|''}"
proof (induction s)
  case (Cons d s)
  show ?case
    using Cons hexDigit_plain [of "of_char d div 16"] hexDigit_plain [of "of_char d mod 16"]
    by (auto split: if_splits)
qed simp

lemma joinAmp_Cons: "joinAmp (s # ss) = (if ss = [] then s else s @ CHR ''&'' # joinAmp ss)"
  by (cases ss) simp_all

lemma joinAmp_inj:
  assumes "joinAmp ss = joinAmp ts" and "\<forall>s\<in>set ss \<union> set ts. s \<noteq> [] \<and> CHR ''&'' \<notin> set s"
  shows "ss = ts"
  using assms
proof (induction ss arbitrary: ts)
  case Nil
  then show ?case by (cases ts) (auto simp: joinAmp_Cons split: if_splits)
next
  case (Cons s ss)
  then obtain t tt where ts: "ts = t # tt" by (cases ts) (auto simp: joinAmp_Cons split: if_splits)
  have plain: "CHR ''&'' \<notin> set s" "CHR ''&'' \<notin> set t" using Cons.prems(2) ts by auto
  consider "ss = []" "tt = []" | "ss = []" "tt \<noteq> []" | "ss \<noteq> []" "tt = []" | "ss \<noteq> []" "tt \<noteq> []"
    by blast
  then show ?case
  proof cases
    case 1
    then show ?thesis using Cons.prems(1) ts by simp
  next
    case 2
    then have "s = t @ CHR ''&'' # joinAmp tt" using Cons.prems(1) ts by (simp add: joinAmp_Cons)
    then show ?thesis using plain by simp
  next
    case 3
    then have "t = s @ CHR ''&'' # joinAmp ss" using Cons.prems(1) ts by (simp add: joinAmp_Cons)
    then show ?thesis using plain by simp
  next
    case 4
    then have "s = t \<and> joinAmp ss = joinAmp tt"
      using Cons.prems(1) ts plain by (intro sep_first) (simp_all add: joinAmp_Cons)
    then show ?thesis using Cons.IH [of tt] Cons.prems(2) ts by simp
  qed
qed

lemma queryPair_inj:
  assumes "QueryEscape k @ ''='' @ QueryEscape v = QueryEscape k' @ ''='' @ QueryEscape v'"
  shows "k = k' \<and> v = v'"
proof -
  have "QueryEscape k = QueryEscape k' \<and> QueryEscape v = QueryEscape v'"
    using assms QueryEscape_plain by (intro sep_first [where s = "CHR ''=''"]) auto
  then show ?thesis using QueryEscape_inj by blast
qed

lemma sortedQuery_inj:
  assumes "sortedQuery q = sortedQuery q'"
  shows "queryPairs q = queryPairs q'"
proof -
  let ?f = "\<lambda>(k, v). QueryEscape k @ ''='' @ QueryEscape v"
  have "map ?f (queryPairs q) = map ?f (queryPairs q')"
    using assms unfolding sortedQuery_def by (rule joinAmp_inj) (auto dest: QueryEscape_plain)
  moreover have "x = y" if "?f x = ?f y" for x y
    using that queryPair_inj [of "fst x" "snd x" "fst y" "snd y"] by (cases x; cases y) simp
  then have "inj ?f" by (rule injI)
  ultimately show ?thesis by (simp add: inj_map_eq_map)
qed

lemma joinAmp_set: "c \<in> set (joinAmp ss) \<Longrightarrow> c = CHR ''&'' \<or> (\<exists>s\<in>set ss. c \<in> set s)"
  by (induction ss rule: joinAmp.induct) auto

lemma sortedQuery_plain: "CHR ''|'' \<notin> set (sortedQuery q)"
  using QueryEscape_plain by (fastforce simp: sortedQuery_def dest!: joinAmp_set)

text \<open>C35: the response cache never serves the response of another request: for one endpoint and one
  policy, two cacheable requests with equal keys have the same method, the same path, the same query
  values under the same names, and the same hash of every header the policy varies on. The hash is
  assumed only to print no vertical bar, as hexadecimal does.
\<close>

theorem buildCacheKey_separates_requests:
  assumes "isCacheableMethod (rqMethod r)" and "isCacheableMethod (rqMethod r')"
    and "\<forall>s. CHR ''|'' \<notin> set (hash s)"
    and "buildCacheKey hash service endpoint r p = buildCacheKey hash service endpoint r' p"
  shows "ToUpper (rqMethod r) = ToUpper (rqMethod r') \<and> rqPath r = rqPath r' \<and>
         queryPairs (rqQuery r) = queryPairs (rqQuery r') \<and>
         (\<forall>h\<in>set (cpVaryHeaders p).
            hash (headerGet (rqHeader r) h) = hash (headerGet (rqHeader r') h))"
proof -
  let ?H = "\<lambda>r. concat (map (\<lambda>h. CHR ''|'' # ''h:'' @ hash (headerGet (rqHeader r) h)) (cpVaryHeaders p))"
  let ?Q = "\<lambda>r. concat (map (\<lambda>q. CHR ''|'' # ''q:'' @ hash (queryGet (rqQuery r) q)) (cpVaryQueries p))"
  let ?B = "\<lambda>r. ToUpper (rqMethod r) @ CHR ''|'' # rqPath r @ CHR ''|'' # sortedQuery (rqQuery r)"
  have "(?B r @ ?H r) @ ?Q r = (?B r' @ ?H r') @ ?Q r'"
    using assms(4) by (simp add: buildCacheKey_def)
  then have "?B r @ ?H r = ?B r' @ ?H r'"
    by (rule vary_segments [THEN conjunct1]) (use assms(3) in simp_all)
  then have B: "?B r = ?B r' \<and> (\<forall>h\<in>set (cpVaryHeaders p).
      hash (headerGet (rqHeader r) h) = hash (headerGet (rqHeader r') h))"
    by (rule vary_segments) (use assms(3) in simp_all)
  have m: "CHR ''|'' \<notin> set (ToUpper (rqMethod r))" "CHR ''|'' \<notin> set (ToUpper (rqMethod r'))"
    using assms(1,2) by (auto simp: isCacheableMethod_def)
  have M: "ToUpper (rqMethod r) = ToUpper (rqMethod r') \<and>
      rqPath r @ CHR ''|'' # sortedQuery (rqQuery r) = rqPath r' @ CHR ''|'' # sortedQuery (rqQuery r')"
    by (rule sep_first [OF B [THEN conjunct1] m])
  have "rqPath r = rqPath r' \<and> sortedQuery (rqQuery r) = sortedQuery (rqQuery r')"
    by (rule sep_last [OF M [THEN conjunct2] sortedQuery_plain sortedQuery_plain])
  then show ?thesis using M B sortedQuery_inj by blast
qed

theorem buildCacheKey_separates_requests_witness:
  "isCacheableMethod ''get'' \<and>
   queryPairs [(''b'', [''2'', ''1'']), (''a'', [''x'']) ] = queryPairs [(''a'', [''x'']), (''b'', [''1'', ''2''])]"
proof -
  let ?hash = "\<lambda>s. map (\<lambda>c. CHR ''0'') s"
  let ?r = "\<lparr>rqMethod = ''get'', rqPath = ''/v1/items'', rqQuery = [(''b'', [''2'', ''1'']), (''a'', [''x''])],
             rqHeader = Map.empty, rqBody = None, rqContentLength = 0\<rparr>"
  let ?r' = "\<lparr>rqMethod = ''GET'', rqPath = ''/v1/items'', rqQuery = [(''a'', [''x'']), (''b'', [''1'', ''2''])],
              rqHeader = Map.empty, rqBody = None, rqContentLength = 0\<rparr>"
  let ?p = "\<lparr>cpEnabled = True, cpTTL = 60, cpVaryHeaders = [''Accept''], cpVaryQueries = [''a''],
             cpHonorCacheControl = True\<rparr>"
  have get: "isCacheableMethod (rqMethod ?r)" "isCacheableMethod (rqMethod ?r')" by code_simp+
  have hash: "\<forall>s. CHR ''|'' \<notin> set (?hash s)" by auto
  have "buildCacheKey ?hash ''catalog'' ''items'' ?r ?p = buildCacheKey ?hash ''catalog'' ''items'' ?r' ?p"
    by code_simp
  from buildCacheKey_separates_requests [OF get hash this] get show ?thesis by simp
qed

subsection \<open>What one call sends\<close>

definition bankRegistry :: "EndpointConfig \<Rightarrow> AuthProviderConfig \<Rightarrow> registry" where
  "bankRegistry ec ap =
     emptyRegistry\<lparr>
       rgServices := (case buildServiceClient anyFiles ''bank''
                             \<lparr>scBaseURL = ''https://bank'', scTimeout = 0, scHeaders = [], scEndpoints = [(''pay'', ec)],
                              scAuth = Some ''key'', scTLS = None, scPool = None, scSigning = None, scRedaction = None\<rparr> bareDefaults of
                        Inr svc \<Rightarrow> [(''bank'', svc)] | Inl _ \<Rightarrow> []),
       rgAuth := (case buildAuthProvider ''key'' ap of Inr q \<Rightarrow> [(''key'', q)] | Inl _ \<Rightarrow> []),
       rgRevocation := [(''key'', apRevocationOnUnauthorized ap)]\<rparr>"

definition bankSite :: "(upstream, string) site" where
  "bankSite =
     \<lparr>stServices = recorder,
      stIdp = \<lparr>idpNow = clock, idpParseURL = (\<lambda>_. None), idpDo = (\<lambda>_ w. (Inr (200, Inr ''t0k3n''), w)),
               idpJSON = (\<lambda>s. Inr [(''access_token'', JString s)]), idpMarshal = (\<lambda>fs. concat (map snd fs)), idpPayload = Inr,
               idpRFC3339 = (\<lambda>s. Inr 0), idpSHA256 = (\<lambda>s. s), idpBearer = None, idpContext = None\<rparr>,
      stSigner = \<lparr>sgHexSHA256 = id, sgHexHMAC = (\<lambda>k m. m), sgFormatISO = Itoa, sgFormatHTTP = Itoa, sgHost = (\<lambda>r. [])\<rparr>,
      stHash = id, stRegistry = reg, stPut = (\<lambda>r w. w\<lparr>reg := r\<rparr>), stStore = None, stTracing = None, stResolver = None,
      stCorrelation = ''c-1'', stStreaming = (\<lambda>_. False),
      stBuild = (\<lambda>url meta. Inr \<lparr>rqMethod = emMethod meta, rqPath = emPath meta, rqQuery = [], rqHeader = Map.empty,
                                rqBody = Some ''{}'', rqContentLength = 2\<rparr>),
      stDecode = (\<lambda>meta resp. Inr (respBody resp)), stStreamType = False, stSSEType = False\<rparr>"

definition answering :: "registry \<Rightarrow> int list \<Rightarrow> upstream" where
  "answering r codes =
     \<lparr>script = map (\<lambda>n. (Some \<lparr>StatusCode = n, respHeader = Map.empty, respBody = [], respClosed = False\<rparr>, None)) codes,
      wakeups = [], dialed = [], waited = [], clock = 0, store = NewMemory 4, reg = r\<rparr>"

lemma bankSite_upstream: "upstreamSite bankSite"
  by (simp add: upstreamSite_def bankSite_def)



lemma applyOption_method:
  "methodOverride (applyOption opt c) =
   (case opt of OptConfig cfg \<Rightarrow> if ccMethod cfg \<noteq> [] then ccMethod cfg else methodOverride c | _ \<Rightarrow> methodOverride c)"
  by (cases opt) (simp_all add: WithConfig_def WithExtraHeader_def WithExtraQuery_def)

lemma fold_options_method:
  assumes "\<forall>cfg. OptConfig cfg \<in> set opts \<longrightarrow> ccMethod cfg = []"
  shows "methodOverride (fold applyOption opts c) = methodOverride c"
  using assms
proof (induction opts arbitrary: c)
  case (Cons opt opts)
  then have "methodOverride (fold applyOption opts (applyOption opt c)) = methodOverride (applyOption opt c)" by simp
  also have "\<dots> = methodOverride c" using Cons.prems unfolding applyOption_method by (auto split: InvokeOption.splits)
  finally show ?case by simp
qed simp

lemma effectiveRetry_gated:
  assumes "\<not> methodAllowsRetry (ToUpper (epMethod ec))" and "epIdempotency ec = None"
    and "\<forall>cfg. OptConfig cfg \<in> set opts \<longrightarrow> ccMethod cfg = []"
  shows "budget (effectiveRetry (buildEndpoint df hs ec) (applyInvokeOptions opts)) = 1"
proof -
  have "methodOverride (applyInvokeOptions opts) = []"
    by (simp add: applyInvokeOptions_def fold_options_method [OF assms(3)] emptyInvoke_def)
  then show ?thesis
    using assms(1,2)
    by (auto simp: effectiveRetry_def buildEndpoint_def resolveRetryPolicy_def resolveRetryOverride_def
        resolveIdempotencyPolicy_def effectiveMethod_def Let_def gateMethod_def singleAttempt_def budget_def
        split: option.split)
qed

lemma buildServiceClient_endpoint:
  assumes "buildServiceClient F sname sc df = Inr svc" and "map_of (scEndpoints sc) ename = Some ec"
  obtains hs where "map_of (svEndpoints svc) ename = Some (buildEndpoint df hs ec)"
proof -
  have "map_of (svEndpoints svc) ename =
      map_option (buildEndpoint df (mergeHeaders (dfHeaders df) (scHeaders sc))) (map_of (scEndpoints sc) ename)"
    using assms(1) by (auto simp: buildServiceClient_def Let_def map_of_map split: sum.splits)
  then show thesis using assms(2) that by simp
qed

lemma exists_untouched: "\<exists>H. untouched p H"
proof -
  let ?names = "{''A'', ''B'', ''C'', ''D'', ''E''}"
  let ?used = "CanonicalHeaderKey ` {spTimestampHeader p, spContentSHA256Header p, spSignatureHeader p, spKeyIdHeader p}"
  have same: "\<forall>n\<in>?names. CanonicalHeaderKey n = n" by code_simp
  have "?used = set (map CanonicalHeaderKey
      [spTimestampHeader p, spContentSHA256Header p, spSignatureHeader p, spKeyIdHeader p])" by simp
  then have "card ?used \<le> 4" using card_length [of "map CanonicalHeaderKey
      [spTimestampHeader p, spContentSHA256Header p, spSignatureHeader p, spKeyIdHeader p]"] by simp
  moreover have "card ?names = 5" by simp
  ultimately have "\<not> ?names \<subseteq> ?used" using card_mono [of ?used ?names] by fastforce
  then obtain n where "n \<in> ?names" "n \<notin> ?used" by blast
  then show ?thesis using same by (intro exI [of _ n]) (auto simp: untouched_def)
qed



subsection \<open>Where the composition breaks the promise\<close>

definition overrideMethod :: "string \<Rightarrow> CallConfig" where
  "overrideMethod m =
     \<lparr>ccBaseURL = [], ccTimeout = 0, ccAuthProvider = [], ccMethod = m, ccPath = [], ccRequestCodec = [],
      ccResponseCodec = [], ccAcceptableStatus = [], ccNoCache = False, ccCacheKey = [], ccIdempotencyKey = [],
      ccRetry = None, ccInlineAuth = None\<rparr>"


definition oauthProvider :: AuthProviderConfig where
  "oauthProvider = (bareProvider ''oauth2-client-credentials'')\<lparr>
     apTokenEndpoint := ''https://idp/token'', apClientID := ''id'', apClientSecret := ''secret'',
     apTokenCache := Some \<lparr>tySource = ''ttl'', tySkew = 0, tySingleFlight = None, tyJSONPath = [], tyUnit = [], tyTTL = 60\<rparr>,
     apRevocationOnUnauthorized := True\<rparr>"

definition idempotentPost :: EndpointConfig where
  "idempotentPost = (bareEndpoint ''POST'')\<lparr>epIdempotency := Some \<lparr>icHeader = ''Idempotency-Key'', icSource = ''ctx''\<rparr>\<rparr>"

text \<open>The second dispatch after a 401 is not the same request. With revocation on, an endpoint
  with a generated idempotency key sends, after the credential is refreshed, a request whose
  body was already read, and under another key: the layer restarts the chain below it, and that
  part of the chain replays the body only from its own second attempt on and draws a new key.
\<close>

theorem revocation_resends_another_request:
  "map (\<lambda>r. (rqBody r, headerGet (rqHeader r) ''Idempotency-Key''))
     (dialed (snd (Call bankSite ''bank'' ''pay'' [] (answering (bankRegistry idempotentPost oauthProvider) [401, 200]))))
   = [(Some ''{}'', ''key-0''), (Some [], ''key-1'')]"
  by code_simp

end
