(* ===== verification/Single_Flight.thy ===== *)
theory Single_Flight
  imports Omni_Prelude
begin

text \<open>
  Model of \<^verbatim>\<open>src/infra/httpclient/auth/singleflight.go\<close>: the slot that lets one caller fetch a token
  while the others wait for it. \<^verbatim>\<open>Do\<close> is cut at its critical sections: what a caller does when it
  takes the lock first, what the caller that ran the function does when it takes it again, and
  what a waiter does each time the condition variable lets it look. A step relation interleaves
  these sections for any number of callers; the function itself answers anything, or panics.
\<close>

subsection \<open>The critical sections\<close>

type_synonym flightResult = "string + string"

record singleFlight =
  inFlight :: bool
  result :: flightResult

definition newFlight :: singleFlight where
  "newFlight = \<lparr>inFlight = False, result = Inl []\<rparr>"

text \<open>The first section: True when the caller is the one to run the function.\<close>

definition Do_enter :: "singleFlight \<Rightarrow> bool \<times> singleFlight" where
  "Do_enter s = (if inFlight s then (False, s) else (True, s\<lparr>inFlight := True\<rparr>))"

text \<open>The loop of a waiter: it waits on as long as a run is in flight.\<close>

definition Do_wake :: "singleFlight \<Rightarrow> flightResult option" where
  "Do_wake s = (if inFlight s then None else Some (result s))"

text \<open>The last section of the caller that ran the function.\<close>

definition Do_finish :: "flightResult \<Rightarrow> singleFlight \<Rightarrow> singleFlight" where
  "Do_finish r s = s\<lparr>result := r, inFlight := False\<rparr>"

subsection \<open>Interleavings\<close>

text \<open>
  A caller runs the function, waits since so many runs had finished, or has returned, with the
  number of runs that had finished when it called. The history holds the results of the finished
  runs in order. A panic of the function leaves \<^verbatim>\<open>Do\<close> without the last section.
\<close>

datatype phase = Running nat | Waiting nat | Returned nat flightResult | Panicked

record flightWorld =
  slot :: singleFlight
  callers :: "nat \<rightharpoonup> phase"
  history :: "flightResult list"

definition setPhase :: "nat \<Rightarrow> phase \<Rightarrow> flightWorld \<Rightarrow> flightWorld" where
  "setPhase c ph w = w\<lparr>callers := (callers w)(c \<mapsto> ph)\<rparr>"

datatype flightEvent = FlightCall nat | FlightFinish nat flightResult | FlightLook nat | FlightPanic nat

inductive flightStep :: "flightWorld \<Rightarrow> flightEvent \<Rightarrow> flightWorld \<Rightarrow> bool" where
  call: "callers w c = None \<Longrightarrow> Do_enter (slot w) = (mine, s') \<Longrightarrow>
    flightStep w (FlightCall c)
      (setPhase c (if mine then Running (length (history w)) else Waiting (length (history w))) (w\<lparr>slot := s'\<rparr>))"
| finish: "callers w c = Some (Running n) \<Longrightarrow>
    flightStep w (FlightFinish c r)
      (setPhase c (Returned n r) (w\<lparr>slot := Do_finish r (slot w), history := history w @ [r]\<rparr>))"
| look: "callers w c = Some (Waiting n) \<Longrightarrow> Do_wake (slot w) = Some r \<Longrightarrow>
    flightStep w (FlightLook c) (setPhase c (Returned n r) w)"
| panic: "callers w c = Some (Running n) \<Longrightarrow>
    flightStep w (FlightPanic c) (setPhase c Panicked w)"

inductive flightRun :: "flightWorld \<Rightarrow> flightEvent list \<Rightarrow> flightWorld \<Rightarrow> bool" where
  stop: "flightRun w [] w"
| go: "flightStep w e w' \<Longrightarrow> flightRun w' es w'' \<Longrightarrow> flightRun w (e # es) w''"


definition idleFlight :: flightWorld where
  "idleFlight = \<lparr>slot = newFlight, callers = Map.empty, history = []\<rparr>"

subsection \<open>The invariant\<close>

text \<open>A caller holds the slot from its first section to its last one; a panic never gives it back.\<close>

fun holding :: "phase \<Rightarrow> bool" where
  "holding (Running n) = True"
| "holding Panicked = True"
| "holding _ = False"

definition holds :: "flightWorld \<Rightarrow> nat \<Rightarrow> bool" where
  "holds w c \<longleftrightarrow> (\<exists>ph. callers w c = Some ph \<and> holding ph)"

fun phaseOk :: "flightWorld \<Rightarrow> phase \<Rightarrow> bool" where
  "phaseOk w (Running n) \<longleftrightarrow> n = length (history w)"
| "phaseOk w (Waiting n) \<longleftrightarrow> n < length (history w) \<or> n = length (history w) \<and> inFlight (slot w)"
| "phaseOk w (Returned n r) \<longleftrightarrow> r \<in> set (drop n (history w))"
| "phaseOk w Panicked \<longleftrightarrow> True"

definition flightInv :: "flightWorld \<Rightarrow> bool" where
  "flightInv w \<longleftrightarrow>
     (\<forall>c ph. callers w c = Some ph \<longrightarrow> phaseOk w ph) \<and>
     (\<forall>c c'. holds w c \<and> holds w c' \<longrightarrow> c = c') \<and>
     (inFlight (slot w) \<longleftrightarrow> (\<exists>c. holds w c)) \<and>
     (history w \<noteq> [] \<longrightarrow> result (slot w) = last (history w))"

lemma flightInv_idle: "flightInv idleFlight"
  by (simp add: flightInv_def idleFlight_def newFlight_def holds_def)

lemma holds_setPhase: "holds (setPhase c ph w) c' \<longleftrightarrow> (if c' = c then holding ph else holds w c')"
  by (simp add: holds_def setPhase_def)

lemma holds_slot [simp]: "holds (w\<lparr>slot := s\<rparr>) = holds w" "holds (w\<lparr>slot := s, history := h\<rparr>) = holds w"
  by (simp_all add: holds_def fun_eq_iff)

lemma setPhase_simps [simp]:
  "slot (setPhase c ph w) = slot w" "history (setPhase c ph w) = history w"
  "callers (setPhase c ph w) = (callers w)(c \<mapsto> ph)"
  by (simp_all add: setPhase_def)

lemma phaseOk_setPhase [simp]: "phaseOk (setPhase c ph w) p = phaseOk w p"
  by (cases p) simp_all

lemma last_in_drop: "n < length xs \<Longrightarrow> last xs \<in> set (drop n xs)"
  by (metis drop_eq_Nil last_drop last_in_set not_le)

lemma in_drop_snoc: "r \<in> set (drop n xs) \<Longrightarrow> r \<in> set (drop n (xs @ ys))"
  by (simp add: drop_append)

lemma flightInv_call:
  assumes inv: "flightInv w" and new: "callers w c = None" and enter: "Do_enter (slot w) = (mine, s')"
  shows "flightInv (setPhase c (if mine then Running (length (history w)) else Waiting (length (history w)))
                      (w\<lparr>slot := s'\<rparr>))"
proof (cases "inFlight (slot w)")
  case True
  then have "mine = False" "s' = slot w" using enter by (simp_all add: Do_enter_def)
  moreover have "\<not> holds w c" using new by (simp add: holds_def)
  ultimately show ?thesis using True inv unfolding flightInv_def by (auto simp: holds_setPhase)
next
  case False
  then have "mine = True" "s' = (slot w)\<lparr>inFlight := True\<rparr>" using enter by (auto simp: Do_enter_def)
  moreover have "phaseOk (w\<lparr>slot := (slot w)\<lparr>inFlight := True\<rparr>\<rparr>) ph" if "phaseOk w ph" for ph
    using that False by (cases ph) auto
  ultimately show ?thesis using False inv unfolding flightInv_def by (auto simp: holds_setPhase)
qed

lemma flightInv_finish:
  assumes inv: "flightInv w" and run: "callers w c = Some (Running n)"
  shows "flightInv (setPhase c (Returned n r) (w\<lparr>slot := Do_finish r (slot w), history := history w @ [r]\<rparr>))"
proof -
  let ?w = "w\<lparr>slot := Do_finish r (slot w), history := history w @ [r]\<rparr>"
  have c: "holds w c" using run by (simp add: holds_def)
  have n: "n = length (history w)" using inv run unfolding flightInv_def by fastforce
  have others: "\<not> holds w c'" if "c' \<noteq> c" for c' using inv c that unfolding flightInv_def by blast
  have ok: "phaseOk ?w ph" if "c' \<noteq> c" "callers w c' = Some ph" for c' ph
  proof -
    have "phaseOk w ph" using inv that(2) unfolding flightInv_def by blast
    moreover have "\<not> holding ph" using others [OF that(1)] that(2) by (auto simp: holds_def)
    ultimately show ?thesis by (cases ph) (auto simp: in_drop_snoc)
  qed
  show ?thesis unfolding flightInv_def using n ok others
    by (auto simp: holds_setPhase Do_finish_def)
qed

lemma flightInv_look:
  assumes inv: "flightInv w" and "callers w c = Some (Waiting n)" and "Do_wake (slot w) = Some r"
  shows "flightInv (setPhase c (Returned n r) w)"
proof -
  have free: "\<not> inFlight (slot w)" and r: "r = result (slot w)"
    using assms(3) by (auto simp: Do_wake_def split: if_splits)
  have n: "n < length (history w)" using assms(1,2) free unfolding flightInv_def by fastforce
  then have "result (slot w) = last (history w)" using inv unfolding flightInv_def by fastforce
  with n r have "r \<in> set (drop n (history w))" by (simp add: last_in_drop)
  with inv free show ?thesis unfolding flightInv_def by (auto simp: holds_setPhase)
qed

lemma flightInv_panic:
  assumes inv: "flightInv w" and run: "callers w c = Some (Running n)"
  shows "flightInv (setPhase c Panicked w)"
proof -
  have c: "holds w c" using run by (simp add: holds_def)
  then have "holds (setPhase c Panicked w) = holds w" by (auto simp: holds_setPhase fun_eq_iff)
  with inv show ?thesis unfolding flightInv_def by auto
qed

lemma flightInv_step: "flightStep w e w' \<Longrightarrow> flightInv w \<Longrightarrow> flightInv w'"
proof (induction rule: flightStep.induct)
  case (call w c mine s')
  then show ?case by (intro flightInv_call)
next
  case (finish w c n r)
  then show ?case by (intro flightInv_finish)
next
  case (look w c n r)
  then show ?case by (intro flightInv_look)
next
  case (panic w c n)
  then show ?case by (intro flightInv_panic)
qed

lemma flightInv_run: "flightRun w es w' \<Longrightarrow> flightInv w \<Longrightarrow> flightInv w'"
  by (induction rule: flightRun.induct) (auto dest: flightInv_step)

subsection \<open>What callers get\<close>

text \<open>C23: Concurrent callers share one run. In every interleaving at most one caller runs the function
  at a time, and what any caller returns, whether it ran the function or waited, is the result
  of a run that finished after that caller had called.\<close>

theorem single_flight_shares_one_run:
  assumes "flightRun idleFlight es w"
  shows "(\<forall>c n c' n'. callers w c = Some (Running n) \<and> callers w c' = Some (Running n') \<longrightarrow> c = c') \<and>
         (\<forall>c n r. callers w c = Some (Returned n r) \<longrightarrow> r \<in> set (drop n (history w)))"
proof -
  have inv: "flightInv w" using flightInv_run [OF assms flightInv_idle] .
  have "holds w c" if "callers w c = Some (Running n)" for c n using that by (simp add: holds_def)
  moreover have "r \<in> set (drop n (history w))" if "callers w c = Some (Returned n r)" for c n r
    using inv that unfolding flightInv_def by fastforce
  ultimately show ?thesis using inv unfolding flightInv_def by blast
qed

lemma flightRun_append: "flightRun w es w' \<Longrightarrow> flightRun w' es' w'' \<Longrightarrow> flightRun w (es @ es') w''"
  by (induction rule: flightRun.induct) (auto intro: flightRun.intros)

lemma callers_finite: "flightRun w es w' \<Longrightarrow> finite (dom (callers w)) \<Longrightarrow> finite (dom (callers w'))"
proof (induction rule: flightRun.induct)
  case (go w e w' es w'')
  from go.hyps(1) go.prems have "finite (dom (callers w'))" by cases auto
  with go.IH show ?case .
qed

lemma no_panic_run:
  "flightRun w es w' \<Longrightarrow> \<forall>c. FlightPanic c \<notin> set es \<Longrightarrow> \<forall>c. callers w c \<noteq> Some Panicked \<Longrightarrow>
   callers w' c \<noteq> Some Panicked"
proof (induction rule: flightRun.induct)
  case (go w e w' es w'')
  from go.hyps(1) go.prems have "\<forall>c. callers w' c \<noteq> Some Panicked" by cases auto
  with go.IH go.prems(1) show ?case by simp
qed simp

lemma everybody_looks:
  assumes "distinct cs" and "\<forall>c\<in>set cs. \<exists>n. callers w c = Some (Waiting n)" and "\<not> inFlight (slot w)"
  shows "\<exists>w'. flightRun w (map FlightLook cs) w' \<and> (\<forall>c. c \<notin> set cs \<longrightarrow> callers w' c = callers w c) \<and>
              (\<forall>c\<in>set cs. \<exists>n r. callers w' c = Some (Returned n r))"
  using assms
proof (induction cs arbitrary: w)
  case Nil
  then show ?case by (auto intro: flightRun.stop)
next
  case (Cons c cs)
  then obtain n where "callers w c = Some (Waiting n)" by auto
  then have step: "flightStep w (FlightLook c) (setPhase c (Returned n (result (slot w))) w)"
    using Cons.prems(3) by (intro flightStep.look) (simp_all add: Do_wake_def)
  obtain w' where w': "flightRun (setPhase c (Returned n (result (slot w))) w) (map FlightLook cs) w'"
    "\<forall>d. d \<notin> set cs \<longrightarrow> callers w' d = callers (setPhase c (Returned n (result (slot w))) w) d"
    "\<forall>d\<in>set cs. \<exists>n r. callers w' d = Some (Returned n r)"
  proof -
    have "\<forall>d\<in>set cs. \<exists>m. callers (setPhase c (Returned n (result (slot w))) w) d = Some (Waiting m)"
      using Cons.prems(1,2) by auto
    then show ?thesis using Cons.IH [of "setPhase c (Returned n (result (slot w))) w"] Cons.prems(1,3) that by auto
  qed
  have "flightRun w (map FlightLook (c # cs)) w'" using step w'(1) by (auto intro: flightRun.go)
  moreover have "\<forall>d. d \<notin> set (c # cs) \<longrightarrow> callers w' d = callers w d" using w'(2) by simp
  moreover have "\<exists>n r. callers w' c = Some (Returned n r)" using w'(2) Cons.prems(1) by simp
  ultimately show ?case using w'(3) by auto
qed

definition waiting :: "flightWorld \<Rightarrow> nat set" where
  "waiting w = {c. \<exists>n. callers w c = Some (Waiting n)}"

lemma drain_waiters:
  assumes "flightInv w" and "\<not> inFlight (slot w)" and "finite (dom (callers w))"
  shows "\<exists>es w'. flightRun w es w' \<and> length es = card (waiting w) \<and>
                 (\<forall>c\<in>dom (callers w). \<exists>n r. callers w' c = Some (Returned n r))"
proof -
  have "waiting w \<subseteq> dom (callers w)" by (auto simp: waiting_def)
  then have "finite (waiting w)" using assms(3) finite_subset by blast
  then obtain cs where cs: "set cs = waiting w" "distinct cs" using finite_distinct_list by blast
  then have ex: "\<forall>c\<in>set cs. \<exists>n. callers w c = Some (Waiting n)" by (auto simp: waiting_def)
  obtain w' where w': "flightRun w (map FlightLook cs) w'" "\<forall>c. c \<notin> set cs \<longrightarrow> callers w' c = callers w c"
    "\<forall>c\<in>set cs. \<exists>n r. callers w' c = Some (Returned n r)"
    using everybody_looks [OF cs(2) ex assms(2)] by blast
  have idle: "\<not> holds w c" for c using assms(1,2) unfolding flightInv_def by blast
  have "\<exists>n r. callers w' c = Some (Returned n r)" if c: "c \<in> dom (callers w)" for c
  proof (cases "c \<in> set cs")
    case False
    obtain ph where ph: "callers w c = Some ph" using c by auto
    with idle [of c] False cs(1) show ?thesis using w'(2) by (cases ph) (auto simp: holds_def waiting_def)
  qed (use w'(3) in simp)
  moreover have "length (map FlightLook cs) = card (waiting w)" using distinct_card [OF cs(2)] cs(1) by simp
  ultimately show ?thesis using w'(1) by blast
qed


lemma wedged_step:
  assumes "flightStep w e w'" and inv: "flightInv w" and p: "callers w p = Some Panicked"
  shows "callers w' p = Some Panicked \<and>
         (\<forall>c n r. callers w' c = Some (Returned n r) \<longrightarrow> callers w c = Some (Returned n r))"
proof -
  have stuck: "inFlight (slot w)" using inv p unfolding flightInv_def holds_def by force
  have "callers w c \<noteq> Some (Running n)" for c n
  proof
    assume run: "callers w c = Some (Running n)"
    have "holds w c" "holds w p" using run p by (simp_all add: holds_def)
    then have "c = p" using inv unfolding flightInv_def by blast
    with run p show False by simp
  qed
  with assms(1) p stuck show ?thesis by cases (auto simp: Do_wake_def)
qed

text \<open>C39: A panic of the function wedges the slot. \<^verbatim>\<open>Do\<close> gives the slot back only after the function
  returned, so once a call panicked, whatever happens later, no caller that had not returned by
  then ever does: those that wait and those that come wait for ever.\<close>

theorem panicked_flight_is_wedged:
  assumes "flightRun idleFlight es w" and "callers w p = Some Panicked" and "flightRun w es' w'"
  shows "\<forall>c n r. callers w' c = Some (Returned n r) \<longrightarrow> callers w c = Some (Returned n r)"
proof -
  have "flightInv w" using flightInv_run [OF assms(1) flightInv_idle] .
  with assms(3,2) show ?thesis
  proof (induction rule: flightRun.induct)
    case (go w e w' es w'')
    note step = wedged_step [OF go.hyps(1) go.prems(2,1)]
    have "flightInv w'" using go.hyps(1) go.prems(2) by (rule flightInv_step)
    with go.IH step show ?case by blast
  qed simp
qed

subsection \<open>A stampede of two\<close>

definition oneRunOneWaits :: flightWorld where
  "oneRunOneWaits = setPhase 2 (Waiting 0) (setPhase 1 (Running 0) (idleFlight\<lparr>slot := newFlight\<lparr>inFlight := True\<rparr>\<rparr>))"

lemma stampede_run: "flightRun idleFlight [FlightCall 1, FlightCall 2] oneRunOneWaits"
proof -
  let ?w = "setPhase 1 (Running 0) (idleFlight\<lparr>slot := newFlight\<lparr>inFlight := True\<rparr>\<rparr>)"
  have "flightStep idleFlight (FlightCall 1) ?w"
    using flightStep.call [of idleFlight 1 True "newFlight\<lparr>inFlight := True\<rparr>"]
    by (simp add: idleFlight_def Do_enter_def newFlight_def)
  moreover have "flightStep ?w (FlightCall 2) oneRunOneWaits"
    using flightStep.call [of ?w 2 False "newFlight\<lparr>inFlight := True\<rparr>"]
    by (simp add: oneRunOneWaits_def idleFlight_def Do_enter_def newFlight_def setPhase_def)
  ultimately show ?thesis by (blast intro: flightRun.intros)
qed

definition bothReturned :: flightWorld where
  "bothReturned = setPhase 2 (Returned 0 (Inr ''t'')) (setPhase 1 (Returned 0 (Inr ''t''))
     (oneRunOneWaits\<lparr>slot := Do_finish (Inr ''t'') (slot oneRunOneWaits), history := [Inr ''t'']\<rparr>))"

lemma stampede_returns:
  "flightRun idleFlight ([FlightCall 1, FlightCall 2] @ [FlightFinish 1 (Inr ''t''), FlightLook 2]) bothReturned"
proof (rule flightRun_append [OF stampede_run])
  let ?w = "setPhase 1 (Returned 0 (Inr ''t''))
     (oneRunOneWaits\<lparr>slot := Do_finish (Inr ''t'') (slot oneRunOneWaits), history := [Inr ''t'']\<rparr>)"
  have "flightStep oneRunOneWaits (FlightFinish 1 (Inr ''t'')) ?w"
    using flightStep.finish [of oneRunOneWaits 1 0 "Inr ''t''"] by (simp add: oneRunOneWaits_def idleFlight_def)
  moreover have "flightStep ?w (FlightLook 2) bothReturned"
    using flightStep.look [of ?w 2 0 "Inr ''t''"]
    by (simp add: bothReturned_def oneRunOneWaits_def Do_wake_def Do_finish_def)
  ultimately show "flightRun oneRunOneWaits [FlightFinish 1 (Inr ''t''), FlightLook 2] bothReturned"
    by (blast intro: flightRun.intros)
qed

theorem single_flight_shares_one_run_witness:
  "callers bothReturned 2 = Some (Returned 0 (Inr ''t'')) \<and> Inr ''t'' \<in> set (drop 0 (history bothReturned))"
proof -
  have "callers bothReturned 2 = Some (Returned 0 (Inr ''t''))" by (simp add: bothReturned_def)
  with single_flight_shares_one_run [OF stampede_returns] show ?thesis by blast
qed


theorem panicked_flight_is_wedged_witness:
  "\<exists>w. flightRun (setPhase 1 Panicked oneRunOneWaits) [FlightCall 3] w \<and> callers w 3 = Some (Waiting 0) \<and>
       (\<forall>n r. callers w 2 \<noteq> Some (Returned n r))"
proof -
  let ?p = "setPhase 1 Panicked oneRunOneWaits"
  let ?w = "setPhase 3 (Waiting 0) ?p"
  have "flightStep oneRunOneWaits (FlightPanic 1) ?p"
    by (rule flightStep.panic [of _ _ 0]) (simp add: oneRunOneWaits_def)
  then have before: "flightRun idleFlight ([FlightCall 1, FlightCall 2] @ [FlightPanic 1]) ?p"
    by (intro flightRun_append [OF stampede_run]) (blast intro: flightRun.intros)
  have "flightStep ?p (FlightCall 3) ?w"
    using flightStep.call [of ?p 3 False "slot ?p"]
    by (simp add: oneRunOneWaits_def idleFlight_def Do_enter_def newFlight_def setPhase_def)
  then have after: "flightRun ?p [FlightCall 3] ?w" by (blast intro: flightRun.intros)
  have "callers ?p 2 = Some (Waiting 0)" by (simp add: oneRunOneWaits_def)
  with panicked_flight_is_wedged [OF before _ after, of 1] have "callers ?w 2 \<noteq> Some (Returned n r)" for n r
    by (metis map_upd_Some_unfold option.inject phase.distinct(7) setPhase_simps(3))
  with after show ?thesis by (intro exI [of _ ?w]) simp
qed

end
