(* ===== verification/Transport.thy ===== *)
theory Transport
  imports Go_Lib
begin

text \<open>
  Model of \<^verbatim>\<open>src/infra/transport\<close>: the neutral envelope and the registry of adapters, the Kafka
  adapter's tracker of completed offsets (\<^verbatim>\<open>kafka/kafka.go\<close>), and the outcome handles of the
  JetStream adapter (\<^verbatim>\<open>nats/nats.go\<close>). The broker clients are not modelled; what the adapters
  rely on of them is written into the step relations at the end. A section that holds a mutex is
  one step.
\<close>

subsection \<open>The port\<close>

text \<open>The value is None for a nil slice, which a Kafka tombstone carries.\<close>

record transportMessage =
  msTopic :: string
  msKey :: string
  msValue :: "string option"
  msHeaders :: "(string \<times> string) list"

record SubscribeConfig =
  sbTopics :: "string list"
  sbGroupID :: string
  sbStartFrom :: string
  sbCommitInterval :: duration

type_synonym 'f subscriberFactories = "(string \<times> 'f) list"

definition RegisterSubscriber :: "string \<Rightarrow> 'f \<Rightarrow> 'f subscriberFactories \<Rightarrow> gopanic + 'f subscriberFactories" where
  "RegisterSubscriber name f fs =
     (case map_of fs name of
        Some _ \<Rightarrow> Inl (''transport.RegisterSubscriber: transport '' @ quoted name @ '' already registered'')
      | None \<Rightarrow> Inr ((name, f) # fs))"

definition NewSubscriber :: "string \<Rightarrow> 'c \<Rightarrow> ('c \<Rightarrow> string + 's) subscriberFactories \<Rightarrow> string + 's" where
  "NewSubscriber name cfg fs =
     (case map_of fs name of
        None \<Rightarrow> Inl (''transport: no transport registered for '' @ quoted name @
                     '' (build with the transport's build tag?)'')
      | Some f \<Rightarrow> f cfg)"

subsection \<open>Headers\<close>

text \<open>\<^verbatim>\<open>json.Unmarshal\<close> into a string is a parameter; the fallback trims surrounding quotes.\<close>

definition trimQuotes :: "string \<Rightarrow> string" where
  "trimQuotes s = rev (dropWhile (\<lambda>c. c = CHR 0x22) (rev (dropWhile (\<lambda>c. c = CHR 0x22) s)))"

definition unwrap :: "(string \<Rightarrow> string option) \<Rightarrow> string \<Rightarrow> string" where
  "unwrap decode raw =
     (if raw = [] then [] else case decode raw of Some s \<Rightarrow> s | None \<Rightarrow> trimQuotes raw)"

fun putHeader :: "string \<Rightarrow> string \<Rightarrow> (string \<times> string) list \<Rightarrow> (string \<times> string) list" where
  "putHeader k v [] = [(k, v)]"
| "putHeader k v ((k', v') # hs) = (if k' = k then (k, v) # hs else (k', v') # putHeader k v hs)"

definition flattenHeaders :: "(string \<Rightarrow> string option) \<Rightarrow> (string \<times> string) list \<Rightarrow> (string \<times> string) list" where
  "flattenHeaders decode hs = foldl (\<lambda>out (k, v). putHeader k (unwrap decode v) out) [] hs"

definition toMessage ::
  "(string \<Rightarrow> string option) \<Rightarrow> string \<Rightarrow> string \<Rightarrow> string option \<Rightarrow> (string \<times> string) list \<Rightarrow> transportMessage" where
  "toMessage decode topic key value hs =
     \<lparr>msTopic = topic, msKey = key, msValue = value, msHeaders = flattenHeaders decode hs\<rparr>"

subsection \<open>The Kafka adapter: which offsets may be committed\<close>

datatype startOffset = FirstOffset | LastOffset

definition kafkaStart :: "SubscribeConfig \<Rightarrow> startOffset \<times> duration" where
  "kafkaStart cfg =
     (if sbStartFrom cfg = ''earliest'' then FirstOffset else LastOffset,
      if sbCommitInterval cfg \<le> 0 then second else sbCommitInterval cfg)"

type_synonym partKey = "string \<times> int"

record partState =
  psNext :: int
  psStarted :: bool
  psCompleted :: "int list"

record genTracker =
  gtClosed :: bool
  gtDirty :: bool
  gtParts :: "partKey \<rightharpoonup> partState"

definition newGenTracker :: genTracker where
  "newGenTracker = \<lparr>gtClosed = False, gtDirty = False, gtParts = Map.empty\<rparr>"

definition observe :: "partKey \<Rightarrow> int \<Rightarrow> genTracker \<Rightarrow> genTracker" where
  "observe key offset t =
     (let st = (case gtParts t key of None \<Rightarrow> \<lparr>psNext = 0, psStarted = False, psCompleted = []\<rparr> | Some st \<Rightarrow> st);
          st1 = (if psStarted st then st else st\<lparr>psNext := offset, psStarted := True\<rparr>)
      in t\<lparr>gtParts := (gtParts t)(key \<mapsto> st1)\<rparr>)"

text \<open>The loop of \<^verbatim>\<open>complete\<close>: it removes from the completed offsets while the next one is there.\<close>

function advance :: "int \<Rightarrow> int list \<Rightarrow> int \<times> int list" where
  "advance n done =
     (if n \<in> set done then advance (n + 1) (removeAll n done) else (n, done))"
  by pat_completeness auto
termination
  by (relation "measure (\<lambda>(n, done). length done)") (auto intro: length_removeAll_less)

declare advance.simps [simp del]

datatype transportError = ErrAlreadyCompleted | ErrGenerationEnded | BrokerError string

definition complete :: "partKey \<Rightarrow> int \<Rightarrow> genTracker \<Rightarrow> transportError option \<times> genTracker" where
  "complete key offset t =
     (if gtClosed t then (Some ErrGenerationEnded, t)
      else case gtParts t key of
             None \<Rightarrow> (None, t)
           | Some st \<Rightarrow>
               if offset < psNext st then (None, t)
               else let (n, done) = advance (psNext st) (List.insert offset (psCompleted st))
                    in (None, t\<lparr>gtParts := (gtParts t)(key \<mapsto> st\<lparr>psNext := n, psCompleted := done\<rparr>),
                               gtDirty := (gtDirty t \<or> n \<noteq> psNext st)\<rparr>))"

text \<open>What a flush hands to the coordinator, None when there is nothing new.\<close>

definition flush :: "genTracker \<Rightarrow> (partKey \<rightharpoonup> int) option \<times> genTracker" where
  "flush t =
     (if gtClosed t \<or> \<not> gtDirty t then (None, t)
      else (Some (\<lambda>key. case gtParts t key of
                          None \<Rightarrow> None
                        | Some st \<Rightarrow> if psStarted st then Some (psNext st) else None),
            t\<lparr>gtDirty := False\<rparr>))"

definition closeTracker :: "genTracker \<Rightarrow> genTracker" where
  "closeTracker t = t\<lparr>gtClosed := True\<rparr>"

text \<open>The end of a generation: a last flush, then late completions are dropped.\<close>

definition endGeneration :: "genTracker \<Rightarrow> (partKey \<rightharpoonup> int) option \<times> genTracker" where
  "endGeneration t = (let (offsets, t1) = flush t in (offsets, closeTracker t1))"

text \<open>The handle of one message; \<^verbatim>\<open>sync.Once\<close> lets only its first outcome through.\<close>

record kafkaCompletion =
  kcKey :: partKey
  kcOffset :: int
  kcSettled :: bool

definition kafka_Done ::
  "kafkaCompletion \<Rightarrow> genTracker \<Rightarrow> transportError option \<times> kafkaCompletion \<times> genTracker" where
  "kafka_Done c t =
     (if kcSettled c then (Some ErrAlreadyCompleted, c, t)
      else let (err, t1) = complete (kcKey c) (kcOffset c) t in (err, c\<lparr>kcSettled := True\<rparr>, t1))"

definition kafka_Failed :: "kafkaCompletion \<Rightarrow> transportError option \<times> kafkaCompletion" where
  "kafka_Failed c =
     (if kcSettled c then (Some ErrAlreadyCompleted, c) else (None, c\<lparr>kcSettled := True\<rparr>))"

subsection \<open>A consumer group over the life of its generations\<close>

text \<open>
  \<open>log\<close> tells at which offsets a partition holds a message (it may have gaps), \<open>startAt\<close> where a
  group without a committed offset begins. Each generation has its own tracker and reads each
  assigned partition in offset order from what was committed when it was assigned. The consumer
  settles delivered messages in any order; a flush reaches the coordinator or is rejected; a
  generation ends at any time. \<open>finished\<close> collects the messages that were reported as done.
\<close>

record kafkaWorld =
  trackers :: "nat \<rightharpoonup> genTracker"
  position :: "nat \<Rightarrow> partKey \<Rightarrow> int"
  handles :: "(nat \<times> kafkaCompletion) list"
  committed :: "partKey \<rightharpoonup> int"
  finished :: "(partKey \<times> int) set"

definition nextMessage :: "(partKey \<Rightarrow> int \<Rightarrow> bool) \<Rightarrow> partKey \<Rightarrow> int \<Rightarrow> int \<Rightarrow> bool" where
  "nextMessage log key pos off \<longleftrightarrow> pos \<le> off \<and> log key off \<and> (\<forall>x. pos \<le> x \<and> x < off \<longrightarrow> \<not> log key x)"

definition acceptCommit :: "bool \<Rightarrow> (partKey \<rightharpoonup> int) option \<Rightarrow> (partKey \<rightharpoonup> int) \<Rightarrow> (partKey \<rightharpoonup> int)" where
  "acceptCommit accepted offsets c =
     (case offsets of Some m \<Rightarrow> (if accepted then c ++ m else c) | None \<Rightarrow> c)"

inductive kafkaStep ::
  "(partKey \<Rightarrow> int \<Rightarrow> bool) \<Rightarrow> (partKey \<Rightarrow> int) \<Rightarrow> kafkaWorld \<Rightarrow> kafkaWorld \<Rightarrow> bool"
  for log :: "partKey \<Rightarrow> int \<Rightarrow> bool" and startAt :: "partKey \<Rightarrow> int" where
  assign: "trackers w g = None \<Longrightarrow>
    kafkaStep log startAt w
      (w\<lparr>trackers := (trackers w)(g \<mapsto> newGenTracker),
         position := (position w)(g := \<lambda>key. case committed w key of Some c \<Rightarrow> c | None \<Rightarrow> startAt key)\<rparr>)"
| deliver: "trackers w g = Some t \<Longrightarrow> nextMessage log key (position w g key) off \<Longrightarrow>
    kafkaStep log startAt w
      (w\<lparr>trackers := (trackers w)(g \<mapsto> observe key off t),
         position := (position w)(g := (position w g)(key := off + 1)),
         handles := handles w @ [(g, \<lparr>kcKey = key, kcOffset = off, kcSettled = False\<rparr>)]\<rparr>)"
| settle_done: "i < length (handles w) \<Longrightarrow> handles w ! i = (g, c) \<Longrightarrow> trackers w g = Some t \<Longrightarrow>
    kafka_Done c t = (err, c', t') \<Longrightarrow>
    kafkaStep log startAt w
      (w\<lparr>handles := (handles w)[i := (g, c')], trackers := (trackers w)(g \<mapsto> t'),
         finished := (if kcSettled c then finished w else insert (kcKey c, kcOffset c) (finished w))\<rparr>)"
| settle_failed: "i < length (handles w) \<Longrightarrow> handles w ! i = (g, c) \<Longrightarrow> kafka_Failed c = (err, c') \<Longrightarrow>
    kafkaStep log startAt w (w\<lparr>handles := (handles w)[i := (g, c')]\<rparr>)"
| tick: "trackers w g = Some t \<Longrightarrow> flush t = (offsets, t') \<Longrightarrow>
    kafkaStep log startAt w
      (w\<lparr>trackers := (trackers w)(g \<mapsto> t'), committed := acceptCommit accepted offsets (committed w)\<rparr>)"
| ended: "trackers w g = Some t \<Longrightarrow> endGeneration t = (offsets, t') \<Longrightarrow>
    kafkaStep log startAt w
      (w\<lparr>trackers := (trackers w)(g \<mapsto> t'), committed := acceptCommit accepted offsets (committed w)\<rparr>)"

definition freshGroup :: kafkaWorld where
  "freshGroup = \<lparr>trackers = Map.empty, position = \<lambda>_ _. 0, handles = [], committed = Map.empty, finished = {}\<rparr>"

subsection \<open>The JetStream adapter\<close>

definition subjectPrefix :: string where
  "subjectPrefix = ''omnicore''"

datatype deliverPolicy = DeliverAllPolicy | DeliverNewPolicy

definition deliverPolicyFor :: "string \<Rightarrow> deliverPolicy" where
  "deliverPolicyFor startFrom = (if startFrom = ''earliest'' then DeliverAllPolicy else DeliverNewPolicy)"

definition natsSubjects :: "SubscribeConfig \<Rightarrow> string list" where
  "natsSubjects cfg = map (\<lambda>t. subjectPrefix @ ''.'' @ t) (sbTopics cfg)"

text \<open>
  One handle and the subscription it belongs to. \<^verbatim>\<open>settle\<close> runs inside \<^verbatim>\<open>sync.Once\<close>, which admits
  one caller and makes later ones wait until that one is through; within it, \<^verbatim>\<open>forget\<close> takes the
  mutex of the subscription. \<^verbatim>\<open>Close\<close> holds that mutex while it visits the pending handles, and
  enters the same \<^verbatim>\<open>sync.Once\<close> of each. The steps below are those acquisitions.
\<close>

datatype natsOutcome = Ack | Nak

datatype settler = SettleCalled natsOutcome | SettleInOnce natsOutcome | SettleForgotten natsOutcome
  | SettleReturned "transportError option"

datatype closer = CloseCalled | CloseLocked | CloseVisited | CloseReturned

record natsHandle =
  nhOnceBusy :: bool
  nhOnceDone :: bool
  nhStopped :: bool
  nhReports :: "natsOutcome list"
  nhPending :: bool
  nsMuBusy :: bool
  nsClosed :: bool
  nsSettlers :: "settler list"
  nsCloser :: closer

inductive natsStep :: "natsHandle \<Rightarrow> natsHandle \<Rightarrow> bool" where
  settle_enter: "i < length (nsSettlers w) \<Longrightarrow> nsSettlers w ! i = SettleCalled out \<Longrightarrow> \<not> nhOnceBusy w \<Longrightarrow>
    \<not> nhOnceDone w \<Longrightarrow>
    natsStep w (w\<lparr>nhOnceBusy := True, nhStopped := True, nsSettlers := (nsSettlers w)[i := SettleInOnce out]\<rparr>)"
| settle_forget: "i < length (nsSettlers w) \<Longrightarrow> nsSettlers w ! i = SettleInOnce out \<Longrightarrow> \<not> nsMuBusy w \<Longrightarrow>
    natsStep w (w\<lparr>nhPending := False, nsSettlers := (nsSettlers w)[i := SettleForgotten out]\<rparr>)"
| settle_report: "i < length (nsSettlers w) \<Longrightarrow> nsSettlers w ! i = SettleForgotten out \<Longrightarrow>
    natsStep w (w\<lparr>nhReports := nhReports w @ [out], nhOnceBusy := False, nhOnceDone := True,
                  nsSettlers := (nsSettlers w)[i := SettleReturned err]\<rparr>)"
| settle_again: "i < length (nsSettlers w) \<Longrightarrow> nsSettlers w ! i = SettleCalled out \<Longrightarrow> nhOnceDone w \<Longrightarrow>
    natsStep w (w\<lparr>nsSettlers := (nsSettlers w)[i := SettleReturned (Some ErrAlreadyCompleted)]\<rparr>)"
| close_lock: "nsCloser w = CloseCalled \<Longrightarrow> \<not> nsMuBusy w \<Longrightarrow>
    natsStep w (w\<lparr>nsMuBusy := True, nsClosed := True, nsCloser := CloseLocked\<rparr>)"
| close_visit: "nsCloser w = CloseLocked \<Longrightarrow> nhPending w \<Longrightarrow> \<not> nhOnceBusy w \<Longrightarrow>
    natsStep w (w\<lparr>nhPending := False, nhOnceDone := True, nhStopped := True, nsCloser := CloseVisited\<rparr>)"
| close_skip: "nsCloser w = CloseLocked \<Longrightarrow> \<not> nhPending w \<Longrightarrow> natsStep w (w\<lparr>nsCloser := CloseVisited\<rparr>)"
| close_unlock: "nsCloser w = CloseVisited \<Longrightarrow>
    natsStep w (w\<lparr>nsMuBusy := False, nsCloser := CloseReturned\<rparr>)"

definition trackedHandle :: "settler list \<Rightarrow> natsHandle" where
  "trackedHandle ss =
     \<lparr>nhOnceBusy = False, nhOnceDone = False, nhStopped = False, nhReports = [], nhPending = True,
      nsMuBusy = False, nsClosed = False, nsSettlers = ss, nsCloser = CloseCalled\<rparr>"

end
