(* ===== verification/Transport_Contract.thy ===== *)
theory Transport_Contract
  imports Transport
begin

text \<open>
  What the adapters of \<^verbatim>\<open>src/infra/transport\<close> promise to a consumer: the tracker of the Kafka adapter
  commits exactly the completed prefix, and over the life of a consumer group no offset is
  committed past a message that was not reported as done; where a gap in the offsets stops it;
  and how the handles of the JetStream adapter behave under concurrent calls.
\<close>

subsection \<open>The completed prefix\<close>

text \<open>The first offset from \<open>n\<close> on that is not in a list, as a reference.\<close>

definition firstMissing :: "int \<Rightarrow> int list \<Rightarrow> int" where
  "firstMissing n os = fst (advance n os)"

lemma advance_spec:
  "advance n os = (m, rest) \<Longrightarrow>
   n \<le> m \<and> m \<notin> set os \<and> (\<forall>x. n \<le> x \<and> x < m \<longrightarrow> x \<in> set os) \<and> set rest = set os - {n..<m}"
proof (induction n os arbitrary: m rest rule: advance.induct)
  case (1 n os)
  show ?case
  proof (cases "n \<in> set os")
    case False
    then show ?thesis using "1.prems" by (subst (asm) advance.simps) auto
  next
    case True
    then have step: "advance (n + 1) (removeAll n os) = (m, rest)" using "1.prems" by (subst (asm) advance.simps) simp
    have ih: "n + 1 \<le> m" "m \<in> set os \<longrightarrow> m = n" "\<forall>x. n + 1 \<le> x \<and> x < m \<longrightarrow> x \<in> set os"
      "set rest = set os - {n} - {n + 1..<m}"
      using "1.IH" [OF True step] by auto
    have "{n..<m} = insert n {n + 1..<m}" using ih(1) by (simp add: set_eq_iff) linarith
    then have rest: "set rest = set os - {n..<m}" using ih(4) by blast
    have below: "x \<in> set os" if "n \<le> x \<and> x < m" for x
      using True ih(3) that by (cases "x = n") auto
    have "m \<notin> set os" "n \<le> m" using ih(1,2) by linarith+
    with rest below show ?thesis by blast
  qed
qed

lemmas firstMissing_spec = advance_spec [OF prod.collapse [symmetric], folded firstMissing_def]

lemma firstMissing_ge: "n \<le> firstMissing n os"
  using firstMissing_spec by blast

lemma firstMissing_fresh: "firstMissing n os \<notin> set os"
  using firstMissing_spec by blast

lemma firstMissing_below: "n \<le> x \<Longrightarrow> x < firstMissing n os \<Longrightarrow> x \<in> set os"
  using firstMissing_spec by blast

lemma firstMissing_unique:
  assumes "n \<le> m" and "m \<notin> set os" and "\<And>x. n \<le> x \<Longrightarrow> x < m \<Longrightarrow> x \<in> set os"
  shows "firstMissing n os = m"
proof (rule ccontr)
  assume "firstMissing n os \<noteq> m"
  then consider "firstMissing n os < m" | "m < firstMissing n os" by linarith
  then show False
  proof cases
    case 1
    then show False using assms(3) firstMissing_ge firstMissing_fresh by blast
  next
    case 2
    then show False using assms(1,2) firstMissing_below by blast
  qed
qed

text \<open>Completing the offsets of a list in turn.\<close>

definition completeAll :: "partKey \<Rightarrow> int list \<Rightarrow> genTracker \<Rightarrow> genTracker" where
  "completeAll key os t = fold (\<lambda>off t. snd (complete key off t)) os t"

text \<open>What the tracker holds of a partition after completing a list.\<close>

definition tracked :: "partKey \<Rightarrow> int \<Rightarrow> int list \<Rightarrow> genTracker \<Rightarrow> bool" where
  "tracked key from os t \<longleftrightarrow>
     \<not> gtClosed t \<and>
     (\<exists>st. gtParts t key = Some st \<and> psStarted st \<and> psNext st = firstMissing from os \<and>
           set (psCompleted st) = {x \<in> set os. firstMissing from os < x} \<and>
           (gtDirty t \<longleftrightarrow> firstMissing from os \<noteq> from))"

lemma firstMissing_insert_below:
  assumes "off < firstMissing from os"
  shows "firstMissing from (os @ [off]) = firstMissing from os"
proof (rule firstMissing_unique)
  show "from \<le> firstMissing from os" by (rule firstMissing_ge)
  show "firstMissing from os \<notin> set (os @ [off])" using assms firstMissing_fresh by auto
  show "x \<in> set (os @ [off])" if "from \<le> x" "x < firstMissing from os" for x
    using firstMissing_below [OF that] by simp
qed

lemma tracked_complete:
  assumes "tracked key from os t"
  shows "tracked key from (os @ [off]) (snd (complete key off t))"
proof -
  let ?m = "firstMissing from os"
  obtain st where st: "gtParts t key = Some st" "psStarted st" "psNext st = ?m"
    "set (psCompleted st) = {x \<in> set os. ?m < x}" "gtDirty t \<longleftrightarrow> ?m \<noteq> from" "\<not> gtClosed t"
    using assms by (auto simp: tracked_def)
  show ?thesis
  proof (cases "off < ?m")
    case True
    then have "snd (complete key off t) = t" using st by (simp add: complete_def)
    moreover have "{x \<in> set (os @ [off]). ?m < x} = {x \<in> set os. ?m < x}" using True by auto
    ultimately show ?thesis using assms by (simp add: tracked_def firstMissing_insert_below [OF True])
  next
    case False
    obtain n rest where adv: "advance ?m (List.insert off (psCompleted st)) = (n, rest)" by fastforce
    note a = advance_spec [OF adv]
    have n: "firstMissing from (os @ [off]) = n"
    proof (rule firstMissing_unique)
      show "from \<le> n" using a firstMissing_ge [of "from" os] by linarith
      show "n \<notin> set (os @ [off])"
      proof
        assume "n \<in> set (os @ [off])"
        moreover have "n \<noteq> off" using a by auto
        ultimately have "n \<in> set os" by simp
        then have "n \<noteq> ?m" using firstMissing_fresh [of "from" os] by auto
        with a \<open>n \<in> set os\<close> st(4) show False by auto
      qed
      fix x
      assume x: "from \<le> x" "x < n"
      show "x \<in> set (os @ [off])"
      proof (cases "x < ?m")
        case True
        then show ?thesis using firstMissing_below [OF x(1)] by simp
      next
        case False
        then have "x \<in> set (List.insert off (psCompleted st))" using a x(2) by simp
        then show ?thesis using st(4) by auto
      qed
    qed
    have fresh: "n \<notin> set (os @ [off])" using firstMissing_fresh [of "from" "os @ [off]"] n by simp
    have "set rest = insert off {x \<in> set os. ?m < x} - {?m..<n}" using a st(4) by simp
    also have "\<dots> = {x \<in> set (os @ [off]). n < x}"
    proof (intro set_eqI iffI)
      fix x
      assume "x \<in> insert off {x \<in> set os. ?m < x} - {?m..<n}"
      then have "x \<in> set (os @ [off])" "n \<le> x" using False by auto
      with fresh show "x \<in> {x \<in> set (os @ [off]). n < x}" by (auto simp: less_le)
    next
      fix x
      assume "x \<in> {x \<in> set (os @ [off]). n < x}"
      with a show "x \<in> insert off {x \<in> set os. ?m < x} - {?m..<n}" by auto
    qed
    finally have rest: "set rest = {x \<in> set (os @ [off]). n < x}" .
    have "snd (complete key off t) =
      t\<lparr>gtParts := (gtParts t)(key \<mapsto> st\<lparr>psNext := n, psCompleted := rest\<rparr>), gtDirty := (gtDirty t \<or> n \<noteq> ?m)\<rparr>"
      using st False adv by (simp add: complete_def)
    moreover have "gtDirty t \<or> n \<noteq> ?m \<longleftrightarrow> n \<noteq> from" using st(5) a firstMissing_ge [of "from" os] by auto
    ultimately show ?thesis using st(2,6) n rest by (simp add: tracked_def)
  qed
qed

lemma tracked_completeAll:
  "tracked key from os t \<Longrightarrow> tracked key from (os @ offs) (completeAll key offs t)"
proof (induction offs arbitrary: os t)
  case (Cons off offs)
  from Cons.IH [OF tracked_complete [OF Cons.prems]] show ?case by (simp add: completeAll_def)
qed (simp add: completeAll_def)

lemma flush_completeAll:
  "\<exists>m. fst (flush (completeAll key offs (observe key n newGenTracker))) = (if n \<in> set offs then Some m else None) \<and>
       m key = Some (firstMissing n offs)"
proof -
  let ?t = "observe key n newGenTracker"
  have empty: "firstMissing n [] = n" by (simp add: firstMissing_def advance.simps)
  have "tracked key n [] ?t"
    by (simp add: tracked_def observe_def newGenTracker_def empty)
  then have "tracked key n offs (completeAll key offs ?t)"
    using tracked_completeAll [of key n "[]" ?t offs] by simp
  then obtain st where st: "gtParts (completeAll key offs ?t) key = Some st" "psStarted st"
    "psNext st = firstMissing n offs" "\<not> gtClosed (completeAll key offs ?t)"
    "gtDirty (completeAll key offs ?t) \<longleftrightarrow> firstMissing n offs \<noteq> n"
    by (auto simp: tracked_def)
  moreover have "firstMissing n offs = n \<longleftrightarrow> n \<notin> set offs"
    using firstMissing_unique [of n n offs] firstMissing_fresh [of n offs] by auto
  ultimately show ?thesis
    by (intro exI [of _ "\<lambda>k. case gtParts (completeAll key offs ?t) k of None \<Rightarrow> None
                           | Some st \<Rightarrow> if psStarted st then Some (psNext st) else None"])
       (simp add: flush_def)
qed




subsection \<open>Nothing is committed that was not done\<close>

text \<open>Every message of the partition before an offset was reported as done.\<close>

definition allDone ::
  "(partKey \<Rightarrow> int \<Rightarrow> bool) \<Rightarrow> (partKey \<Rightarrow> int) \<Rightarrow> (partKey \<times> int) set \<Rightarrow> partKey \<Rightarrow> int \<Rightarrow> bool" where
  "allDone log startAt fin key c \<longleftrightarrow> (\<forall>x. startAt key \<le> x \<and> x < c \<and> log key x \<longrightarrow> (key, x) \<in> fin)"

definition partInv ::
  "(partKey \<Rightarrow> int \<Rightarrow> bool) \<Rightarrow> (partKey \<Rightarrow> int) \<Rightarrow> (partKey \<times> int) set \<Rightarrow> partKey \<Rightarrow> int \<Rightarrow> partState option \<Rightarrow> bool" where
  "partInv log startAt fin key pos p \<longleftrightarrow>
     (case p of
        None \<Rightarrow> allDone log startAt fin key pos
      | Some st \<Rightarrow> psStarted st \<and> allDone log startAt fin key (psNext st) \<and> (\<forall>x\<in>set (psCompleted st). (key, x) \<in> fin))"

definition groupInv :: "(partKey \<Rightarrow> int \<Rightarrow> bool) \<Rightarrow> (partKey \<Rightarrow> int) \<Rightarrow> kafkaWorld \<Rightarrow> bool" where
  "groupInv log startAt w \<longleftrightarrow>
     (\<forall>key c. committed w key = Some c \<longrightarrow> allDone log startAt (finished w) key c) \<and>
     (\<forall>g t key. trackers w g = Some t \<longrightarrow> partInv log startAt (finished w) key (position w g key) (gtParts t key))"

lemma groupInvI:
  assumes "\<And>key c. committed w key = Some c \<Longrightarrow> allDone log startAt (finished w) key c"
    and "\<And>g t key. trackers w g = Some t \<Longrightarrow> partInv log startAt (finished w) key (position w g key) (gtParts t key)"
  shows "groupInv log startAt w"
  using assms unfolding groupInv_def by blast

lemma groupInv_committed: "groupInv log startAt w \<Longrightarrow> committed w key = Some c \<Longrightarrow> allDone log startAt (finished w) key c"
  unfolding groupInv_def by blast

lemma groupInv_part:
  "groupInv log startAt w \<Longrightarrow> trackers w g = Some t \<Longrightarrow>
   partInv log startAt (finished w) key (position w g key) (gtParts t key)"
  unfolding groupInv_def by blast

lemma allDone_mono: "allDone log startAt fin key c \<Longrightarrow> fin \<subseteq> fin' \<Longrightarrow> allDone log startAt fin' key c"
  by (auto simp: allDone_def)

lemma partInv_mono: "partInv log startAt fin key pos p \<Longrightarrow> fin \<subseteq> fin' \<Longrightarrow> partInv log startAt fin' key pos p"
  by (auto simp: partInv_def split: option.splits intro: allDone_mono)

lemma partInv_observe:
  assumes "partInv log startAt fin key pos (gtParts t key)" and "nextMessage log key pos off"
  shows "partInv log startAt fin key (off + 1) (gtParts (observe key off t) key)"
proof (cases "gtParts t key")
  case None
  with assms(1) have before: "allDone log startAt fin key pos" by (simp add: partInv_def)
  have "(key, x) \<in> fin" if "startAt key \<le> x" "x < off" "log key x" for x
    using before assms(2) that by (cases "x < pos") (auto simp: allDone_def nextMessage_def)
  then have "allDone log startAt fin key off" by (simp add: allDone_def)
  with None show ?thesis by (simp add: partInv_def observe_def)
next
  case (Some st)
  with assms(1) show ?thesis by (simp add: partInv_def observe_def)
qed

lemma observe_other: "k \<noteq> key \<Longrightarrow> gtParts (observe key off t) k = gtParts t k"
  by (simp add: observe_def Let_def)

lemma partInv_complete:
  assumes "partInv log startAt fin k pos (gtParts t k)" and "(key, off) \<in> fin"
  shows "partInv log startAt fin k pos (gtParts (snd (complete key off t)) k)"
proof (cases "gtClosed t \<or> k \<noteq> key \<or> gtParts t key = None")
  case True
  then show ?thesis using assms(1) by (auto simp: complete_def split_beta split: option.splits)
next
  case False
  then obtain st where st: "gtParts t key = Some st" "k = key" "\<not> gtClosed t" by auto
  have inv: "psStarted st" "allDone log startAt fin key (psNext st)" "\<forall>x\<in>set (psCompleted st). (key, x) \<in> fin"
    using assms(1) st by (simp_all add: partInv_def)
  show ?thesis
  proof (cases "off < psNext st")
    case True
    then show ?thesis using assms(1) st by (simp add: complete_def)
  next
    case False
    obtain n rest where adv: "advance (psNext st) (List.insert off (psCompleted st)) = (n, rest)" by fastforce
    note a = advance_spec [OF adv]
    have "(key, x) \<in> fin" if "startAt key \<le> x" "x < n" "log key x" for x
    proof (cases "x < psNext st")
      case True
      then show ?thesis using inv(2) that by (simp add: allDone_def)
    next
      case False
      then have "x \<in> set (List.insert off (psCompleted st))" using a that(2) by simp
      then show ?thesis using inv(3) assms(2) by auto
    qed
    then have "allDone log startAt fin key n" by (simp add: allDone_def)
    moreover have "\<forall>x\<in>set rest. (key, x) \<in> fin" using a inv(3) assms(2) by auto
    ultimately show ?thesis using st False adv inv(1) by (simp add: complete_def partInv_def)
  qed
qed

text \<open>What a flush hands out is covered by the invariant, and it changes no partition.\<close>

lemma flush_parts: "flush t = (offsets, t') \<Longrightarrow> gtParts t' = gtParts t"
  by (auto simp: flush_def split: if_splits)

lemma flush_covered:
  assumes "flush t = (Some m, t')" and "\<And>key. partInv log startAt fin key (pos key) (gtParts t key)" and "m key = Some c"
  shows "allDone log startAt fin key c"
proof -
  have "m = (\<lambda>key. case gtParts t key of None \<Rightarrow> None | Some st \<Rightarrow> if psStarted st then Some (psNext st) else None)"
    using assms(1) by (auto simp: flush_def split: if_splits)
  with assms(3) obtain st where "gtParts t key = Some st" "c = psNext st" by (auto split: option.splits if_splits)
  with assms(2) [of key] show ?thesis by (simp add: partInv_def)
qed

lemma groupInv_commit:
  assumes inv: "groupInv log startAt w" and t: "trackers w g = Some t" and f: "flush t = (offsets, t1)"
    and parts: "gtParts t' = gtParts t1"
  shows "groupInv log startAt
           (w\<lparr>trackers := (trackers w)(g \<mapsto> t'), committed := acceptCommit accepted offsets (committed w)\<rparr>)"
proof -
  have each: "partInv log startAt (finished w) key (position w g key) (gtParts t key)" for key
    using inv t by (rule groupInv_part)
  have "allDone log startAt (finished w) key c" if "acceptCommit accepted offsets (committed w) key = Some c" for key c
  proof (cases "\<exists>m. offsets = Some m \<and> accepted \<and> m key = Some c")
    case True
    then show ?thesis using flush_covered [of t _ t1 log startAt "finished w" "position w g" key c] f each by blast
  next
    case False
    then have "committed w key = Some c"
      using that by (auto simp: acceptCommit_def map_add_Some_iff split: option.splits if_splits)
    then show ?thesis using inv by (intro groupInv_committed)
  qed
  moreover have "gtParts t' = gtParts t" using parts flush_parts [OF f] by simp
  ultimately show ?thesis using inv each by (intro groupInvI) (auto intro: groupInv_part split: if_splits)
qed

lemma groupInv_step: "kafkaStep log startAt w w' \<Longrightarrow> groupInv log startAt w \<Longrightarrow> groupInv log startAt w'"
proof (induction rule: kafkaStep.induct)
  case (assign w g)
  have "allDone log startAt (finished w) key (case committed w key of Some c \<Rightarrow> c | None \<Rightarrow> startAt key)" for key
    using groupInv_committed [OF assign.prems, of key] by (cases "committed w key") (auto simp: allDone_def)
  then show ?case using assign.prems
    by (intro groupInvI) (auto simp: partInv_def newGenTracker_def intro: groupInv_committed
        dest: groupInv_part split: if_splits)
next
  case (deliver w g t key off)
  note before = groupInv_part [OF deliver.prems deliver.hyps(1)]
  have here: "partInv log startAt (finished w) k (((position w g)(key := off + 1)) k) (gtParts (observe key off t) k)" for k
    using before [of k] partInv_observe [OF before deliver.hyps(2)] by (cases "k = key") (simp_all add: observe_other)
  show ?case (is "groupInv _ _ ?w")
  proof (rule groupInvI)
    show "allDone log startAt (finished ?w) k c" if "committed ?w k = Some c" for k c
      using groupInv_committed [OF deliver.prems, of k c] that by simp
    show "partInv log startAt (finished ?w) k (position ?w h k) (gtParts u k)" if "trackers ?w h = Some u" for h u k
      using here [of k] groupInv_part [OF deliver.prems, of h u k] that by (cases "h = g") simp_all
  qed
next
  case (settle_done i w g c t err c' t')
  let ?fin = "insert (kcKey c, kcOffset c) (finished w)"
  show ?case
  proof (cases "kcSettled c")
    case True
    then have "t' = t" using settle_done.hyps(4) by (simp add: kafka_Done_def)
    with True settle_done.prems settle_done.hyps(3) show ?thesis
      by (intro groupInvI) (auto intro: groupInv_committed groupInv_part split: if_splits)
  next
    case False
    have t': "t' = snd (complete (kcKey c) (kcOffset c) t)"
      using False settle_done.hyps(4) by (auto simp: kafka_Done_def split_beta)
    have grown: "partInv log startAt ?fin k (position w h k) (gtParts u k)" if "trackers w h = Some u" for h u k
      using partInv_mono [OF groupInv_part [OF settle_done.prems that]] by blast
    have "partInv log startAt ?fin k (position w g k) (gtParts t' k)" for k
      unfolding t' by (rule partInv_complete [OF grown [OF settle_done.hyps(3)]]) simp
    moreover have "allDone log startAt ?fin key n" if "committed w key = Some n" for key n
      using allDone_mono [OF groupInv_committed [OF settle_done.prems that]] by blast
    ultimately show ?thesis using grown False by (intro groupInvI) (auto split: if_splits)
  qed
next
  case (settle_failed i w g c err c')
  then show ?case by (intro groupInvI) (auto intro: groupInv_committed groupInv_part)
next
  case (tick w g t offsets t' accepted)
  then show ?case by (intro groupInv_commit) simp_all
next
  case (ended w g t offsets t' accepted)
  from ended.hyps(2) obtain t1 where t1: "flush t = (offsets, t1)" "t' = closeTracker t1"
    by (cases "flush t") (auto simp: endGeneration_def)
  show ?case by (rule groupInv_commit [OF ended.prems ended.hyps(1) t1(1)]) (simp add: t1(2) closeTracker_def)
qed


definition everyOffset :: "partKey \<Rightarrow> int \<Rightarrow> bool" where
  "everyOffset key off = True"

lemma one_message_group:
  "\<exists>w. (kafkaStep everyOffset (\<lambda>_. 5))\<^sup>*\<^sup>* freshGroup w \<and> committed w (''t'', 0) = Some 6"
proof -
  let ?k = "(''t'', 0) :: partKey"
  let ?c = "\<lparr>kcKey = ?k, kcOffset = 5, kcSettled = False\<rparr>"
  let ?t = "observe ?k 5 newGenTracker"
  let ?t1 = "snd (complete ?k 5 ?t)"
  let ?pos = "\<lambda>key. case committed freshGroup key of Some c \<Rightarrow> c | None \<Rightarrow> (5::int)"
  define w1 where w1: "w1 = freshGroup\<lparr>trackers := (trackers freshGroup)(0 \<mapsto> newGenTracker), position := (position freshGroup)(0 := ?pos)\<rparr>"
  define w2 where w2: "w2 = w1\<lparr>trackers := (trackers w1)(0 \<mapsto> ?t), position := (position w1)(0 := (position w1 0)(?k := 5 + 1)),
                 handles := handles w1 @ [(0, ?c)]\<rparr>"
  define w3 where w3: "w3 = w2\<lparr>handles := (handles w2)[0 := (0, ?c\<lparr>kcSettled := True\<rparr>)], trackers := (trackers w2)(0 \<mapsto> ?t1),
                 finished := (if kcSettled ?c then finished w2 else insert (kcKey ?c, kcOffset ?c) (finished w2))\<rparr>"
  define w4 where w4: "w4 = w3\<lparr>trackers := (trackers w3)(0 \<mapsto> snd (flush ?t1)),
                 committed := acceptCommit True (fst (flush ?t1)) (committed w3)\<rparr>"
  have s1: "kafkaStep everyOffset (\<lambda>_. 5) freshGroup w1"
    unfolding w1 by (rule kafkaStep.assign) (simp add: freshGroup_def)
  have s2: "kafkaStep everyOffset (\<lambda>_. 5) w1 w2"
    unfolding w2 by (rule kafkaStep.deliver) (simp_all add: w1 nextMessage_def everyOffset_def freshGroup_def)
  have s3: "kafkaStep everyOffset (\<lambda>_. 5) w2 w3"
    unfolding w3 by (rule kafkaStep.settle_done [where err = "fst (complete ?k 5 ?t)"]) (simp_all add: w1 w2 freshGroup_def kafka_Done_def split_beta)
  have s4: "kafkaStep everyOffset (\<lambda>_. 5) w3 w4"
    unfolding w4 by (rule kafkaStep.tick) (simp_all add: w3)
  have "fst (flush ?t1) \<noteq> None \<and> the (fst (flush ?t1)) ?k = Some 6" by code_simp
  then have "committed w4 ?k = Some 6" by (auto simp: w4 acceptCommit_def map_add_def)
  moreover have "(kafkaStep everyOffset (\<lambda>_. 5))\<^sup>*\<^sup>* freshGroup w4"
    using s1 s2 s3 s4 by (blast intro: converse_rtranclp_into_rtranclp)
  ultimately show ?thesis by blast
qed


subsection \<open>The handles of the JetStream adapter\<close>

fun inOnce :: "settler \<Rightarrow> bool" where
  "inOnce (SettleInOnce out) = True"
| "inOnce (SettleForgotten out) = True"
| "inOnce _ = False"

definition handleInv :: "natsHandle \<Rightarrow> bool" where
  "handleInv w \<longleftrightarrow>
     length (filter inOnce (nsSettlers w)) = (if nhOnceBusy w then 1 else 0) \<and>
     (nhOnceBusy w \<longrightarrow> \<not> nhOnceDone w) \<and>
     (\<not> nhOnceDone w \<longrightarrow> nhReports w = []) \<and>
     length (nhReports w) \<le> 1"

lemma filter_update:
  "i < length xs \<Longrightarrow>
   length (filter P (xs[i := x])) + (if P (xs ! i) then 1 else 0) = length (filter P xs) + (if P x then 1 else 0)"
proof (induction xs arbitrary: i)
  case (Cons y ys)
  then show ?case by (cases i) auto
qed simp

lemma handleInv_step: "natsStep w w' \<Longrightarrow> handleInv w \<Longrightarrow> handleInv w'"
proof (induction rule: natsStep.induct)
  case (settle_enter i w out)
  then show ?case using filter_update [of i "nsSettlers w" inOnce "SettleInOnce out"] by (simp add: handleInv_def)
next
  case (settle_forget i w out)
  then show ?case using filter_update [of i "nsSettlers w" inOnce "SettleForgotten out"] by (simp add: handleInv_def)
next
  case (settle_report i w out err)
  have "0 < length (filter inOnce (nsSettlers w))"
    using settle_report.hyps by (auto simp: filter_empty_conv in_set_conv_nth intro!: bexI [of _ "nsSettlers w ! i"])
  with settle_report show ?case using filter_update [of i "nsSettlers w" inOnce "SettleReturned err"]
    by (auto simp: handleInv_def split: if_splits)
next
  case (settle_again i w out)
  then show ?case using filter_update [of i "nsSettlers w" inOnce "SettleReturned (Some ErrAlreadyCompleted)"]
    by (simp add: handleInv_def)
qed (auto simp: handleInv_def split: if_splits)

text \<open>A handle of the JetStream adapter reports one outcome. However concurrent calls of \<^verbatim>\<open>Done\<close> and
  \<^verbatim>\<open>Failed\<close> on one handle and a \<^verbatim>\<open>Close\<close> of its subscription interleave, the message is acknowledged
  or handed back at most once.\<close>

theorem nats_reports_at_most_once:
  assumes "natsStep\<^sup>*\<^sup>* (trackedHandle (map SettleCalled outs)) w"
  shows "length (nhReports w) \<le> 1"
proof -
  have "filter inOnce (map SettleCalled outs) = []" by (simp add: filter_empty_conv)
  then have "handleInv (trackedHandle (map SettleCalled outs))" by (simp add: handleInv_def trackedHandle_def)
  with assms have "handleInv w" by (induction rule: rtranclp_induct) (auto dest: handleInv_step)
  then show ?thesis by (simp add: handleInv_def)
qed

theorem nats_reports_at_most_once_witness:
  "\<exists>w. natsStep\<^sup>*\<^sup>* (trackedHandle (map SettleCalled [Ack, Nak])) w \<and> nhReports w = [Ack] \<and> length (nhReports w) \<le> 1"
proof -
  define w0 where w0: "w0 = trackedHandle (map SettleCalled [Ack, Nak])"
  define w1 where w1: "w1 = w0\<lparr>nhOnceBusy := True, nhStopped := True, nsSettlers := (nsSettlers w0)[0 := SettleInOnce Ack]\<rparr>"
  define w2 where w2: "w2 = w1\<lparr>nhPending := False, nsSettlers := (nsSettlers w1)[0 := SettleForgotten Ack]\<rparr>"
  define w3 where w3: "w3 = w2\<lparr>nhReports := nhReports w2 @ [Ack], nhOnceBusy := False, nhOnceDone := True,
    nsSettlers := (nsSettlers w2)[0 := SettleReturned None]\<rparr>"
  have s1: "natsStep w0 w1" unfolding w1 by (rule natsStep.settle_enter) (simp_all add: w0 trackedHandle_def)
  have s2: "natsStep w1 w2" unfolding w2 by (rule natsStep.settle_forget) (simp_all add: w0 w1 trackedHandle_def)
  have s3: "natsStep w2 w3" unfolding w3 by (rule natsStep.settle_report) (simp_all add: w0 w1 w2 trackedHandle_def)
  have run: "natsStep\<^sup>*\<^sup>* w0 w3" using s1 s2 s3 by (blast intro: converse_rtranclp_into_rtranclp)
  have "nhReports w3 = [Ack]" by (simp add: w0 w1 w2 w3 trackedHandle_def)
  with run nats_reports_at_most_once [of "[Ack, Nak]" w3] show ?thesis unfolding w0 by blast
qed

text \<open>\<^verbatim>\<open>Close\<close> and a handle that is being settled can block each other. \<^verbatim>\<open>settle\<close> has entered the
  handle's \<^verbatim>\<open>sync.Once\<close> and waits for the mutex of the subscription to forget the handle; \<^verbatim>\<open>Close\<close>
  holds that mutex and waits for the handle's \<^verbatim>\<open>sync.Once\<close>. No step is possible any more, nothing
  was reported, and neither call returns.\<close>

theorem nats_close_blocks_settle:
  "\<exists>w. natsStep\<^sup>*\<^sup>* (trackedHandle [SettleCalled Ack]) w \<and> (\<nexists>w'. natsStep w w') \<and>
       nsSettlers w = [SettleInOnce Ack] \<and> nsCloser w = CloseLocked \<and> nhReports w = []"
proof -
  let ?w0 = "trackedHandle [SettleCalled Ack]"
  let ?w1 = "?w0\<lparr>nhOnceBusy := True, nhStopped := True, nsSettlers := (nsSettlers ?w0)[0 := SettleInOnce Ack]\<rparr>"
  let ?w2 = "?w1\<lparr>nsMuBusy := True, nsClosed := True, nsCloser := CloseLocked\<rparr>"
  have s1: "natsStep ?w0 ?w1" by (rule natsStep.settle_enter) (simp_all add: trackedHandle_def)
  have s2: "natsStep ?w1 ?w2" by (rule natsStep.close_lock) (simp_all add: trackedHandle_def)
  have "\<not> natsStep ?w2 w'" for w'
    by (rule notI, erule natsStep.cases) (auto simp: trackedHandle_def)
  moreover have "natsStep\<^sup>*\<^sup>* ?w0 ?w2" using s1 s2 by (rule converse_rtranclp_into_rtranclp [OF _ r_into_rtranclp])
  ultimately show ?thesis by (intro exI [of _ ?w2]) (simp add: trackedHandle_def)
qed

end
