(* ===== verification/Integration.thy ===== *)
theory Integration
  imports Transport "HOL-Library.AList"
begin

text \<open>
  Model of \<^verbatim>\<open>src/infra/integration\<close>: the configuration block, the producer (\<^verbatim>\<open>Dispatch\<close>), the
  registries of handled and failed events, receivers with their grouping and routing, the
  pipeline of one received message, and the operator's retry.

  The three tables are lists of rows. Every statement passes through \<open>statement\<close>: a service
  record says which statements the database refuses, and each statement advances the clock. The
  packages \<^verbatim>\<open>uuid\<close> and \<^verbatim>\<open>json\<close>, the reflection that binds a handler, and the handler with its own
  state are parameters. A \<^verbatim>\<open>uuid.UUID\<close> is its sixteen bytes.
\<close>

subsection \<open>Configuration\<close>

type_synonym uuid = string

definition uuidNil :: uuid where
  "uuidNil = replicate 16 (CHR 0x00)"

record PublishEvent =
  peEventType :: string
  peAggregate :: string
  peVersion :: int

record SubscribeEntry =
  seTopic :: string
  seEvents :: "(string \<times> string) list"
  seWorkers :: int
  seConsumerGroup :: string
  seStartFrom :: string

record SubscriberDefaults =
  sdConsumerGroup :: string
  sdWorkers :: int
  sdStartFrom :: string

record IntegrationConfig =
  icPublishes :: "(string \<times> PublishEvent) list"
  icSubscribes :: "(string \<times> SubscribeEntry) list"
  icDefaults :: SubscriberDefaults

definition LookupPublish :: "IntegrationConfig \<Rightarrow> string \<Rightarrow> PublishEvent option" where
  "LookupPublish c eventKey = map_of (icPublishes c) eventKey"

definition LookupSubscribe :: "IntegrationConfig \<Rightarrow> string \<Rightarrow> string \<Rightarrow> (string \<times> string) option" where
  "LookupSubscribe c sourceKey eventKey =
     (case map_of (icSubscribes c) sourceKey of
        None \<Rightarrow> None
      | Some src \<Rightarrow>
          (case map_of (seEvents src) eventKey of
             None \<Rightarrow> None
           | Some eventType \<Rightarrow> Some (seTopic src, eventType)))"

definition defaultedEntry :: "SubscriberDefaults \<Rightarrow> SubscribeEntry \<Rightarrow> SubscribeEntry" where
  "defaultedEntry d src =
     src\<lparr>seConsumerGroup := (if seConsumerGroup src = [] then sdConsumerGroup d else seConsumerGroup src),
         seWorkers := (if seWorkers src \<le> 0 then sdWorkers d else seWorkers src),
         seStartFrom := (if seStartFrom src = [] then sdStartFrom d else seStartFrom src)\<rparr>"

definition ApplyDefaults :: "string \<Rightarrow> IntegrationConfig \<Rightarrow> IntegrationConfig" where
  "ApplyDefaults serviceName c =
     (let d0 = icDefaults c;
          d = \<lparr>sdConsumerGroup = (if sdConsumerGroup d0 = [] then serviceName @ ''-integration'' else sdConsumerGroup d0),
               sdWorkers = (if sdWorkers d0 \<le> 0 then 0 else sdWorkers d0),
               sdStartFrom = (if sdStartFrom d0 = [] then ''latest'' else sdStartFrom d0)\<rparr>
      in c\<lparr>icDefaults := d, icSubscribes := map (\<lambda>(k, src). (k, defaultedEntry d src)) (icSubscribes c)\<rparr>)"

definition validStartFrom :: "string \<Rightarrow> bool" where
  "validStartFrom s \<longleftrightarrow> s = [] \<or> s = ''earliest'' \<or> s = ''latest''"

definition publishProblems :: "string \<Rightarrow> PublishEvent \<Rightarrow> string list" where
  "publishProblems k ev =
     (if peEventType ev = [] then [''integration.publishes.events.'' @ k @ ''.eventType is required''] else []) @
     (if peVersion ev < 0 then [''integration.publishes.events.'' @ k @ ''.version must be >= 0 (got '' @ Itoa (peVersion ev) @ '')''] else [])"

definition subscribeProblems :: "string \<Rightarrow> SubscribeEntry \<Rightarrow> string list" where
  "subscribeProblems k src =
     (if seTopic src = [] then [''integration.subscribes.'' @ k @ ''.topic is required''] else []) @
     (if seWorkers src < 0 then [''integration.subscribes.'' @ k @ ''.workers must be >= 0 (got '' @ Itoa (seWorkers src) @ '')''] else []) @
     (if \<not> validStartFrom (seStartFrom src)
      then [''integration.subscribes.'' @ k @ ''.startFrom '' @ quoted (seStartFrom src) @ '' is not one of earliest|latest''] else []) @
     concat (map (\<lambda>(evKey, ev). if ev = [] then [''integration.subscribes.'' @ k @ ''.events.'' @ evKey @ ''.eventType is required''] else [])
       (seEvents src))"

text \<open>The problems in the order of the entries; \<^verbatim>\<open>Validate\<close> prints them as one error.\<close>

definition integrationProblems :: "IntegrationConfig \<Rightarrow> string list" where
  "integrationProblems c =
     concat (map (\<lambda>(k, ev). publishProblems k ev) (icPublishes c)) @
     concat (map (\<lambda>(k, src). subscribeProblems k src) (icSubscribes c)) @
     (if sdWorkers (icDefaults c) < 0 then [''integration.defaults.workers must be >= 0 (got '' @ Itoa (sdWorkers (icDefaults c)) @ '')''] else []) @
     (if \<not> validStartFrom (sdStartFrom (icDefaults c))
      then [''integration.defaults.startFrom '' @ quoted (sdStartFrom (icDefaults c)) @ '' is not one of earliest|latest''] else [])"

subsection \<open>The request context\<close>

record appContext =
  axID :: uuid
  axSubject :: "string option"
  axCorrelation :: uuid
  axCausation :: uuid
  axTraceparent :: string

definition ActorSubject :: "appContext \<Rightarrow> string" where
  "ActorSubject ctx = (case axSubject ctx of None \<Rightarrow> ''anonymous'' | Some s \<Rightarrow> s)"

subsection \<open>Tables and statements\<close>

record processedRow =
  prEventID :: uuid
  prGroup :: string
  prSourceKey :: string
  prEventKey :: string
  prTopic :: string
  prEventType :: string

record failureRow =
  frGroup :: string
  frSourceKey :: string
  frEventKey :: string
  frEventID :: uuid
  frPayload :: string
  frError :: string
  frAttempt :: int
  frFirstSeenAt :: nat
  frLastAttemptAt :: nat
  frResolved :: bool

datatype sqlValue = SqlNull | SqlText string | SqlInt int

record 'h intWorld =
  iwProcessed :: "processedRow list"
  iwFailures :: "failureRow list"
  iwEvents :: "sqlValue list list"
  iwClock :: nat
  iwHandler :: 'h

text \<open>
  \<open>isFaulty n\<close>: the database refuses the n-th statement. \<open>isPayloadOk\<close>: the payload column takes
  the text; it is a JSON column on three of the five databases. \<open>isCancelled n\<close>: the context of
  the caller is done after the n-th statement. \<open>isFresh\<close> and \<open>isRowID\<close> mint identifiers.
\<close>

record intServices =
  isFaulty :: "nat \<Rightarrow> bool"
  isPayloadOk :: "string \<Rightarrow> bool"
  isCancelled :: "nat \<Rightarrow> bool"
  isParse :: "string \<Rightarrow> uuid option"
  isText :: "uuid \<Rightarrow> string"
  isFresh :: "nat \<Rightarrow> uuid"
  isRowID :: "nat \<Rightarrow> string option"

definition statement :: "intServices \<Rightarrow> ('h intWorld \<Rightarrow> 'h intWorld) \<Rightarrow> 'h intWorld \<Rightarrow> string option \<times> 'h intWorld" where
  "statement I run w =
     (let w1 = w\<lparr>iwClock := Suc (iwClock w)\<rparr> in
      if isFaulty I (iwClock w) then (Some ''statement refused'', w1) else (None, run w1))"

subsection \<open>The producer\<close>

datatype DispatchOption = WithTx | WithAggregateID string | WithCorrelation uuid | WithCausation uuid

record dispatchOpts =
  doTx :: bool
  doAggregateID :: string
  doHasAggregate :: bool
  doCorrelation :: uuid
  doHasCorrelation :: bool
  doCausation :: uuid
  doHasCausation :: bool

definition noDispatchOpts :: dispatchOpts where
  "noDispatchOpts = \<lparr>doTx = False, doAggregateID = [], doHasAggregate = False, doCorrelation = uuidNil,
     doHasCorrelation = False, doCausation = uuidNil, doHasCausation = False\<rparr>"

fun applyDispatchOption :: "DispatchOption \<Rightarrow> dispatchOpts \<Rightarrow> dispatchOpts" where
  "applyDispatchOption WithTx d = d\<lparr>doTx := True\<rparr>"
| "applyDispatchOption (WithAggregateID i) d = d\<lparr>doAggregateID := i, doHasAggregate := True\<rparr>"
| "applyDispatchOption (WithCorrelation u) d = d\<lparr>doCorrelation := u, doHasCorrelation := True\<rparr>"
| "applyDispatchOption (WithCausation u) d = d\<lparr>doCausation := u, doHasCausation := True\<rparr>"

definition resolveVersion :: "int \<Rightarrow> int" where
  "resolveVersion declared = (if declared \<le> 0 then 1 else declared)"

definition resolveActor :: "appContext \<Rightarrow> string" where
  "resolveActor ctx = (if ActorSubject ctx \<noteq> [] then ActorSubject ctx else ''anonymous'')"

definition resolveCorrelation :: "appContext \<Rightarrow> dispatchOpts \<Rightarrow> uuid" where
  "resolveCorrelation ctx d = (if doHasCorrelation d then doCorrelation d else axCorrelation ctx)"

definition resolveCausation :: "appContext \<Rightarrow> dispatchOpts \<Rightarrow> uuid" where
  "resolveCausation ctx d = (if doHasCausation d then doCausation d else axCausation ctx)"

record dispatchRow =
  drEventID :: uuid
  drEventType :: string
  drAggregate :: string
  drAggregateID :: string
  drHasAggregate :: bool
  drVersion :: int
  drPayload :: string
  drThreadID :: uuid
  drActor :: string
  drCorrelation :: uuid
  drCausation :: uuid

definition nullableString :: "string \<Rightarrow> sqlValue" where
  "nullableString s = (if s = [] then SqlNull else SqlText s)"

definition nullableUUID :: "intServices \<Rightarrow> uuid \<Rightarrow> sqlValue" where
  "nullableUUID I u = (if u = uuidNil then SqlNull else SqlText (isText I u))"

definition maybeAggregateUUID :: "intServices \<Rightarrow> dispatchRow \<Rightarrow> uuid" where
  "maybeAggregateUUID I row =
     (if \<not> drHasAggregate row then uuidNil
      else case isParse I (drAggregateID row) of None \<Rightarrow> uuidNil | Some u \<Rightarrow> u)"

definition eventArgs :: "intServices \<Rightarrow> string \<Rightarrow> appContext \<Rightarrow> dispatchRow \<Rightarrow> sqlValue list" where
  "eventArgs I rowID ctx row =
     [SqlText rowID, SqlText (isText I (drEventID row)), nullableString (drAggregate row),
      nullableUUID I (maybeAggregateUUID I row), SqlText (drEventType row), SqlInt (drVersion row),
      SqlText (drPayload row), nullableUUID I (drCorrelation row), nullableUUID I (drCausation row),
      SqlText (isText I (drThreadID row)), SqlText (drActor row), nullableString (axTraceparent ctx)]"

datatype dispatchError = ErrConfigNotInitialized | ErrEventNotConfigured string
  | ErrAggregateIDRequired string string | MarshalFailed string string | WriteFailed string string

text \<open>What \<^verbatim>\<open>Configure\<close> stored: the configuration, and whether an engine was given.\<close>

record intClient =
  clCfg :: "IntegrationConfig option"
  clEngine :: bool

definition writeIntegrationEvent ::
  "intServices \<Rightarrow> intClient \<Rightarrow> bool \<Rightarrow> appContext \<Rightarrow> dispatchRow \<Rightarrow> 'h intWorld \<Rightarrow> string option \<times> 'h intWorld" where
  "writeIntegrationEvent I c tx ctx row w =
     (case isRowID I (iwClock w) of
        None \<Rightarrow> (Some ''integration.Dispatch: integration: uuid v7'', w)
      | Some rowID \<Rightarrow>
          if \<not> tx \<and> \<not> clEngine c
          then (Some ''standalone Dispatch requires a relational engine; integration.Configure received nil'', w)
          else statement I (\<lambda>w. w\<lparr>iwEvents := iwEvents w @ [eventArgs I rowID ctx row]\<rparr>) w)"

definition Dispatch ::
  "intServices \<Rightarrow> intClient option \<Rightarrow> appContext \<Rightarrow> string \<Rightarrow> string + string \<Rightarrow> DispatchOption list \<Rightarrow>
   'h intWorld \<Rightarrow> dispatchError option \<times> 'h intWorld" where
  "Dispatch I state ctx eventKey marshalled opts w =
     (case state of
        None \<Rightarrow> (Some ErrConfigNotInitialized, w)
      | Some c \<Rightarrow>
     (case clCfg c of
        None \<Rightarrow> (Some ErrConfigNotInitialized, w)
      | Some cfg \<Rightarrow>
     (case LookupPublish cfg eventKey of
        None \<Rightarrow> (Some (ErrEventNotConfigured eventKey), w)
      | Some entry \<Rightarrow>
     let d = fold applyDispatchOption opts noDispatchOpts in
     if peAggregate entry \<noteq> [] \<and> \<not> doHasAggregate d
     then (Some (ErrAggregateIDRequired eventKey (peAggregate entry)), w)
     else
     (case marshalled of
        Inl err \<Rightarrow> (Some (MarshalFailed eventKey err), w)
      | Inr raw \<Rightarrow>
     let row = \<lparr>drEventID = isFresh I (iwClock w), drEventType = peEventType entry, drAggregate = peAggregate entry,
                drAggregateID = doAggregateID d, drHasAggregate = doHasAggregate d,
                drVersion = resolveVersion (peVersion entry), drPayload = raw, drThreadID = axID ctx,
                drActor = resolveActor ctx, drCorrelation = resolveCorrelation ctx d,
                drCausation = resolveCausation ctx d\<rparr>
     in case writeIntegrationEvent I c (doTx d) ctx row w of
          (Some err, w1) \<Rightarrow> (Some (WriteFailed eventKey err), w1)
        | (None, w1) \<Rightarrow> (None, w1)))))"

subsection \<open>The registries of handled and failed events\<close>

definition sameFailure :: "string \<Rightarrow> string \<Rightarrow> string \<Rightarrow> uuid \<Rightarrow> failureRow \<Rightarrow> bool" where
  "sameFailure grp src ev eid r \<longleftrightarrow>
     frGroup r = grp \<and> frSourceKey r = src \<and> frEventKey r = ev \<and> frEventID r = eid"

text \<open>The upsert: a new row has attempt one; a row of the same key is overwritten, counted up and reopened.\<close>

definition upsertFailure :: "failureRow \<Rightarrow> nat \<Rightarrow> failureRow list \<Rightarrow> failureRow list" where
  "upsertFailure rec now rows =
     (case update_first (sameFailure (frGroup rec) (frSourceKey rec) (frEventKey rec) (frEventID rec))
             (\<lambda>r. r\<lparr>frError := frError rec, frPayload := frPayload rec, frAttempt := frAttempt r + 1,
                   frLastAttemptAt := now, frResolved := False\<rparr>) rows of
        Some rows' \<Rightarrow> rows'
      | None \<Rightarrow> rows @ [rec\<lparr>frAttempt := 1, frFirstSeenAt := now, frLastAttemptAt := now, frResolved := False\<rparr>])"

definition RecordIntegrationFailure ::
  "intServices \<Rightarrow> failureRow \<Rightarrow> string option \<Rightarrow> 'h intWorld \<Rightarrow> string option \<times> 'h intWorld" where
  "RecordIntegrationFailure I rec raw w =
     (let payload = (case raw of None \<Rightarrow> ''{}'' | Some p \<Rightarrow> p) in
      if frGroup rec = [] \<or> frSourceKey rec = [] \<or> frEventKey rec = []
      then (Some ''record integration failure: consumer_group, source_key, event_key are required'', w)
      else if frEventID rec = uuidNil then (Some ''record integration failure: event_id is required'', w)
      else case isRowID I (iwClock w) of
             None \<Rightarrow> (Some ''record integration failure: integration: uuid v7'', w)
           | Some _ \<Rightarrow>
               if \<not> isPayloadOk I payload
               then (Some ''record integration failure: invalid payload'', w\<lparr>iwClock := Suc (iwClock w)\<rparr>)
               else statement I (\<lambda>w. w\<lparr>iwFailures := upsertFailure (rec\<lparr>frPayload := payload\<rparr>) (iwClock w) (iwFailures w)\<rparr>) w)"

definition ResolveIntegrationFailures ::
  "intServices \<Rightarrow> string \<Rightarrow> string \<Rightarrow> string \<Rightarrow> uuid \<Rightarrow> 'h intWorld \<Rightarrow> string option \<times> 'h intWorld" where
  "ResolveIntegrationFailures I grp src ev eid w =
     (if grp = [] \<or> src = [] \<or> ev = []
      then (Some ''resolve integration failures: consumer_group, source_key, event_key are required'', w)
      else if eid = uuidNil then (Some ''resolve integration failures: event_id is required'', w)
      else statement I (\<lambda>w. w\<lparr>iwFailures :=
             map (\<lambda>r. if sameFailure grp src ev eid r \<and> \<not> frResolved r then r\<lparr>frResolved := True\<rparr> else r) (iwFailures w)\<rparr>) w)"

definition ListPendingIntegrationFailuresByGroup ::
  "intServices \<Rightarrow> string \<Rightarrow> 'h intWorld \<Rightarrow> (string + failureRow list) \<times> 'h intWorld" where
  "ListPendingIntegrationFailuresByGroup I grp w =
     (if grp = [] then (Inl ''list pending integration failures by group: consumer_group required'', w)
      else case statement I id w of
             (Some err, w1) \<Rightarrow> (Inl err, w1)
           | (None, w1) \<Rightarrow>
               (Inr (sort_key frLastAttemptAt (filter (\<lambda>r. \<not> frResolved r \<and> frGroup r = grp) (iwFailures w1))), w1))"

definition isProcessed :: "uuid \<Rightarrow> string \<Rightarrow> processedRow list \<Rightarrow> bool" where
  "isProcessed eid grp rows \<longleftrightarrow> (\<exists>r\<in>set rows. prEventID r = eid \<and> prGroup r = grp)"

definition IsAlreadyProcessed ::
  "intServices \<Rightarrow> uuid \<Rightarrow> string \<Rightarrow> 'h intWorld \<Rightarrow> (string + bool) \<times> 'h intWorld" where
  "IsAlreadyProcessed I eid grp w =
     (if eid = uuidNil \<or> grp = [] then (Inl ''is already processed: event_id and consumer_group are required'', w)
      else case statement I id w of
             (Some err, w1) \<Rightarrow> (Inl err, w1)
           | (None, w1) \<Rightarrow> (Inr (isProcessed eid grp (iwProcessed w1)), w1))"

definition MarkProcessed :: "intServices \<Rightarrow> processedRow \<Rightarrow> 'h intWorld \<Rightarrow> string option \<times> 'h intWorld" where
  "MarkProcessed I rec w =
     (if prEventID rec = uuidNil \<or> prGroup rec = [] then (Some ''mark processed: event_id and consumer_group are required'', w)
      else case isRowID I (iwClock w) of
             None \<Rightarrow> (Some ''mark processed: integration: uuid v7'', w)
           | Some _ \<Rightarrow>
               statement I (\<lambda>w. if isProcessed (prEventID rec) (prGroup rec) (iwProcessed w) then w
                              else w\<lparr>iwProcessed := iwProcessed w @ [rec]\<rparr>) w)"

subsection \<open>Receivers, their groups and the routing of a message\<close>

text \<open>
  What reflection binds once per receiver: decoding the payload fails with a text or yields the
  call of the handler with its command, which fails with a text or returns a value.
\<close>

datatype resultValue = ResInvalid | ResWithoutIsSuccess | ResNoOutput | ResNotBool | ResIsSuccess bool

type_synonym 'h receiverPlan = "string option \<Rightarrow> string + (appContext \<Rightarrow> 'h \<Rightarrow> (string + resultValue) \<times> 'h)"

record 'h Receiver =
  rcSourceKey :: string
  rcEventKey :: string
  rcPlan :: "'h receiverPlan"
  rcTopic :: string
  rcWireEventType :: string
  rcConsumerGroup :: string
  rcWorkers :: int
  rcStartFrom :: string

fun isSuccessResult :: "resultValue \<Rightarrow> bool" where
  "isSuccessResult ResInvalid = False"
| "isSuccessResult (ResIsSuccess b) = b"
| "isSuccessResult _ = True"

definition resolveAgainstYAML :: "IntegrationConfig \<Rightarrow> 'h Receiver \<Rightarrow> string + 'h Receiver" where
  "resolveAgainstYAML cfg r =
     (case LookupSubscribe cfg (rcSourceKey r) (rcEventKey r) of
        None \<Rightarrow> Inl (''receiver (sourceKey='' @ quoted (rcSourceKey r) @ '' eventKey='' @ quoted (rcEventKey r) @
                      '') not declared in integration.subscribes YAML'')
      | Some (topic, eventType) \<Rightarrow>
          (case map_of (icSubscribes cfg) (rcSourceKey r) of
             None \<Rightarrow> Inr (r\<lparr>rcTopic := topic, rcWireEventType := eventType, rcConsumerGroup := [], rcWorkers := 0, rcStartFrom := []\<rparr>)
           | Some src \<Rightarrow>
               Inr (r\<lparr>rcTopic := topic, rcWireEventType := eventType, rcConsumerGroup := seConsumerGroup src,
                      rcWorkers := seWorkers src, rcStartFrom := seStartFrom src\<rparr>)))"

definition subscriptionKey :: "string \<Rightarrow> string \<Rightarrow> string" where
  "subscriptionKey sourceKey eventKey = sourceKey @ [CHR 0x00] @ eventKey"

text \<open>The declared events without a receiver, before sorting.\<close>

definition orphanSubscriptions :: "IntegrationConfig \<Rightarrow> 'h Receiver list \<Rightarrow> string list" where
  "orphanSubscriptions cfg receivers =
     (let covered = map (\<lambda>r. subscriptionKey (rcSourceKey r) (rcEventKey r)) receivers in
      concat (map (\<lambda>(srcKey, src).
        concat (map (\<lambda>(evKey, _). if subscriptionKey srcKey evKey \<in> set covered then []
                               else [''integration.subscribes.'' @ srcKey @ ''.events.'' @ evKey]) (seEvents src)))
        (icSubscribes cfg)))"

record 'h receiverGroup =
  rgTopic :: string
  rgConsumerGroup :: string
  rgWorkers :: int
  rgStartFrom :: string
  rgByEventType :: "(string \<times> 'h Receiver) list"

definition groupKey :: "'h Receiver \<Rightarrow> string" where
  "groupKey r = rcTopic r @ [CHR 0x00] @ rcConsumerGroup r"

definition duplicateReceiver :: "'h Receiver \<Rightarrow> 'h Receiver \<Rightarrow> string" where
  "duplicateReceiver existing r =
     ''two receivers map to topic='' @ quoted (rcTopic r) @ '' consumerGroup='' @ quoted (rcConsumerGroup r) @
     '' event_type='' @ quoted (rcWireEventType r) @ '' (sourceKey='' @ quoted (rcSourceKey existing) @ '' eventKey='' @
     quoted (rcEventKey existing) @ '' and sourceKey='' @ quoted (rcSourceKey r) @ '' eventKey='' @ quoted (rcEventKey r) @
     '') - one event type cannot route to two handlers''"

definition addReceiver :: "'h Receiver \<Rightarrow> (string \<times> 'h receiverGroup) list \<Rightarrow> string + (string \<times> 'h receiverGroup) list" where
  "addReceiver r groups =
     (let key = groupKey r;
          g = (case map_of groups key of
                 Some g \<Rightarrow> g
               | None \<Rightarrow> \<lparr>rgTopic = rcTopic r, rgConsumerGroup = rcConsumerGroup r, rgWorkers = rcWorkers r,
                          rgStartFrom = rcStartFrom r, rgByEventType = []\<rparr>)
      in case map_of (rgByEventType g) (rcWireEventType r) of
           Some existing \<Rightarrow> Inl (duplicateReceiver existing r)
         | None \<Rightarrow>
             Inr (AList.update key (g\<lparr>rgByEventType := (rcWireEventType r, r) # rgByEventType g,
                                    rgWorkers := max (rgWorkers g) (rcWorkers r)\<rparr>) groups))"

fun groupReceivers :: "'h Receiver list \<Rightarrow> (string \<times> 'h receiverGroup) list \<Rightarrow> string + (string \<times> 'h receiverGroup) list" where
  "groupReceivers [] groups = Inr groups"
| "groupReceivers (r # rs) groups =
     (case addReceiver r groups of Inl err \<Rightarrow> Inl err | Inr groups' \<Rightarrow> groupReceivers rs groups')"

text \<open>\<open>numCPU\<close> is what \<^verbatim>\<open>runtime.NumCPU\<close> answers.\<close>

fun resolveReceivers :: "IntegrationConfig \<Rightarrow> int \<Rightarrow> 'h Receiver list \<Rightarrow> string + 'h Receiver list" where
  "resolveReceivers cfg numCPU [] = Inr []"
| "resolveReceivers cfg numCPU (r # rs) =
     (case resolveAgainstYAML cfg r of
        Inl err \<Rightarrow> Inl err
      | Inr r1 \<Rightarrow>
          (case resolveReceivers cfg numCPU rs of
             Inl err \<Rightarrow> Inl err
           | Inr rs1 \<Rightarrow> Inr ((if rcWorkers r1 \<le> 0 then r1\<lparr>rcWorkers := numCPU\<rparr> else r1) # rs1)))"

definition startPool :: "IntegrationConfig \<Rightarrow> int \<Rightarrow> 'h Receiver list \<Rightarrow> string + (string \<times> 'h receiverGroup) list" where
  "startPool cfg numCPU receivers =
     (if receivers = [] then Inr []
      else case resolveReceivers cfg numCPU receivers of
             Inl err \<Rightarrow> Inl (''integration: consumer pool start: '' @ err)
           | Inr rs \<Rightarrow>
               (case groupReceivers rs [] of
                  Inl err \<Rightarrow> Inl (''integration: consumer pool start: '' @ err)
                | Inr groups \<Rightarrow> Inr groups))"

definition route :: "'h receiverGroup \<Rightarrow> string \<Rightarrow> 'h Receiver option" where
  "route g eventType =
     (case map_of (rgByEventType g) eventType of
        Some r \<Rightarrow> Some r
      | None \<Rightarrow>
          (case rgByEventType g of
             [(_, only)] \<Rightarrow> if eventType = [] then Some only else None
           | _ \<Rightarrow> None))"

definition parseEventID :: "intServices \<Rightarrow> string \<Rightarrow> string \<Rightarrow> uuid" where
  "parseEventID I header key =
     (case (if header = [] then None else isParse I header) of
        Some u \<Rightarrow> u
      | None \<Rightarrow>
          if length key = 16 then key
          else if key = [] then uuidNil
          else case isParse I key of Some u \<Rightarrow> u | None \<Rightarrow> uuidNil)"

text \<open>The worker of a message: a polynomial hash of its key in 64-bit arithmetic. A negative index
  is a panic of the reader, which indexes its queues with it. \<^verbatim>\<open>%\<close> truncates towards zero.\<close>

definition hashKey :: "string \<Rightarrow> int" where
  "hashKey key = foldl (\<lambda>sum b. wrap64 (sum * 31 + int (of_char b))) 0 key"

definition goRem :: "int \<Rightarrow> int \<Rightarrow> int" where
  "goRem a b = (if a < 0 then - ((- a) mod \<bar>b\<bar>) else a mod \<bar>b\<bar>)"

definition bucketOfMessage :: "string \<Rightarrow> int \<Rightarrow> int" where
  "bucketOfMessage key workers =
     (if workers \<le> 1 then 0
      else let sum = hashKey key; sum1 = (if sum < 0 then wrap64 (- sum) else sum) in goRem sum1 workers)"

subsection \<open>The pipeline of one message\<close>

text \<open>The context of a received message; the consumer span of the tracing package is not modelled.\<close>

definition headerOf :: "(string \<times> string) list \<Rightarrow> string \<Rightarrow> string" where
  "headerOf hs k = (case map_of hs k of None \<Rightarrow> [] | Some v \<Rightarrow> v)"

definition buildReceiverAppContext :: "intServices \<Rightarrow> uuid \<Rightarrow> (string \<times> string) list \<Rightarrow> uuid \<Rightarrow> appContext" where
  "buildReceiverAppContext I thread headers eventID =
     \<lparr>axID = thread,
      axSubject = Some (if headerOf headers ''actor'' = [] then ''anonymous'' else headerOf headers ''actor''),
      axCorrelation =
        (if headerOf headers ''correlation_id'' = [] then eventID
         else case isParse I (headerOf headers ''correlation_id'') of Some u \<Rightarrow> u | None \<Rightarrow> eventID),
      axCausation = eventID, axTraceparent = []\<rparr>"

text \<open>The failure write of the pipeline is best-effort: its own error is logged and dropped.\<close>

definition recordFailure ::
  "intServices \<Rightarrow> 'h Receiver \<Rightarrow> uuid \<Rightarrow> string option \<Rightarrow> string \<Rightarrow> 'h intWorld \<Rightarrow> 'h intWorld" where
  "recordFailure I r eventID raw err w =
     snd (RecordIntegrationFailure I
       \<lparr>frGroup = rcConsumerGroup r, frSourceKey = rcSourceKey r, frEventKey = rcEventKey r, frEventID = eventID,
        frPayload = [], frError = err, frAttempt = 0, frFirstSeenAt = 0, frLastAttemptAt = 0, frResolved = False\<rparr> raw w)"

definition markHandled :: "intServices \<Rightarrow> 'h Receiver \<Rightarrow> uuid \<Rightarrow> 'h intWorld \<Rightarrow> 'h intWorld" where
  "markHandled I r eventID w =
     snd (MarkProcessed I
       \<lparr>prEventID = eventID, prGroup = rcConsumerGroup r, prSourceKey = rcSourceKey r, prEventKey = rcEventKey r,
        prTopic = rcTopic r, prEventType = rcWireEventType r\<rparr> w)"

definition handleMessage ::
  "intServices \<Rightarrow> 'h Receiver \<Rightarrow> (string \<times> string) list \<Rightarrow> uuid \<Rightarrow> string option \<Rightarrow> 'h intWorld \<Rightarrow>
   string option \<times> 'h intWorld" where
  "handleMessage I r headers eventID raw w =
     (if eventID = uuidNil then (Some ''event_id missing'', w)
      else let (already, w1) = IsAlreadyProcessed I eventID (rcConsumerGroup r) w in
      if already = Inr True then (None, w1)
      else let ctx = buildReceiverAppContext I (isFresh I (iwClock w1)) headers eventID in
      case rcPlan r raw of
        Inl err \<Rightarrow> (Some err, recordFailure I r eventID raw err w1)
      | Inr call \<Rightarrow>
          let (answer, h) = call ctx (iwHandler w1); w2 = w1\<lparr>iwHandler := h\<rparr> in
          (case answer of
             Inl err \<Rightarrow> (Some err, recordFailure I r eventID raw err w2)
           | Inr res \<Rightarrow>
               let w3 = (if isSuccessResult res then w2
                         else recordFailure I r eventID raw ''handler reported non-success Result'' w2)
               in (None, markHandled I r eventID w3)))"

definition processGroupMessage :: "intServices \<Rightarrow> 'h receiverGroup \<Rightarrow> transportMessage \<Rightarrow> 'h intWorld \<Rightarrow> 'h intWorld" where
  "processGroupMessage I g msg w =
     (case route g (headerOf (msHeaders msg) ''event_type'') of
        None \<Rightarrow> w
      | Some r \<Rightarrow>
          snd (handleMessage I r (msHeaders msg)
                 (parseEventID I (headerOf (msHeaders msg) ''event_id'') (msKey msg)) (msValue msg) w))"

subsection \<open>The operator's retry\<close>

fun retryRows ::
  "intServices \<Rightarrow> 'h Receiver \<Rightarrow> failureRow list \<Rightarrow> int \<Rightarrow> 'h intWorld \<Rightarrow> (int \<times> string option) \<times> 'h intWorld" where
  "retryRows I r [] retried w = ((retried, None), w)"
| "retryRows I r (p # ps) retried w =
     (if frSourceKey p \<noteq> rcSourceKey r \<or> frEventKey p \<noteq> rcEventKey r then retryRows I r ps retried w
      else
        let headers = [(''event_type'', rcWireEventType r)];
            (err, w1) = handleMessage I r headers (frEventID p) (Some (frPayload p)) w;
            w2 = (if err = None
                  then snd (ResolveIntegrationFailures I (rcConsumerGroup r) (rcSourceKey r) (rcEventKey r) (frEventID p) w1)
                  else w1)
        in if isCancelled I (iwClock w2) then ((retried + 1, Some ''context canceled''), w2)
           else retryRows I r ps (retried + 1) w2)"

definition RetryPendingFailures :: "intServices \<Rightarrow> 'h Receiver \<Rightarrow> 'h intWorld \<Rightarrow> (int \<times> string option) \<times> 'h intWorld" where
  "RetryPendingFailures I r w =
     (case ListPendingIntegrationFailuresByGroup I (rcConsumerGroup r) w of
        (Inl err, w1) \<Rightarrow> ((0, Some err), w1)
      | (Inr pending, w1) \<Rightarrow> retryRows I r pending 0 w1)"

subsection \<open>The consumer group as a machine\<close>

text \<open>
  The reader takes the messages of the subscription in order and puts each into the queue of its
  worker, which holds four; a worker takes the next message of its queue and processes it. The
  reader indexes the queues with the bucket, so a bucket that is no index is a panic.
\<close>

record poolState =
  poIncoming :: "transportMessage list"
  poQueues :: "transportMessage list list"
  poProcessed :: "transportMessage list"
  poPanicked :: bool

inductive poolStep :: "poolState \<Rightarrow> poolState \<Rightarrow> bool" where
  dispatch_message: "poIncoming s = m # ms \<Longrightarrow> \<not> poPanicked s \<Longrightarrow>
    bucketOfMessage (msKey m) (int (length (poQueues s))) = int b \<Longrightarrow> b < length (poQueues s) \<Longrightarrow>
    length (poQueues s ! b) < 4 \<Longrightarrow>
    poolStep s (s\<lparr>poIncoming := ms, poQueues := (poQueues s)[b := poQueues s ! b @ [m]]\<rparr>)"
| bad_bucket: "poIncoming s = m # ms \<Longrightarrow> \<not> poPanicked s \<Longrightarrow>
    bucketOfMessage (msKey m) (int (length (poQueues s))) < 0 \<Longrightarrow>
    poolStep s (s\<lparr>poPanicked := True\<rparr>)"
| work: "b < length (poQueues s) \<Longrightarrow> \<not> poPanicked s \<Longrightarrow> poQueues s ! b = m # ms \<Longrightarrow>
    poolStep s (s\<lparr>poQueues := (poQueues s)[b := ms], poProcessed := poProcessed s @ [m]\<rparr>)"

definition startedPool :: "nat \<Rightarrow> transportMessage list \<Rightarrow> poolState" where
  "startedPool workers msgs =
     \<lparr>poIncoming = msgs, poQueues = replicate workers [], poProcessed = [], poPanicked = False\<rparr>"

end
