(* ===== verification/Integration_Contract.thy ===== *)
theory Integration_Contract
  imports Integration "HOL-Library.Multiset"
begin

text \<open>
  What the messaging component promises: every routed event is handled or pending, a handled
  event is not handled again, the messages of one key are processed in order by a pool that
  drains, every receiver is reached; and where these promises break.
\<close>

subsection \<open>A database without faults\<close>

definition calm :: "intServices \<Rightarrow> bool" where
  "calm I \<longleftrightarrow> (\<forall>n. \<not> isFaulty I n) \<and> (\<forall>p. isPayloadOk I p) \<and> (\<forall>n. isRowID I n \<noteq> None)"

definition keyed :: "'h Receiver \<Rightarrow> bool" where
  "keyed r \<longleftrightarrow> rcConsumerGroup r \<noteq> [] \<and> rcSourceKey r \<noteq> [] \<and> rcEventKey r \<noteq> []"

lemma statement_calm [simp]:
  "calm I \<Longrightarrow> statement I run w = (None, run (w\<lparr>iwClock := Suc (iwClock w)\<rparr>))"
  by (simp add: calm_def statement_def)

lemma calm_rowID: "calm I \<Longrightarrow> \<exists>x. isRowID I n = Some x"
  by (auto simp: calm_def)

text \<open>An event is accounted for when it is handled or an unresolved failure holds it.\<close>

definition accounted :: "string \<Rightarrow> string \<Rightarrow> string \<Rightarrow> uuid \<Rightarrow> 'h intWorld \<Rightarrow> bool" where
  "accounted grp src ev eid w \<longleftrightarrow>
     isProcessed eid grp (iwProcessed w) \<or>
     (\<exists>row\<in>set (iwFailures w). sameFailure grp src ev eid row \<and> \<not> frResolved row)"

lemma upsert_records:
  "\<exists>row\<in>set (upsertFailure rec now rows).
     sameFailure (frGroup rec) (frSourceKey rec) (frEventKey rec) (frEventID rec) row \<and> \<not> frResolved row"
proof (cases "update_first (sameFailure (frGroup rec) (frSourceKey rec) (frEventKey rec) (frEventID rec))
                (\<lambda>r. r\<lparr>frError := frError rec, frPayload := frPayload rec, frAttempt := frAttempt r + 1,
                       frLastAttemptAt := now, frResolved := False\<rparr>) rows")
  case None
  then show ?thesis by (simp add: upsertFailure_def sameFailure_def del: update_first_None)
next
  case (Some rows')
  then show ?thesis by (auto simp: upsertFailure_def sameFailure_def elim!: update_first_SomeE)
qed

lemma upsert_keeps:
  assumes "row \<in> set rows" and "sameFailure grp src ev eid row" and "\<not> frResolved row"
  shows "\<exists>row'\<in>set (upsertFailure rec now rows). sameFailure grp src ev eid row' \<and> \<not> frResolved row'"
proof (cases "update_first (sameFailure (frGroup rec) (frSourceKey rec) (frEventKey rec) (frEventID rec))
                (\<lambda>r. r\<lparr>frError := frError rec, frPayload := frPayload rec, frAttempt := frAttempt r + 1,
                       frLastAttemptAt := now, frResolved := False\<rparr>) rows")
  case None
  with assms show ?thesis by (auto simp: upsertFailure_def simp del: update_first_None)
next
  case (Some rows')
  from this obtain pre x post where split: "rows = pre @ x # post"
    "rows' = pre @ x\<lparr>frError := frError rec, frPayload := frPayload rec, frAttempt := frAttempt x + 1,
                    frLastAttemptAt := now, frResolved := False\<rparr> # post"
    by (rule update_first_SomeE) blast
  with assms Some show ?thesis by (auto simp: upsertFailure_def sameFailure_def)
qed

lemma recordFailure_calm:
  assumes "calm I" and "keyed r" and "eid \<noteq> uuidNil"
  shows "\<exists>rec. recordFailure I r eid raw err w =
           w\<lparr>iwClock := Suc (iwClock w), iwFailures := upsertFailure rec (Suc (iwClock w)) (iwFailures w)\<rparr> \<and>
         frGroup rec = rcConsumerGroup r \<and> frSourceKey rec = rcSourceKey r \<and> frEventKey rec = rcEventKey r \<and>
         frEventID rec = eid"
proof -
  obtain x where "isRowID I (iwClock w) = Some x" using calm_rowID [OF assms(1)] by blast
  moreover have "isPayloadOk I p" for p using assms(1) by (simp add: calm_def)
  ultimately show ?thesis using assms
    by (auto simp: recordFailure_def RecordIntegrationFailure_def keyed_def Let_def)
qed

lemma isProcessed_append [simp]:
  "isProcessed eid grp (rows @ rows') \<longleftrightarrow> isProcessed eid grp rows \<or> isProcessed eid grp rows'"
  by (simp add: isProcessed_def bex_Un)

lemma isProcessed_single [simp]: "isProcessed eid grp [r] \<longleftrightarrow> prEventID r = eid \<and> prGroup r = grp"
  by (simp add: isProcessed_def)

lemma markHandled_calm:
  assumes "calm I" and "keyed r" and "eid \<noteq> uuidNil"
  shows "isProcessed eid (rcConsumerGroup r) (iwProcessed (markHandled I r eid w)) \<and>
         iwFailures (markHandled I r eid w) = iwFailures w \<and> set (iwProcessed w) \<subseteq> set (iwProcessed (markHandled I r eid w)) \<and>
         iwHandler (markHandled I r eid w) = iwHandler w"
proof -
  obtain x where "isRowID I (iwClock w) = Some x" using calm_rowID [OF assms(1)] by blast
  then show ?thesis using assms
    by (cases "isProcessed eid (rcConsumerGroup r) (iwProcessed w)")
       (simp_all add: markHandled_def MarkProcessed_def keyed_def subset_insertI)
qed

lemma isProcessed_mono: "isProcessed eid grp rows \<Longrightarrow> set rows \<subseteq> set rows' \<Longrightarrow> isProcessed eid grp rows'"
  by (auto simp: isProcessed_def)

text \<open>The three ends of the pipeline of a message.\<close>

lemma handleMessage_cases [consumes 3, case_names dup failed handled]:
  assumes "calm I" and "keyed r" and "eid \<noteq> uuidNil"
  obtains (dup) "isProcessed eid (rcConsumerGroup r) (iwProcessed w)"
      and "handleMessage I r headers eid raw w = (None, w\<lparr>iwClock := Suc (iwClock w)\<rparr>)"
  | (failed) err h where "handleMessage I r headers eid raw w =
        (Some err, recordFailure I r eid raw err (w\<lparr>iwClock := Suc (iwClock w), iwHandler := h\<rparr>))"
      and "\<not> isProcessed eid (rcConsumerGroup r) (iwProcessed w)"
  | (handled) h w3 where "handleMessage I r headers eid raw w = (None, markHandled I r eid w3)"
      and "w3 = w\<lparr>iwClock := Suc (iwClock w), iwHandler := h\<rparr> \<or>
           w3 = recordFailure I r eid raw ''handler reported non-success Result'' (w\<lparr>iwClock := Suc (iwClock w), iwHandler := h\<rparr>)"
      and "\<not> isProcessed eid (rcConsumerGroup r) (iwProcessed w)"
proof (cases "isProcessed eid (rcConsumerGroup r) (iwProcessed w)")
  case True
  then have "handleMessage I r headers eid raw w = (None, w\<lparr>iwClock := Suc (iwClock w)\<rparr>)"
    using assms by (simp add: handleMessage_def IsAlreadyProcessed_def keyed_def)
  with True show ?thesis by (rule dup)
next
  case False
  let ?w1 = "w\<lparr>iwClock := Suc (iwClock w)\<rparr>"
  let ?ctx = "buildReceiverAppContext I (isFresh I (iwClock ?w1)) headers eid"
  have check: "IsAlreadyProcessed I eid (rcConsumerGroup r) w = (Inr False, ?w1)"
    using False assms by (simp add: IsAlreadyProcessed_def keyed_def)
  show ?thesis
  proof (cases "rcPlan r raw")
    case (Inl err)
    then have "handleMessage I r headers eid raw w =
        (Some err, recordFailure I r eid raw err (w\<lparr>iwClock := Suc (iwClock w), iwHandler := iwHandler w\<rparr>))"
      using assms(3) check by (simp add: handleMessage_def)
    then show ?thesis using False by (rule failed)
  next
    case (Inr call)
    obtain answer h where ans: "call ?ctx (iwHandler w) = (answer, h)" by fastforce
    let ?w2 = "w\<lparr>iwClock := Suc (iwClock w), iwHandler := h\<rparr>"
    show ?thesis
    proof (cases answer)
      case (Inl err)
      then have "handleMessage I r headers eid raw w = (Some err, recordFailure I r eid raw err ?w2)"
        using assms(3) check Inr ans by (simp add: handleMessage_def)
      then show ?thesis using False by (rule failed)
    next
      case res: (Inr res)
      let ?w3 = "if isSuccessResult res then ?w2
                 else recordFailure I r eid raw ''handler reported non-success Result'' ?w2"
      have "handleMessage I r headers eid raw w = (None, markHandled I r eid ?w3)"
        using assms(3) check Inr ans res by (simp add: handleMessage_def Let_def)
      then show ?thesis using False by (intro handled [of ?w3 h]) auto
    qed
  qed
qed

lemma recordFailure_keeps:
  assumes "calm I" and "keyed r" and "eid \<noteq> uuidNil"
  shows "accounted grp src ev eid' w \<Longrightarrow> accounted grp src ev eid' (recordFailure I r eid raw err w)"
    and "accounted (rcConsumerGroup r) (rcSourceKey r) (rcEventKey r) eid (recordFailure I r eid raw err w)"
    and "iwProcessed (recordFailure I r eid raw err w) = iwProcessed w"
proof -
  obtain rec where rec: "recordFailure I r eid raw err w =
      w\<lparr>iwClock := Suc (iwClock w), iwFailures := upsertFailure rec (Suc (iwClock w)) (iwFailures w)\<rparr>"
    "frGroup rec = rcConsumerGroup r" "frSourceKey rec = rcSourceKey r" "frEventKey rec = rcEventKey r" "frEventID rec = eid"
    using recordFailure_calm [OF assms] by blast
  show "accounted grp src ev eid' w \<Longrightarrow> accounted grp src ev eid' (recordFailure I r eid raw err w)"
    using upsert_keeps by (auto simp: accounted_def rec(1))
  show "accounted (rcConsumerGroup r) (rcSourceKey r) (rcEventKey r) eid (recordFailure I r eid raw err w)"
    using upsert_records [of rec] rec by (auto simp: accounted_def)
  show "iwProcessed (recordFailure I r eid raw err w) = iwProcessed w" by (simp add: rec(1))
qed

lemma accounted_clock [simp]:
  "accounted grp src ev eid (w\<lparr>iwClock := c, iwHandler := h\<rparr>) = accounted grp src ev eid w"
  "accounted grp src ev eid (w\<lparr>iwClock := c\<rparr>) = accounted grp src ev eid w"
  by (simp_all add: accounted_def)

lemma markHandled_keeps:
  assumes "calm I" and "keyed r" and "eid \<noteq> uuidNil" and "accounted grp src ev eid' w"
  shows "accounted grp src ev eid' (markHandled I r eid w)"
  using markHandled_calm [OF assms(1-3), of w] assms(4) by (auto simp: accounted_def intro: isProcessed_mono)

text \<open>What handling a message keeps and establishes.\<close>

lemma handleMessage_keeps:
  assumes c: "calm I" "keyed r" "eid \<noteq> uuidNil" and acc: "accounted grp src ev eid' w"
  shows "accounted grp src ev eid' (snd (handleMessage I r headers eid raw w))"
  using c
proof (cases rule: handleMessage_cases [where w = w and headers = headers and raw = raw])
  case dup
  then show ?thesis using acc by simp
next
  case (failed err h)
  then show ?thesis using acc by (simp add: recordFailure_keeps(1) [OF c])
next
  case (handled h w3)
  have "accounted grp src ev eid' w3" using handled(2) acc recordFailure_keeps(1) [OF c] by auto
  then show ?thesis using handled(1) markHandled_keeps [OF c] by simp
qed

lemma handleMessage_accounts:
  assumes c: "calm I" "keyed r" "eid \<noteq> uuidNil"
  shows "accounted (rcConsumerGroup r) (rcSourceKey r) (rcEventKey r) eid (snd (handleMessage I r headers eid raw w))"
  using c
proof (cases rule: handleMessage_cases [where w = w and headers = headers and raw = raw])
  case dup
  then show ?thesis by (simp add: accounted_def)
next
  case (failed err h)
  then show ?thesis by (simp add: recordFailure_keeps(2) [OF c])
next
  case (handled h w3)
  then show ?thesis using markHandled_calm [OF c, of w3] by (simp add: accounted_def)
qed

lemma handleMessage_processed:
  assumes c: "calm I" "keyed r" "eid \<noteq> uuidNil"
  shows "set (iwProcessed w) \<subseteq> set (iwProcessed (snd (handleMessage I r headers eid raw w)))"
  using c
proof (cases rule: handleMessage_cases [where w = w and headers = headers and raw = raw])
  case dup
  then show ?thesis by simp
next
  case (failed err h)
  then show ?thesis by (simp add: recordFailure_keeps(3) [OF c])
next
  case (handled h w3)
  have "iwProcessed w3 = iwProcessed w" using handled(2) by (auto simp: recordFailure_keeps(3) [OF c])
  then show ?thesis using handled(1) markHandled_calm [OF c, of w3] by simp
qed

lemma handleMessage_success:
  assumes c: "calm I" "keyed r" "eid \<noteq> uuidNil" and "fst (handleMessage I r headers eid raw w) = None"
  shows "isProcessed eid (rcConsumerGroup r) (iwProcessed (snd (handleMessage I r headers eid raw w)))"
  using c
proof (cases rule: handleMessage_cases [where w = w and headers = headers and raw = raw])
  case dup
  then show ?thesis by simp
next
  case (failed err h)
  then show ?thesis using assms(4) by simp
next
  case (handled h w3)
  then show ?thesis using markHandled_calm [OF c, of w3] by simp
qed

subsection \<open>Deliveries and retries\<close>

datatype 'h intOp = Deliver transportMessage | Retry "'h Receiver"

definition eventOf :: "intServices \<Rightarrow> transportMessage \<Rightarrow> uuid" where
  "eventOf I msg = parseEventID I (headerOf (msHeaders msg) ''event_id'') (msKey msg)"

fun intStep :: "intServices \<Rightarrow> 'h receiverGroup \<Rightarrow> 'h intWorld \<Rightarrow> 'h intOp \<Rightarrow> 'h intWorld" where
  "intStep I g w (Deliver msg) = processGroupMessage I g msg w"
| "intStep I g w (Retry r) = snd (RetryPendingFailures I r w)"

text \<open>The receivers of a group and of a retry have their keys.\<close>

fun opKeyed :: "'h receiverGroup \<Rightarrow> 'h intOp \<Rightarrow> bool" where
  "opKeyed g (Deliver msg) = True"
| "opKeyed g (Retry r) = keyed r"

definition groupKeyed :: "'h receiverGroup \<Rightarrow> bool" where
  "groupKeyed g \<longleftrightarrow> (\<forall>(ty, r)\<in>set (rgByEventType g). keyed r)"

lemma route_keyed: "groupKeyed g \<Longrightarrow> route g ty = Some r \<Longrightarrow> keyed r"
  by (auto simp: groupKeyed_def route_def split: option.splits list.splits if_splits dest: map_of_SomeD)

lemma handleMessage_nil: "handleMessage I r headers uuidNil raw w = (Some ''event_id missing'', w)"
  by (simp add: handleMessage_def)

lemma resolve_processed: "calm I \<Longrightarrow> iwProcessed (snd (ResolveIntegrationFailures I g s e eid w)) = iwProcessed w"
  by (simp add: ResolveIntegrationFailures_def)

lemma resolve_keeps:
  assumes "calm I" and "accounted grp src ev eid' w" and "isProcessed eid g (iwProcessed w)"
  shows "accounted grp src ev eid' (snd (ResolveIntegrationFailures I g s e eid w))"
proof (cases "g = [] \<or> s = [] \<or> e = [] \<or> eid = uuidNil")
  case True
  then show ?thesis using assms(2) by (auto simp: ResolveIntegrationFailures_def)
next
  case False
  let ?f = "\<lambda>r. if sameFailure g s e eid r \<and> \<not> frResolved r then r\<lparr>frResolved := True\<rparr> else r"
  have res: "snd (ResolveIntegrationFailures I g s e eid w) =
      w\<lparr>iwClock := Suc (iwClock w), iwFailures := map ?f (iwFailures w)\<rparr>"
    using False assms(1) by (simp add: ResolveIntegrationFailures_def)
  show ?thesis
  proof (cases "isProcessed eid' grp (iwProcessed w)")
    case True
    then show ?thesis unfolding res accounted_def by simp
  next
    case False
    then obtain row where row: "row \<in> set (iwFailures w)" "sameFailure grp src ev eid' row" "\<not> frResolved row"
      using assms(2) unfolding accounted_def by blast
    have "\<not> sameFailure g s e eid row" using False row(2) assms(3) by (auto simp: sameFailure_def)
    then have "?f row = row" by simp
    then have "row \<in> ?f ` set (iwFailures w)" using row(1) by (intro image_eqI [of _ _ row]) simp_all
    with row(2,3) show ?thesis unfolding res accounted_def by auto
  qed
qed

text \<open>Both facts a retry keeps: what is accounted for, and what is handled.\<close>

definition keptBy :: "'h intWorld \<Rightarrow> 'h intWorld \<Rightarrow> bool" where
  "keptBy w w' \<longleftrightarrow>
     (\<forall>grp src ev eid. accounted grp src ev eid w \<longrightarrow> accounted grp src ev eid w') \<and>
     (\<forall>x g. isProcessed x g (iwProcessed w) \<longrightarrow> isProcessed x g (iwProcessed w'))"

lemma keptBy_refl [simp]: "keptBy w w"
  by (simp add: keptBy_def)

lemma keptBy_trans: "keptBy w w' \<Longrightarrow> keptBy w' w'' \<Longrightarrow> keptBy w w''"
  by (simp add: keptBy_def)

lemma keptBy_clock [simp]: "keptBy w (w\<lparr>iwClock := c\<rparr>)"
  by (simp add: keptBy_def)

lemma handleMessage_keptBy:
  assumes "calm I" and "keyed r"
  shows "keptBy w (snd (handleMessage I r headers eid raw w))"
proof (cases "eid = uuidNil")
  case False
  then show ?thesis
    unfolding keptBy_def using handleMessage_keeps [OF assms False] isProcessed_mono [OF _ handleMessage_processed [OF assms False]] by blast
qed (simp add: handleMessage_nil)

lemma retried_keptBy:
  assumes "calm I" and "keyed r" and "handleMessage I r headers eid raw w = (err, w1)"
    and "w2 = (if err = None
               then snd (ResolveIntegrationFailures I (rcConsumerGroup r) (rcSourceKey r) (rcEventKey r) eid w1) else w1)"
  shows "keptBy w w2"
proof -
  have w1: "keptBy w w1" using handleMessage_keptBy [OF assms(1,2), of w headers eid raw] assms(3) by simp
  show ?thesis
  proof (cases "err = None")
    case True
    then have "eid \<noteq> uuidNil" using assms(3) by (auto simp: handleMessage_nil)
    then have "isProcessed eid (rcConsumerGroup r) (iwProcessed w1)"
      using handleMessage_success [OF assms(1,2), of eid headers raw w] True assms(3) by simp
    then have "keptBy w1 w2"
      using True assms(4) resolve_keeps [OF assms(1)] unfolding keptBy_def by (auto simp: resolve_processed [OF assms(1)])
    with w1 show ?thesis by (rule keptBy_trans)
  next
    case False
    with w1 assms(4) show ?thesis by simp
  qed
qed

lemma retryRows_keptBy:
  assumes "calm I" and "keyed r"
  shows "keptBy w (snd (retryRows I r ps n w))"
proof (induction ps arbitrary: n w)
  case (Cons p ps)
  obtain err w1 where h: "handleMessage I r [(''event_type'', rcWireEventType r)] (frEventID p) (Some (frPayload p)) w = (err, w1)"
    by fastforce
  define w2 where "w2 = (if err = None then snd (ResolveIntegrationFailures I (rcConsumerGroup r) (rcSourceKey r) (rcEventKey r) (frEventID p) w1) else w1)"
  have kept: "keptBy w w2" using retried_keptBy [OF assms h w2_def] .
  show ?case
  proof (cases "frSourceKey p \<noteq> rcSourceKey r \<or> frEventKey p \<noteq> rcEventKey r")
    case True
    then show ?thesis using Cons.IH [where w = w and n = n] by simp
  next
    case False
    then have "snd (retryRows I r (p # ps) n w) = (if isCancelled I (iwClock w2) then w2 else snd (retryRows I r ps (n + 1) w2))"
      by (simp add: h w2_def Let_def)
    then show ?thesis using kept Cons.IH [where w = w2 and n = "n + 1"] by (auto intro: keptBy_trans)
  qed
qed simp

lemma intStep_keptBy:
  assumes "calm I" and "groupKeyed g" and "opKeyed g op"
  shows "keptBy w (intStep I g w op)"
proof (cases op)
  case (Deliver msg)
  then show ?thesis using assms(1,2) by (auto simp: processGroupMessage_def split: option.splits
      intro: handleMessage_keptBy dest: route_keyed)
next
  case (Retry r)
  with assms(3) have r: "keyed r" by simp
  then have "snd (RetryPendingFailures I r w) =
    snd (retryRows I r (sort_key frLastAttemptAt (filter (\<lambda>row. \<not> frResolved row \<and> frGroup row = rcConsumerGroup r) (iwFailures w)))
           0 (w\<lparr>iwClock := Suc (iwClock w)\<rparr>))"
    using assms(1) by (simp add: RetryPendingFailures_def ListPendingIntegrationFailuresByGroup_def keyed_def)
  with Retry show ?thesis
    using keptBy_trans [OF keptBy_clock retryRows_keptBy [OF assms(1) r]] by simp
qed

lemma run_keptBy:
  assumes "calm I" and "groupKeyed g"
  shows "\<forall>op\<in>set ops. opKeyed g op \<Longrightarrow> keptBy w (run_steps (intStep I g) w ops)"
proof (induction ops arbitrary: w)
  case (Cons op ops)
  then show ?case using intStep_keptBy [OF assms, of op w] by (auto intro: keptBy_trans)
qed simp

text \<open>C20: No routed event is lost. On a database that refuses no statement, after any sequence of
  deliveries, redeliveries and operator retries, every message that was delivered and routed to
  a receiver with an event id is either recorded as handled for the consumer group, or held by a
  failure that is still pending, whatever the handlers answered.\<close>

theorem every_routed_event_is_accounted_for:
  assumes "calm I" and "groupKeyed g" and "\<forall>op\<in>set (before @ after). opKeyed g op"
    and "route g (headerOf (msHeaders msg) ''event_type'') = Some r" and "eventOf I msg \<noteq> uuidNil"
  shows "accounted (rcConsumerGroup r) (rcSourceKey r) (rcEventKey r) (eventOf I msg)
           (run_steps (intStep I g) w (before @ Deliver msg # after))"
proof -
  let ?w = "run_steps (intStep I g) w before"
  have "accounted (rcConsumerGroup r) (rcSourceKey r) (rcEventKey r) (eventOf I msg) (processGroupMessage I g msg ?w)"
    using handleMessage_accounts [OF assms(1) route_keyed [OF assms(2,4)] assms(5)] assms(4)
    by (simp add: processGroupMessage_def eventOf_def)
  moreover have "keptBy (processGroupMessage I g msg ?w) (run_steps (intStep I g) (processGroupMessage I g msg ?w) after)"
    using run_keptBy [OF assms(1,2)] assms(3) by simp
  ultimately show ?thesis by (simp add: keptBy_def run_steps_append)
qed


subsection \<open>A receiver that counts its calls\<close>

definition quietServices :: intServices where
  "quietServices =
     \<lparr>isFaulty = \<lambda>_. False, isPayloadOk = \<lambda>_. True, isCancelled = \<lambda>_. False,
      isParse = \<lambda>s. if length s = 36 then Some (take 16 s) else None, isText = \<lambda>u. u,
      isFresh = \<lambda>n. replicate 16 (CHR ''f''), isRowID = \<lambda>n. Some ''row''\<rparr>"

definition countingReceiver :: "resultValue \<Rightarrow> nat Receiver" where
  "countingReceiver res =
     \<lparr>rcSourceKey = ''orders'', rcEventKey = ''paid'',
      rcPlan = (\<lambda>raw. if raw = Some ''{}'' then Inr (\<lambda>ctx n. (Inr res, Suc n)) else Inl ''invalid character''),
      rcTopic = ''orders.events'', rcWireEventType = ''OrderPaid'', rcConsumerGroup = ''svc'', rcWorkers = 1, rcStartFrom = ''latest''\<rparr>"

definition countingGroup :: "resultValue \<Rightarrow> nat receiverGroup" where
  "countingGroup res =
     \<lparr>rgTopic = ''orders.events'', rgConsumerGroup = ''svc'', rgWorkers = 1, rgStartFrom = ''latest'',
      rgByEventType = [(''OrderPaid'', countingReceiver res)]\<rparr>"

definition paidMessage :: "string \<Rightarrow> transportMessage" where
  "paidMessage payload =
     \<lparr>msTopic = ''orders.events'', msKey = ''0123456789abcdef'', msValue = Some payload,
      msHeaders = [(''event_type'', ''OrderPaid'')]\<rparr>"

definition emptyTables :: "nat intWorld" where
  "emptyTables = \<lparr>iwProcessed = [], iwFailures = [], iwEvents = [], iwClock = 0, iwHandler = 0\<rparr>"

lemma quiet_calm: "calm quietServices"
  by (simp add: calm_def quietServices_def)

lemma counting_keyed: "groupKeyed (countingGroup res)"
  by (simp add: groupKeyed_def countingGroup_def keyed_def countingReceiver_def)

lemma paid_routes:
  "route (countingGroup res) (headerOf (msHeaders (paidMessage p)) ''event_type'') = Some (countingReceiver res)"
  by (simp add: route_def countingGroup_def headerOf_def paidMessage_def)

lemma paid_event: "eventOf quietServices (paidMessage p) = ''0123456789abcdef''"
  by (simp add: eventOf_def parseEventID_def headerOf_def paidMessage_def)

lemma paid_not_nil: "''0123456789abcdef'' \<noteq> uuidNil"
  by code_simp

theorem every_routed_event_is_accounted_for_witness:
  "accounted ''svc'' ''orders'' ''paid'' ''0123456789abcdef''
     (run_steps (intStep quietServices (countingGroup (ResIsSuccess True))) emptyTables
        ([Deliver (paidMessage ''x'')] @ Deliver (paidMessage ''x'') # [Retry (countingReceiver (ResIsSuccess True))]))"
  using every_routed_event_is_accounted_for [OF quiet_calm counting_keyed _ paid_routes, of "[Deliver (paidMessage ''x'')]"
      "[Retry (countingReceiver (ResIsSuccess True))]" "ResIsSuccess True" "''x''" emptyTables]
  by (simp add: paid_event paid_not_nil keyed_def countingReceiver_def)


subsection \<open>Where the promises break\<close>

text \<open>The retry resolves a failure that it did not retry. When a handler answers with a result that is
  no success, the pipeline records a failure and also marks the event as handled; the operator's
  retry then takes the event for a duplicate, calls no handler, counts it as retried and marks
  the failure as resolved.\<close>

theorem retry_resolves_without_running:
  "(let r = countingReceiver (ResIsSuccess False);
        w = processGroupMessage quietServices (countingGroup (ResIsSuccess False)) (paidMessage ''{}'') emptyTables;
        (result, w') = RetryPendingFailures quietServices r w
    in iwHandler w = 1 \<and> map frResolved (iwFailures w) = [False] \<and>
       result = (1, None) \<and> iwHandler w' = 1 \<and> map frResolved (iwFailures w') = [True])"
  by code_simp



subsection \<open>The workers of a group\<close>

lemma hashKey_in: "inInt64 (hashKey key)"
proof (cases key rule: rev_cases)
  case Nil
  then show ?thesis by (simp add: hashKey_def inInt64_def minInt64_def maxInt64_def)
next
  case (snoc ks k)
  then show ?thesis by (simp add: hashKey_def)
qed

lemma bucket_index:
  assumes "hashKey key \<noteq> minInt64" and "0 < workers"
  shows "0 \<le> bucketOfMessage key workers \<and> bucketOfMessage key workers < workers"
proof (cases "workers \<le> 1")
  case True
  with assms(2) show ?thesis by (simp add: bucketOfMessage_def)
next
  case False
  have h: "- 9223372036854775807 \<le> hashKey key" "hashKey key \<le> 9223372036854775807"
    using hashKey_in [of key] assms(1) by (auto simp: inInt64_def minInt64_def maxInt64_def)
  then have "wrap64 (- hashKey key) = - hashKey key" by (intro wrap64_small) linarith+
  with False assms(2) show ?thesis by (auto simp: bucketOfMessage_def goRem_def Let_def)
qed

definition hostileMessage :: transportMessage where
  "hostileMessage = \<lparr>msTopic = ''t'', msKey = ''8d70cd96-4270-7ed3-81d7-852c63ccaca7'', msValue = None, msHeaders = []\<rparr>"

text \<open>A message can take down its consumer. The hash of this key, the text of an identifier of
  version seven, is the least integer, whose negation is itself: with three workers the bucket
  is minus two, and the reader panics when it indexes the queues with it. Every key with another
  hash has a bucket that is an index.\<close>

theorem least_hash_panics_the_reader:
  "hashKey (msKey hostileMessage) = minInt64 \<and> bucketOfMessage (msKey hostileMessage) 3 = - 2 \<and>
   poolStep (startedPool 3 [hostileMessage]) (startedPool 3 [hostileMessage]\<lparr>poPanicked := True\<rparr>) \<and>
   (hashKey key = minInt64 \<or> workers \<le> 0 \<or> 0 \<le> bucketOfMessage key workers \<and> bucketOfMessage key workers < workers)"
proof -
  have a: "hashKey (msKey hostileMessage) = minInt64" by code_simp
  have b: "bucketOfMessage (msKey hostileMessage) 3 = - 2" by code_simp
  have "poolStep (startedPool 3 [hostileMessage]) (startedPool 3 [hostileMessage]\<lparr>poPanicked := True\<rparr>)"
    by (rule poolStep.bad_bucket [of _ hostileMessage "[]"]) (simp_all add: startedPool_def b)
  moreover have "hashKey key = minInt64 \<or> workers \<le> 0 \<or> 0 \<le> bucketOfMessage key workers \<and> bucketOfMessage key workers < workers"
    using bucket_index [of key workers] by linarith
  ultimately show ?thesis using a b by blast
qed

subsection \<open>Order and progress of the pool\<close>

definition withKey :: "string \<Rightarrow> transportMessage list \<Rightarrow> transportMessage list" where
  "withKey k ms = filter (\<lambda>m. msKey m = k) ms"

definition workerOf :: "nat \<Rightarrow> string \<Rightarrow> nat" where
  "workerOf workers k = nat (bucketOfMessage k (int workers))"

definition poolInv :: "nat \<Rightarrow> transportMessage list \<Rightarrow> poolState \<Rightarrow> bool" where
  "poolInv workers msgs s \<longleftrightarrow>
     length (poQueues s) = workers \<and>
     (\<forall>b<workers. \<forall>m\<in>set (poQueues s ! b). workerOf workers (msKey m) = b) \<and>
     (\<forall>k. workerOf workers k < workers \<longrightarrow>
        withKey k (poProcessed s) @ withKey k (poQueues s ! workerOf workers k) @ withKey k (poIncoming s) = withKey k msgs) \<and>
     mset (poProcessed s) + mset (concat (poQueues s)) + mset (poIncoming s) = mset msgs"

lemma withKey_simps [simp]:
  "withKey k [] = []" "withKey k (m # ms) = (if msKey m = k then m # withKey k ms else withKey k ms)"
  "withKey k (xs @ ys) = withKey k xs @ withKey k ys"
  by (simp_all add: withKey_def)

lemma mset_concat_update:
  "b < length qs \<Longrightarrow> mset (concat (qs[b := q])) + mset (qs ! b) = mset (concat qs) + mset q"
proof (induction qs arbitrary: b)
  case (Cons a qs)
  then show ?case by (cases b) (auto simp: ac_simps)
qed simp

lemma poolInv_start: "poolInv workers msgs (startedPool workers msgs)"
  by (simp add: poolInv_def startedPool_def concat_replicate_trivial)

lemma poolInvD:
  assumes "poolInv workers msgs s"
  shows "length (poQueues s) = workers"
    and "b < workers \<Longrightarrow> m \<in> set (poQueues s ! b) \<Longrightarrow> workerOf workers (msKey m) = b"
    and "workerOf workers k < workers \<Longrightarrow>
         withKey k (poProcessed s) @ withKey k (poQueues s ! workerOf workers k) @ withKey k (poIncoming s) = withKey k msgs"
    and "mset (poProcessed s) + mset (concat (poQueues s)) + mset (poIncoming s) = mset msgs"
  using assms unfolding poolInv_def by blast+

lemma poolInv_dispatch:
  assumes inv: "poolInv workers msgs s" and hd: "poIncoming s = m # ms" and b: "b < workers" "workerOf workers (msKey m) = b"
  shows "poolInv workers msgs (s\<lparr>poIncoming := ms, poQueues := (poQueues s)[b := poQueues s ! b @ [m]]\<rparr>)"
proof -
  let ?qs = "(poQueues s)[b := poQueues s ! b @ [m]]"
  note len = poolInvD(1) [OF inv]
  have "workerOf workers (msKey m') = b'" if "b' < workers" "m' \<in> set (?qs ! b')" for b' m'
    using poolInvD(2) [OF inv that(1), of m'] that b len by (cases "b' = b") auto
  moreover have "withKey k (poProcessed s) @ withKey k (?qs ! workerOf workers k) @ withKey k ms = withKey k msgs"
    if "workerOf workers k < workers" for k
    using poolInvD(3) [OF inv that] hd b len by (cases "workerOf workers k = b") (auto split: if_splits)
  moreover have "mset (poProcessed s) + mset (concat ?qs) + mset ms = mset msgs"
    using poolInvD(4) [OF inv] hd mset_concat_update [of b "poQueues s" "poQueues s ! b @ [m]"] b len by simp
  ultimately show ?thesis using len by (simp add: poolInv_def)
qed

lemma poolInv_work:
  assumes inv: "poolInv workers msgs s" and b: "b < workers" and hd: "poQueues s ! b = m # ms"
  shows "poolInv workers msgs (s\<lparr>poQueues := (poQueues s)[b := ms], poProcessed := poProcessed s @ [m]\<rparr>)"
proof -
  let ?qs = "(poQueues s)[b := ms]"
  note len = poolInvD(1) [OF inv]
  have m: "workerOf workers (msKey m) = b" using poolInvD(2) [OF inv b, of m] hd by simp
  have "workerOf workers (msKey m') = b'" if "b' < workers" "m' \<in> set (?qs ! b')" for b' m'
    using poolInvD(2) [OF inv that(1), of m'] that b len hd by (cases "b' = b") auto
  moreover have "withKey k (poProcessed s @ [m]) @ withKey k (?qs ! workerOf workers k) @ withKey k (poIncoming s) = withKey k msgs"
    if "workerOf workers k < workers" for k
    using poolInvD(3) [OF inv that] hd b len m by (cases "workerOf workers k = b") (auto split: if_splits)
  moreover have "mset (poProcessed s @ [m]) + mset (concat ?qs) + mset (poIncoming s) = mset msgs"
  proof -
    have "mset (concat (poQueues s)) = add_mset m (mset (concat ?qs))"
      using hd mset_concat_update [of b "poQueues s" ms] b len by simp
    then show ?thesis using poolInvD(4) [OF inv] by simp
  qed
  ultimately show ?thesis using len by (simp add: poolInv_def)
qed

lemma poolInv_step:
  assumes "poolStep s s'" and inv: "poolInv workers msgs s"
  shows "poolInv workers msgs s'"
  using assms(1)
proof cases
  case (dispatch_message m ms b)
  with poolInvD(1) [OF inv] have "b < workers" "workerOf workers (msKey m) = b" by (simp_all add: workerOf_def)
  with dispatch_message(2) show ?thesis unfolding dispatch_message(1) by (intro poolInv_dispatch [OF inv])
next
  case (bad_bucket m ms)
  with inv show ?thesis by (simp add: poolInv_def)
next
  case (work b m ms)
  with poolInvD(1) [OF inv] show ?thesis unfolding work(1) by (intro poolInv_work [OF inv]) simp_all
qed

lemma poolInv_run: "poolStep\<^sup>*\<^sup>* (startedPool workers msgs) s \<Longrightarrow> poolInv workers msgs s"
  by (induction rule: rtranclp_induct) (auto intro: poolInv_start poolInv_step)

lemma workerOf_index:
  assumes "0 < workers" and "hashKey k \<noteq> minInt64"
  shows "workerOf workers k < workers" and "bucketOfMessage k (int workers) = int (workerOf workers k)"
proof -
  have "0 \<le> bucketOfMessage k (int workers) \<and> bucketOfMessage k (int workers) < int workers"
    using bucket_index [OF assms(2), of "int workers"] assms(1) by simp
  then show "workerOf workers k < workers" "bucketOfMessage k (int workers) = int (workerOf workers k)"
    by (simp_all add: workerOf_def nat_less_iff)
qed

text \<open>C22: The messages of one key are processed in the order in which they were read. However the
  reader and any number of workers interleave, what was processed of a key is at every moment
  an initial part of the messages of that key in the order of the subscription.\<close>

theorem messages_of_a_key_stay_in_order:
  assumes "0 < workers" and "hashKey k \<noteq> minInt64" and "poolStep\<^sup>*\<^sup>* (startedPool workers msgs) s"
  shows "\<exists>rest. withKey k msgs = withKey k (poProcessed s) @ rest"
  using poolInv_run [OF assms(3)] workerOf_index(1) [OF assms(1,2)] unfolding poolInv_def by metis

lemma incoming_known:
  assumes "poolInv workers msgs s" and "poIncoming s = m # ms"
  shows "m \<in> set msgs"
proof -
  have "set_mset (mset (poProcessed s) + mset (concat (poQueues s)) + mset (poIncoming s)) = set_mset (mset msgs)"
    using assms(1) by (simp add: poolInv_def)
  then show ?thesis using assms(2) by auto
qed

lemma pool_enabled:
  assumes inv: "poolInv workers msgs s" and "0 < workers" and "\<forall>m\<in>set msgs. hashKey (msKey m) \<noteq> minInt64"
    and calm: "\<not> poPanicked s" and stuck: "\<nexists>s'. poolStep s s'"
  shows "mset (poProcessed s) = mset msgs"
proof -
  have queue: "poQueues s ! b = []" if "b < workers" for b
  proof (cases "poQueues s ! b")
    case (Cons m ms)
    have "b < length (poQueues s)" using that inv by (simp add: poolInv_def)
    then show ?thesis using stuck poolStep.work [OF _ calm Cons] by blast
  qed
  have "poIncoming s = []"
  proof (cases "poIncoming s")
    case (Cons m ms)
    have "m \<in> set msgs" using incoming_known [OF inv Cons] .
    then have b: "workerOf workers (msKey m) < workers"
      "bucketOfMessage (msKey m) (int (length (poQueues s))) = int (workerOf workers (msKey m))"
      using workerOf_index [OF assms(2)] assms(3) inv by (auto simp: poolInv_def)
    then have "length (poQueues s ! workerOf workers (msKey m)) < 4" using queue by simp
    then show ?thesis using stuck poolStep.dispatch_message [OF Cons calm b(2)] b(1) inv by (auto simp: poolInv_def)
  qed
  moreover have "\<forall>q\<in>set (poQueues s). q = []" using queue inv by (auto simp: poolInv_def in_set_conv_nth)
  then have "mset (concat (poQueues s)) = {#}" by simp
  ultimately show ?thesis using inv unfolding poolInv_def by (metis add_0_right mset.simps(1))
qed

definition poolWork :: "poolState \<Rightarrow> nat" where
  "poolWork s = 2 * length (poIncoming s) + length (concat (poQueues s))"

lemma poolWork_step:
  assumes "poolStep s s'" and inv: "poolInv workers msgs s" and "0 < workers"
    and "\<forall>m\<in>set msgs. hashKey (msKey m) \<noteq> minInt64" and "\<not> poPanicked s"
  shows "Suc (poolWork s') = poolWork s \<and> \<not> poPanicked s'"
  using assms(1)
proof cases
  case (dispatch_message m ms b)
  have "length (concat ((poQueues s)[b := poQueues s ! b @ [m]])) = Suc (length (concat (poQueues s)))"
    using arg_cong [OF mset_concat_update [of b "poQueues s" "poQueues s ! b @ [m]"], of size] dispatch_message by simp
  with dispatch_message assms(5) show ?thesis by (simp add: poolWork_def)
next
  case (bad_bucket m ms)
  have "m \<in> set msgs" using incoming_known [OF inv bad_bucket(2)] .
  then have "bucketOfMessage (msKey m) (int (length (poQueues s))) = int (workerOf workers (msKey m))"
    using workerOf_index [OF assms(3)] assms(4) inv by (auto simp: poolInv_def)
  with bad_bucket show ?thesis by simp
next
  case (work b m ms)
  have "Suc (length (concat ((poQueues s)[b := ms]))) = length (concat (poQueues s))"
    using arg_cong [OF mset_concat_update [of b "poQueues s" ms], of size] work by simp
  with work assms(5) show ?thesis by (simp add: poolWork_def)
qed

lemma poolWork_run:
  assumes "0 < workers" and "\<forall>m\<in>set msgs. hashKey (msKey m) \<noteq> minInt64"
  shows "(poolStep ^^ n) (startedPool workers msgs) s \<Longrightarrow>
         poolInv workers msgs s \<and> \<not> poPanicked s \<and> n + poolWork s = 2 * length msgs"
proof (induction n arbitrary: s)
  case 0
  then show ?case
    using poolInv_start [of workers msgs] by (auto simp: startedPool_def poolWork_def concat_replicate_trivial)
next
  case (Suc n)
  then obtain s1 where s1: "(poolStep ^^ n) (startedPool workers msgs) s1" "poolStep s1 s" by auto
  note ih = Suc.IH [OF s1(1)]
  with poolWork_step [OF s1(2) _ assms] poolInv_step [OF s1(2)] show ?case by auto
qed


definition drainedPool :: poolState where
  "drainedPool = \<lparr>poIncoming = [], poQueues = [[]], poProcessed = [paidMessage ''a''], poPanicked = False\<rparr>"

lemma one_message_drains: "(poolStep ^^ 2) (startedPool 1 [paidMessage ''a'']) drainedPool"
proof -
  let ?s0 = "startedPool 1 [paidMessage ''a'']"
  let ?s1 = "?s0\<lparr>poIncoming := [], poQueues := (poQueues ?s0)[0 := poQueues ?s0 ! 0 @ [paidMessage ''a'']]\<rparr>"
  have "poolStep ?s0 ?s1"
    by (rule poolStep.dispatch_message) (simp_all add: startedPool_def bucketOfMessage_def)
  moreover have "poolStep ?s1 drainedPool"
    using poolStep.work [of 0 ?s1 "paidMessage ''a''" "[]"] by (simp add: startedPool_def drainedPool_def)
  ultimately show ?thesis by (auto simp: numeral_2_eq_2)
qed

lemma drained_stuck: "\<not> poolStep drainedPool s"
  by (rule notI, erule poolStep.cases) (auto simp: drainedPool_def less_Suc_eq)

lemma paid_hash: "hashKey ''0123456789abcdef'' \<noteq> minInt64"
  by code_simp

theorem messages_of_a_key_stay_in_order_witness:
  "poProcessed drainedPool = [paidMessage ''a''] \<and>
   (\<exists>rest. withKey ''0123456789abcdef'' [paidMessage ''a''] = withKey ''0123456789abcdef'' (poProcessed drainedPool) @ rest)"
proof -
  have "poolStep\<^sup>*\<^sup>* (startedPool 1 [paidMessage ''a'']) drainedPool"
    using one_message_drains by (rule relpowp_imp_rtranclp)
  from messages_of_a_key_stay_in_order [OF _ paid_hash this] show ?thesis by (simp add: drainedPool_def)
qed


subsection \<open>Every receiver is reached\<close>

definition handlerAt :: "(string \<times> 'h receiverGroup) list \<Rightarrow> string \<times> string \<Rightarrow> 'h Receiver option" where
  "handlerAt gs p = (case map_of gs (fst p) of None \<Rightarrow> None | Some g \<Rightarrow> map_of (rgByEventType g) (snd p))"

definition coordinate :: "'h Receiver \<Rightarrow> string \<times> string" where
  "coordinate r = (groupKey r, rcWireEventType r)"

lemma addReceiver_refuses:
  "handlerAt gs (coordinate r) = Some e \<Longrightarrow> addReceiver r gs = Inl (duplicateReceiver e r)"
  by (auto simp: handlerAt_def coordinate_def addReceiver_def Let_def split: option.splits)

lemma addReceiver_adds:
  assumes "handlerAt gs (coordinate r) = None"
  shows "\<exists>gs'. addReceiver r gs = Inr gs' \<and> handlerAt gs' = (handlerAt gs)(coordinate r \<mapsto> r)"
proof (cases "map_of gs (groupKey r)")
  case None
  then show ?thesis
    by (auto simp: addReceiver_def Let_def handlerAt_def coordinate_def fun_eq_iff update_conv'
        split: option.splits)
next
  case (Some g)
  with assms show ?thesis
    by (auto simp: addReceiver_def Let_def handlerAt_def coordinate_def fun_eq_iff update_conv' split: option.splits)
qed

lemma groupReceivers_handlers:
  "(case groupReceivers rs gs of
      Inr groups \<Rightarrow> distinct (map coordinate rs) \<and> (\<forall>r\<in>set rs. handlerAt gs (coordinate r) = None) \<and>
                    (\<forall>r\<in>set rs. handlerAt groups (coordinate r) = Some r) \<and>
                    (\<forall>p. p \<notin> coordinate ` set rs \<longrightarrow> handlerAt groups p = handlerAt gs p)
    | Inl err \<Rightarrow> \<not> (distinct (map coordinate rs) \<and> (\<forall>r\<in>set rs. handlerAt gs (coordinate r) = None)))"
proof (induction rs arbitrary: gs)
  case Nil
  then show ?case by simp
next
  case (Cons r rs)
  show ?case
  proof (cases "handlerAt gs (coordinate r)")
    case (Some e)
    then show ?thesis by (simp add: addReceiver_refuses)
  next
    case None
    then obtain gs' where gs': "addReceiver r gs = Inr gs'" "handlerAt gs' = (handlerAt gs)(coordinate r \<mapsto> r)"
      using addReceiver_adds by blast
    show ?thesis
    proof (cases "groupReceivers rs gs'")
      case (Inl err)
      with Cons.IH [of gs'] None show ?thesis
        by (simp add: gs') (metis image_eqI)
    next
      case (Inr groups)
      then have ih: "distinct (map coordinate rs)" "\<forall>r'\<in>set rs. handlerAt gs' (coordinate r') = None"
        "\<forall>r'\<in>set rs. handlerAt groups (coordinate r') = Some r'"
        "\<forall>p. p \<notin> coordinate ` set rs \<longrightarrow> handlerAt groups p = handlerAt gs' p"
        using Cons.IH [of gs'] by simp_all
      have fresh: "coordinate r \<notin> coordinate ` set rs" using ih(2) unfolding gs'(2) by force
      have "handlerAt gs (coordinate r') = None" if "r' \<in> set rs" for r'
        using ih(2) that fresh unfolding gs'(2) by (auto split: if_splits)
      moreover have "handlerAt groups (coordinate r) = Some r" using spec [OF ih(4), of "coordinate r"] fresh unfolding gs'(2) by simp
      moreover have "handlerAt groups p = handlerAt gs p" if "p \<notin> coordinate ` set (r # rs)" for p
        using spec [OF ih(4), of p] that unfolding gs'(2) by simp
      ultimately show ?thesis using ih(1,3) fresh None Inr gs'(1) by simp
    qed
  qed
qed

text \<open>Every receiver is reached and only it. The pool starts exactly when no two receivers share
  topic, consumer group and event type; and then each receiver has one reader, that of its topic
  and group, which routes its event type to it.\<close>

theorem groupReceivers_reaches_every_receiver:
  "case groupReceivers rs [] of
     Inl err \<Rightarrow> \<not> distinct (map (\<lambda>r. (groupKey r, rcWireEventType r)) rs)
   | Inr groups \<Rightarrow> distinct (map (\<lambda>r. (groupKey r, rcWireEventType r)) rs) \<and>
       (\<forall>r. r \<in> set rs \<longrightarrow> (\<exists>g. map_of groups (groupKey r) = Some g \<and> route g (rcWireEventType r) = Some r))"
proof -
  have c: "map coordinate rs = map (\<lambda>r. (groupKey r, rcWireEventType r)) rs" by (simp add: coordinate_def)
  have "\<exists>g. map_of groups (groupKey r) = Some g \<and> route g (rcWireEventType r) = Some r"
    if "handlerAt groups (coordinate r) = Some r" for groups :: "(string \<times> 'a receiverGroup) list" and r
    using that by (auto simp: handlerAt_def coordinate_def route_def split: option.splits)
  moreover have "handlerAt [] p = (None :: 'a Receiver option)" for p by (simp add: handlerAt_def)
  ultimately show ?thesis using groupReceivers_handlers [of rs "[]"] unfolding c by (auto split: sum.splits)
qed

theorem groupReceivers_reaches_every_receiver_witness:
  "\<exists>groups g. groupReceivers [countingReceiver ResNoOutput] [] = Inr groups \<and>
     map_of groups (groupKey (countingReceiver ResNoOutput)) = Some g \<and> route g ''OrderPaid'' = Some (countingReceiver ResNoOutput)"
proof -
  let ?r = "countingReceiver ResNoOutput"
  obtain groups where groups: "groupReceivers [?r] [] = Inr groups" by (simp add: addReceiver_def)
  have "rcWireEventType ?r = ''OrderPaid''" by (simp add: countingReceiver_def)
  with groupReceivers_reaches_every_receiver [of "[?r]"] groups show ?thesis by auto
qed

subsection \<open>The producer\<close>

text \<open>An aggregate id that is no UUID is stored as NULL. An event that is declared with an aggregate
  needs an aggregate id, but any text passes: when it does not parse, the row is written with
  the aggregate's type and without its id.\<close>

theorem unparsable_aggregate_id_is_stored_as_null:
  "(let cfg = \<lparr>icPublishes = [(''paid'', \<lparr>peEventType = ''OrderPaid'', peAggregate = ''orders'', peVersion = 0\<rparr>)],
               icSubscribes = [], icDefaults = \<lparr>sdConsumerGroup = [], sdWorkers = 0, sdStartFrom = []\<rparr>\<rparr>;
        ctx = \<lparr>axID = uuidNil, axSubject = None, axCorrelation = uuidNil, axCausation = uuidNil, axTraceparent = []\<rparr>;
        (err, w) = Dispatch quietServices (Some \<lparr>clCfg = Some cfg, clEngine = True\<rparr>) ctx ''paid'' (Inr ''{}'')
                     [WithAggregateID ''order-42''] emptyTables
    in err = None \<and> map (\<lambda>row. (row ! 2, row ! 3)) (iwEvents w) = [(SqlText ''orders'', SqlNull)])"
  by code_simp

end
