(* ===== verification/Schema_Types.thy ===== *)
theory Schema_Types
  imports Go_Lib Entity_Model
begin

text \<open>
  Model of \<^verbatim>\<open>src/infra/db/core\<close>: \<^verbatim>\<open>field_types.go\<close>, \<^verbatim>\<open>field_path.go\<close>, \<^verbatim>\<open>value_object.go\<close>, \<^verbatim>\<open>identifier.go\<close> and
  \<^verbatim>\<open>redaction.go\<close>. A \<^verbatim>\<open>reflect.Type\<close> is a term of \<open>reflectType\<close>; two types are identical when the terms are
  equal. The panics of the schema package are the constructors of \<open>schemaPanic\<close>.
\<close>

subsection \<open>Go types and the paths into them\<close>

text \<open>
  \<open>TyScalarVO\<close> is a named type with \<^verbatim>\<open>Value()\<close>: its name, whether it is an enumeration, and the
  type of its underlying scalar. \<open>TyStruct\<close> has a name, whether it declares \<^verbatim>\<open>IsValid\<close> of a value
  object, and its fields in order. \<open>TyOther\<close> is any other type.
\<close>

datatype reflectType =
    TyID | TyString | TyBool | TyInt | TyInt16 | TyInt32 | TyInt64 | TyFloat32 | TyFloat64
  | TyTime | TyBytes | TyRawMessage | TyUUID | TyOther string | TyPtr reflectType
  | TyScalarVO string bool reflectType
  | TyStruct string bool "structMember list"
and structMember = Member string bool bool reflectType

text \<open>A member has a name, whether it is exported, whether it is embedded, and a type.\<close>

fun memberName :: "structMember \<Rightarrow> string" where
  "memberName (Member n e a t) = n"

fun memberExported :: "structMember \<Rightarrow> bool" where
  "memberExported (Member n e a t) = e"

fun memberEmbedded :: "structMember \<Rightarrow> bool" where
  "memberEmbedded (Member n e a t) = a"

fun memberType :: "structMember \<Rightarrow> reflectType" where
  "memberType (Member n e a t) = t"

fun members :: "reflectType \<Rightarrow> structMember list" where
  "members (TyStruct n v ms) = ms"
| "members _ = []"

fun goTypeName :: "reflectType \<Rightarrow> string" where
  "goTypeName (TyStruct n v ms) = n"
| "goTypeName (TyScalarVO n e u) = n"
| "goTypeName (TyOther n) = n"
| "goTypeName _ = []"

fun stripPointers :: "reflectType \<Rightarrow> reflectType" where
  "stripPointers (TyPtr t) = stripPointers t"
| "stripPointers t = t"

text \<open>The first member of the name decides: a member found deeper has a longer index path, and
  an unexported one a package path.\<close>

definition exportedFieldIndex :: "reflectType \<Rightarrow> string \<Rightarrow> nat option" where
  "exportedFieldIndex t goName =
     (let i = length (takeWhile (\<lambda>m. memberName m \<noteq> goName) (members t))
      in if i < length (members t) \<and> memberExported (members t ! i) then Some i else None)"

type_synonym FieldPath = "nat list"

fun StructFieldIn :: "FieldPath \<Rightarrow> reflectType \<Rightarrow> structMember option" where
  "StructFieldIn [] t = None"
| "StructFieldIn (i # p) t =
     (let ms = members (stripPointers t) in
      if i < length ms
      then (if p = [] then Some (ms ! i) else StructFieldIn p (memberType (ms ! i)))
      else None)"

definition TypeIn :: "FieldPath \<Rightarrow> reflectType \<Rightarrow> reflectType option" where
  "TypeIn p t = map_option memberType (StructFieldIn p t)"

subsection \<open>Persistable types\<close>

definition supportedFieldTypes :: "reflectType list" where
  "supportedFieldTypes =
     [TyID, TyPtr TyID, TyString, TyPtr TyString, TyBool, TyPtr TyBool, TyInt, TyPtr TyInt,
      TyInt16, TyPtr TyInt16, TyInt32, TyPtr TyInt32, TyInt64, TyPtr TyInt64,
      TyFloat32, TyPtr TyFloat32, TyFloat64, TyPtr TyFloat64, TyTime, TyPtr TyTime,
      TyBytes, TyRawMessage]"

text \<open>The panics of the package, one constructor for each kind of message.\<close>

datatype (plugins only: code) schemaPanic =
    NotAStruct string
  | SiblingRefuses string
  | EmptyColumn string
  | DeclaredTwice string string string
  | ReservedColumn string
  | ColumnClaimed string string string
  | MissingIDField string
  | TwoParents
  | MappedParentID string
  | ReservedGoName string
  | NotAnExportedField string
  | CompositeAsField string
  | NotComposite string
  | FieldTwice string
  | ColumnTwice string
  | ManagedCollision string
  | TooManyLabels string
  | AnchoredLabel string
  | UnsupportedType string reflectType
  | UUIDField string
  | BadStampType string reflectType
  | ExternalRefuses string
  | MissingAxis string string
  | BadRedactor string string
  | NaturalKeyRedacted string
  | VerticalOnDirect string
  | BadChild string
  | BadSibling string
  | BadSharedBase string
  | BadComposite string
  | BadCollectionName string
  | NotASharedBase string
  | Overlap string
  | EmptyMask

definition mustSupportedFieldType :: "string \<Rightarrow> reflectType \<Rightarrow> schemaPanic option" where
  "mustSupportedFieldType goName ft =
     (if ft \<in> set supportedFieldTypes then None
      else if ft = TyUUID \<or> ft = TyPtr TyUUID then Some (UUIDField goName)
      else Some (UnsupportedType goName ft))"

text \<open>Whether the type, behind its pointers, is a scalar value object: its kind and underlying type.\<close>

definition valueObjectField :: "reflectType \<Rightarrow> (bool \<times> reflectType) option" where
  "valueObjectField ft = (case stripPointers ft of TyScalarVO n enum u \<Rightarrow> Some (enum, u) | _ \<Rightarrow> None)"

definition effectiveScalar :: "reflectType \<Rightarrow> reflectType" where
  "effectiveScalar ft =
     stripPointers (case valueObjectField ft of Some (_, u) \<Rightarrow> u | None \<Rightarrow> ft)"

definition isCompositeType :: "reflectType \<Rightarrow> bool" where
  "isCompositeType t = (case t of TyStruct n v ms \<Rightarrow> v | _ \<Rightarrow> False)"

definition mustNotCompositeField :: "string \<Rightarrow> reflectType \<Rightarrow> schemaPanic option" where
  "mustNotCompositeField goName ft =
     (if isCompositeType (stripPointers ft) then Some (CompositeAsField goName) else None)"

definition mustBeCompositeValueObject :: "reflectType \<Rightarrow> schemaPanic option" where
  "mustBeCompositeValueObject t =
     (case t of
        TyStruct n v ms \<Rightarrow> if v then None else Some (NotComposite n)
      | _ \<Rightarrow> Some (NotComposite (goTypeName t)))"

subsection \<open>Identifiers\<close>

definition SafeIdentifier :: "string \<Rightarrow> bool" where
  "SafeIdentifier name \<longleftrightarrow>
     name \<noteq> [] \<and> list_all (\<lambda>c. isLowerRune c \<or> isUpperRune c \<or> isDigit c \<or> c = CHR ''_'') name"

subsection \<open>Values\<close>

text \<open>
  A value as \<^verbatim>\<open>reflect\<close> sees it. \<open>GNil\<close> is any nil, \<open>GVO\<close> a scalar value object with its underlying
  scalar; numbers carry their type and are integral.
\<close>

datatype goVal = GNil | GPtr goVal | GStruct "goVal list" | GVO goVal | GStr string | GNum reflectType int
  | GID string | GTime int | GOther nat

fun derefValue :: "goVal \<Rightarrow> goVal" where
  "derefValue (GPtr v) = derefValue v"
| "derefValue v = v"

text \<open>None when a nil pointer, or no struct, is met on the way.\<close>

fun walkValue :: "FieldPath \<Rightarrow> goVal \<Rightarrow> goVal option" where
  "walkValue [] v = Some v"
| "walkValue (i # p) v =
     (case derefValue v of
        GStruct vs \<Rightarrow> if i < length vs then walkValue p (vs ! i) else None
      | _ \<Rightarrow> None)"

definition ValueIn :: "FieldPath \<Rightarrow> goVal \<Rightarrow> goVal option" where
  "ValueIn p v = (if p = [] then None else walkValue p v)"

definition unwrapVO :: "goVal \<Rightarrow> goVal" where
  "unwrapVO v = (case derefValue v of GVO u \<Rightarrow> u | _ \<Rightarrow> v)"

subsection \<open>Redaction\<close>

datatype Redactor = RedactUnset | Plain | RedactWith goVal | RedactKeepLast int | RedactUsing "(string \<Rightarrow> string) option"

fun redactorDeclared :: "Redactor \<Rightarrow> bool" where
  "redactorDeclared RedactUnset = False"
| "redactorDeclared _ = True"

fun redactorActive :: "Redactor \<Rightarrow> bool" where
  "redactorActive RedactUnset = False"
| "redactorActive Plain = False"
| "redactorActive _ = True"

text \<open>
  The runes of a string as the bytes each is written back with: a byte that starts no rune is
  the replacement character, three bytes long.
\<close>

fun runeChunks :: "string \<Rightarrow> string list" where
  "runeChunks [] = []"
| "runeChunks (b # bs) =
     (let n = (of_char b :: nat); c = (\<lambda>lo hi x. contByte lo hi (of_char x)); bad = [CHR 0xEF, CHR 0xBF, CHR 0xBD] in
      if n < 128 then [b] # runeChunks bs
      else (case bs of
        b1 # r1 \<Rightarrow>
          if 194 \<le> n \<and> n \<le> 223 \<and> c 128 191 b1 then [b, b1] # runeChunks r1
          else (case r1 of
            b2 # r2 \<Rightarrow>
              if 224 \<le> n \<and> n \<le> 239 \<and> c (if n = 224 then 160 else 128) (if n = 237 then 159 else 191) b1 \<and> c 128 191 b2
              then [b, b1, b2] # runeChunks r2
              else (case r2 of
                b3 # r3 \<Rightarrow>
                  if 240 \<le> n \<and> n \<le> 244 \<and> c (if n = 240 then 144 else 128) (if n = 244 then 143 else 191) b1 \<and>
                     c 128 191 b2 \<and> c 128 191 b3
                  then [b, b1, b2, b3] # runeChunks r3
                  else bad # runeChunks bs
              | [] \<Rightarrow> bad # runeChunks bs)
          | [] \<Rightarrow> bad # runeChunks bs)
      | [] \<Rightarrow> [bad]))"

definition maskKeepLast :: "string \<Rightarrow> int \<Rightarrow> string" where
  "maskKeepLast s n =
     (let runes = runeChunks s; total = int (length runes);
          keep = (if n < 0 \<or> total \<le> n then 0 else n)
      in replicate (nat (total - keep)) (CHR ''*'') @ concat (drop (nat (total - keep)) runes))"

text \<open>\<open>sprint\<close> is \<^verbatim>\<open>fmt.Sprint\<close> of a value that is no string.\<close>

definition redactableString :: "(goVal \<Rightarrow> string) \<Rightarrow> goVal \<Rightarrow> string" where
  "redactableString sprint v = (case derefValue v of GStr s \<Rightarrow> s | _ \<Rightarrow> sprint v)"

definition redactor_Apply :: "(goVal \<Rightarrow> string) \<Rightarrow> Redactor \<Rightarrow> goVal \<Rightarrow> schemaPanic + goVal" where
  "redactor_Apply sprint r v =
     (if \<not> redactorActive r \<or> v = GNil then Inr v
      else case r of
        RedactWith x \<Rightarrow> Inr x
      | RedactKeepLast n \<Rightarrow> Inr (GStr (maskKeepLast (redactableString sprint v) n))
      | RedactUsing (Some f) \<Rightarrow>
          let s = redactableString sprint v in
          if s \<noteq> [] \<and> f s = [] then Inl EmptyMask else Inr (GStr (f s))
      | _ \<Rightarrow> Inr v)"

definition isNumericKind :: "reflectType \<Rightarrow> bool" where
  "isNumericKind t \<longleftrightarrow> t \<in> {TyInt, TyInt16, TyInt32, TyInt64, TyFloat32, TyFloat64}"

text \<open>\<^verbatim>\<open>reflect.Value.Convert\<close> of an integral number: integer types wrap at their width.\<close>

fun convertNumber :: "reflectType \<Rightarrow> int \<Rightarrow> int" where
  "convertNumber TyInt16 n = (n + 32768) mod 65536 - 32768"
| "convertNumber TyInt32 n = (n + 2147483648) mod 4294967296 - 2147483648"
| "convertNumber TyInt64 n = wrap64 n"
| "convertNumber TyInt n = wrap64 n"
| "convertNumber _ n = n"

fun typeOfFixed :: "goVal \<Rightarrow> reflectType option" where
  "typeOfFixed (GStr s) = Some TyString"
| "typeOfFixed (GNum t n) = Some t"
| "typeOfFixed (GID i) = Some TyID"
| "typeOfFixed (GTime t) = Some TyTime"
| "typeOfFixed _ = None"

definition mustFitFixed :: "string \<Rightarrow> string \<Rightarrow> goVal \<Rightarrow> reflectType option \<Rightarrow> schemaPanic + Redactor" where
  "mustFitFixed goName axis fixed scalar =
     (if fixed = GNil then Inl (BadRedactor goName axis)
      else case scalar of
        None \<Rightarrow> Inr (RedactWith fixed)
      | Some t \<Rightarrow>
          if typeOfFixed fixed = Some t then Inr (RedactWith fixed)
          else case fixed of
            GNum ft n \<Rightarrow>
              if isNumericKind ft \<and> isNumericKind t then Inr (RedactWith (GNum t (convertNumber t n)))
              else Inl (BadRedactor goName axis)
          | _ \<Rightarrow> Inl (BadRedactor goName axis))"

definition mustStringScalar :: "reflectType option \<Rightarrow> bool" where
  "mustStringScalar scalar \<longleftrightarrow> scalar = None \<or> scalar = Some TyString"

definition mustFit :: "string \<Rightarrow> string \<Rightarrow> reflectType option \<Rightarrow> Redactor \<Rightarrow> schemaPanic + Redactor" where
  "mustFit goName axis scalar r =
     (case r of
        RedactUnset \<Rightarrow> Inr r
      | Plain \<Rightarrow> Inr r
      | RedactKeepLast n \<Rightarrow>
          if n \<le> 0 \<or> \<not> mustStringScalar scalar then Inl (BadRedactor goName axis) else Inr r
      | RedactUsing f \<Rightarrow>
          if f = None \<or> \<not> mustStringScalar scalar then Inl (BadRedactor goName axis) else Inr r
      | RedactWith x \<Rightarrow> mustFitFixed goName axis x scalar)"

end
