(* ===== verification/Table_Schema.thy ===== *)
theory Table_Schema
  imports Schema_Types
begin

text \<open>
  Model of \<^verbatim>\<open>src/infra/db/core/table_schema.go\<close>, \<^verbatim>\<open>composite_vo.go\<close>, \<^verbatim>\<open>shared_base.go\<close>,
  \<^verbatim>\<open>schema_access.go\<close> and the walks of \<^verbatim>\<open>redaction.go\<close>: the map between the fields of a Go type
  and the columns of a table, declared call by call.

  A declaration takes a schema and returns the changed one or the panic it raises; \<open>firstPanic\<close> is
  the sequence of its checks in the order of the code. Schemas refer to each other by pointers:
  they live in a store, a list in which an address is an index, so that a change made through one
  pointer is seen through the others.
\<close>

subsection \<open>The schema\<close>

datatype IDKind = IDNone | IDValue | IDPointer

record schemaField =
  sfGo :: string
  sfColumn :: string
  sfPath :: FieldPath
  sfVOType :: "reflectType option"
  sfVOField :: string
  sfLabelKey :: string
  sfIDKind :: IDKind
  sfIsVO :: bool
  sfIsEnum :: bool
  sfUnderlying :: "reflectType option"
  sfInSync :: Redactor
  sfInAudit :: Redactor
  sfStamped :: bool
  sfStampedCounter :: bool

datatype OrphanPolicy = KeepOrphan | DeleteWhenUnreferenced

record sharedBaseLink =
  slBase :: nat
  slParentID :: string
  slScanCols :: "string list"
  slScanByCol :: "(string \<times> FieldPath) list"

record TableSchema =
  tsTable :: string
  tsTyp :: "reflectType option"
  tsIdGo :: string
  tsIdColumn :: string
  tsIdIndex :: "nat option"
  tsParentID :: string
  tsFields :: "schemaField list"
  tsByGo :: "string \<rightharpoonup> schemaField"
  tsByCol :: "string \<rightharpoonup> schemaField"
  tsArchivedAt :: string
  tsCreatedAt :: string
  tsUpdatedAt :: string
  tsChildren :: "(string \<times> nat) list"
  tsDirect :: bool
  tsSecondary :: bool
  tsSiblings :: "nat list"
  tsIsSharedBase :: bool
  tsNaturalID :: string
  tsOrphanPolicy :: OrphanPolicy
  tsRevision :: string
  tsBaseLink :: "sharedBaseLink option"
  tsComposites :: "(reflectType \<times> FieldPath) list"
  tsRoleLinks :: "(nat \<times> string) list"

definition newSchema :: "string \<Rightarrow> TableSchema" where
  "newSchema table =
     \<lparr>tsTable = table, tsTyp = None, tsIdGo = [], tsIdColumn = [], tsIdIndex = None, tsParentID = [],
      tsFields = [], tsByGo = Map.empty, tsByCol = Map.empty, tsArchivedAt = [], tsCreatedAt = [],
      tsUpdatedAt = [], tsChildren = [], tsDirect = False, tsSecondary = False, tsSiblings = [],
      tsIsSharedBase = False, tsNaturalID = [], tsOrphanPolicy = KeepOrphan, tsRevision = [],
      tsBaseLink = None, tsComposites = [], tsRoleLinks = []\<rparr>"

fun isStruct :: "reflectType \<Rightarrow> bool" where
  "isStruct (TyStruct n v ms) = True"
| "isStruct TyID = True"
| "isStruct TyTime = True"
| "isStruct _ = False"

definition NewTableSchema :: "reflectType \<Rightarrow> string \<Rightarrow> schemaPanic + TableSchema" where
  "NewTableSchema T table =
     (let t = stripPointers T in
      if \<not> isStruct t then Inl (NotAStruct (goTypeName t)) else Inr ((newSchema table)\<lparr>tsTyp := Some t\<rparr>))"

definition NewSiblingSchema :: "reflectType \<Rightarrow> string \<Rightarrow> schemaPanic + TableSchema" where
  "NewSiblingSchema T table = map_sum id (\<lambda>s. s\<lparr>tsSecondary := True\<rparr>) (NewTableSchema T table)"

definition NewDirectSchema :: "reflectType \<Rightarrow> string \<Rightarrow> schemaPanic + TableSchema" where
  "NewDirectSchema T table = map_sum id (\<lambda>s. s\<lparr>tsDirect := True\<rparr>) (NewTableSchema T table)"

definition NewExternalSchema :: "string \<Rightarrow> TableSchema" where
  "NewExternalSchema table = newSchema table"

definition NewSharedBaseSchema :: "string \<Rightarrow> TableSchema" where
  "NewSharedBaseSchema table = (newSchema table)\<lparr>tsIsSharedBase := True\<rparr>"

subsection \<open>The checks of a declaration\<close>

fun firstPanic :: "schemaPanic option list \<Rightarrow> schemaPanic option" where
  "firstPanic [] = None"
| "firstPanic (None # cs) = firstPanic cs"
| "firstPanic (Some p # cs) = Some p"

lemma firstPanic_None [simp]: "firstPanic cs = None \<longleftrightarrow> (\<forall>c\<in>set cs. c = None)"
  by (induction cs rule: firstPanic.induct) auto

definition panicIf :: "bool \<Rightarrow> schemaPanic \<Rightarrow> schemaPanic option" where
  "panicIf b p = (if b then Some p else None)"

lemma panicIf_None [simp]: "panicIf b p = None \<longleftrightarrow> \<not> b"
  by (simp add: panicIf_def)

definition guarded :: "schemaPanic option list \<Rightarrow> 'a \<Rightarrow> schemaPanic + 'a" where
  "guarded cs x = (case firstPanic cs of Some p \<Rightarrow> Inl p | None \<Rightarrow> Inr x)"

lemma guarded_Inr [simp]: "guarded cs x = Inr y \<longleftrightarrow> (\<forall>c\<in>set cs. c = None) \<and> y = x"
  by (cases "firstPanic cs") (auto simp: guarded_def simp flip: firstPanic_None)

definition ensureColumnFree :: "string \<Rightarrow> string \<Rightarrow> TableSchema \<Rightarrow> schemaPanic option" where
  "ensureColumnFree column self s =
     (if column = [] then None
      else firstPanic
        [panicIf (self \<noteq> ''ID'' \<and> column = tsIdColumn s) (ColumnClaimed column ''ID'' self),
         panicIf (tsByCol s column \<noteq> None) (ColumnClaimed column ''a mapped field'' self),
         panicIf (self \<noteq> ''ArchivedAt'' \<and> column = tsArchivedAt s) (ColumnClaimed column ''ArchivedAt'' self),
         panicIf (self \<noteq> ''CreatedAt'' \<and> column = tsCreatedAt s) (ColumnClaimed column ''CreatedAt'' self),
         panicIf (self \<noteq> ''UpdatedAt'' \<and> column = tsUpdatedAt s) (ColumnClaimed column ''UpdatedAt'' self),
         panicIf (self \<noteq> ''Revision'' \<and> column = tsRevision s) (ColumnClaimed column ''Revision'' self)])"

definition mustNotRedeclare :: "string \<Rightarrow> string \<Rightarrow> string \<Rightarrow> schemaPanic option" where
  "mustNotRedeclare current name newCol = panicIf (current \<noteq> []) (DeclaredTwice name current newCol)"

definition mustNotReservedColumn :: "string \<Rightarrow> schemaPanic option" where
  "mustNotReservedColumn column = panicIf (\<exists>cs. column = CHR ''_'' # cs) (ReservedColumn column)"

lemma mustNotReservedColumn_code [code]:
  "mustNotReservedColumn column =
     panicIf (case column of [] \<Rightarrow> False | c # cs \<Rightarrow> c = CHR ''_'') (ReservedColumn column)"
  by (cases column) (auto simp: mustNotReservedColumn_def panicIf_def)

definition mustClaimNames :: "string \<Rightarrow> string \<Rightarrow> TableSchema \<Rightarrow> schemaPanic option" where
  "mustClaimNames goName column s =
     firstPanic
       [panicIf (tsByGo s goName \<noteq> None) (FieldTwice goName),
        panicIf (tsByCol s column \<noteq> None) (ColumnTwice column),
        mustNotReservedColumn column,
        panicIf (column = tsIdColumn s \<or> column = tsArchivedAt s \<or> column = tsCreatedAt s \<or>
                 column = tsUpdatedAt s \<or> column = tsRevision s) (ManagedCollision column),
        panicIf (tsParentID s \<noteq> [] \<and> column = tsParentID s) (MappedParentID column)]"

definition mustNotRedactNaturalKey :: "string \<Rightarrow> TableSchema \<Rightarrow> schemaPanic option" where
  "mustNotRedactNaturalKey column s =
     panicIf (tsNaturalID s \<noteq> [] \<and> column = tsNaturalID s) (NaturalKeyRedacted column)"

definition mustNotRedactNaturalIDColumn :: "string \<Rightarrow> TableSchema \<Rightarrow> schemaPanic option" where
  "mustNotRedactNaturalIDColumn column s =
     (case tsByCol s column of
        None \<Rightarrow> None
      | Some f \<Rightarrow> panicIf (redactorDeclared (sfInSync f) \<or> redactorDeclared (sfInAudit f)) (NaturalKeyRedacted column))"

subsection \<open>Keys and managed columns\<close>

definition requireIDField :: "TableSchema \<Rightarrow> nat option \<Rightarrow> schemaPanic option" where
  "requireIDField s idIndex =
     (case (idIndex, tsTyp s) of
        (Some i, Some t) \<Rightarrow> panicIf (memberType (members t ! i) \<noteq> TyID) (MissingIDField (tsTable s))
      | _ \<Rightarrow> Some (MissingIDField (tsTable s)))"

definition schema_ID :: "string \<Rightarrow> TableSchema \<Rightarrow> schemaPanic + TableSchema" where
  "schema_ID column s =
     (let idIndex = (case tsTyp s of None \<Rightarrow> tsIdIndex s | Some t \<Rightarrow> exportedFieldIndex t ''ID'') in
      guarded
        [panicIf (tsSecondary s) (SiblingRefuses ''ID''),
         panicIf (column = []) (EmptyColumn ''ID''),
         mustNotRedeclare (tsIdColumn s) ''ID'' column,
         mustNotReservedColumn column,
         ensureColumnFree column ''ID'' s,
         (if tsDirect s then requireIDField s idIndex else None)]
        (s\<lparr>tsIdGo := ''ID'', tsIdColumn := column, tsIdIndex := idIndex\<rparr>))"

definition schema_ParentID :: "string \<Rightarrow> TableSchema \<Rightarrow> schemaPanic + TableSchema" where
  "schema_ParentID column s =
     guarded
       [panicIf (tsSecondary s) (SiblingRefuses ''ParentID''),
        mustNotRedeclare (tsParentID s) ''ParentID'' column,
        panicIf (tsBaseLink s \<noteq> None) TwoParents,
        mustNotReservedColumn column,
        panicIf (tsByCol s column \<noteq> None) (MappedParentID column)]
       (s\<lparr>tsParentID := column\<rparr>)"

definition schema_ArchivedAt :: "string \<Rightarrow> TableSchema \<Rightarrow> schemaPanic + TableSchema" where
  "schema_ArchivedAt col s =
     guarded
       [panicIf (tsSecondary s) (SiblingRefuses ''ArchivedAt''),
        mustNotRedeclare (tsArchivedAt s) ''ArchivedAt'' col,
        mustNotReservedColumn col,
        ensureColumnFree col ''ArchivedAt'' s]
       (s\<lparr>tsArchivedAt := col\<rparr>)"

definition schema_CreatedAt :: "string \<Rightarrow> TableSchema \<Rightarrow> schemaPanic + TableSchema" where
  "schema_CreatedAt col s =
     guarded
       [panicIf (tsSecondary s) (SiblingRefuses ''CreatedAt''),
        mustNotRedeclare (tsCreatedAt s) ''CreatedAt'' col,
        mustNotReservedColumn col,
        ensureColumnFree col ''CreatedAt'' s]
       (s\<lparr>tsCreatedAt := col\<rparr>)"

definition schema_UpdatedAt :: "string \<Rightarrow> TableSchema \<Rightarrow> schemaPanic + TableSchema" where
  "schema_UpdatedAt col s =
     guarded
       [panicIf (tsSecondary s) (SiblingRefuses ''UpdatedAt''),
        mustNotRedeclare (tsUpdatedAt s) ''UpdatedAt'' col,
        mustNotReservedColumn col,
        ensureColumnFree col ''UpdatedAt'' s]
       (s\<lparr>tsUpdatedAt := col\<rparr>)"

definition Revision :: "string \<Rightarrow> TableSchema \<Rightarrow> schemaPanic + TableSchema" where
  "Revision column s =
     guarded
       [panicIf (tsSecondary s \<or> tsParentID s \<noteq> []) (SiblingRefuses ''Revision''),
        panicIf (column = []) (EmptyColumn ''Revision''),
        mustNotRedeclare (tsRevision s) ''Revision'' column,
        mustNotReservedColumn column,
        ensureColumnFree column ''Revision'' s]
       (s\<lparr>tsRevision := column\<rparr>)"

definition NaturalID :: "string \<Rightarrow> TableSchema \<Rightarrow> schemaPanic + TableSchema" where
  "NaturalID column s =
     guarded
       [panicIf (\<not> tsIsSharedBase s) (NotASharedBase ''NaturalID''),
        panicIf (column = []) (EmptyColumn ''NaturalID''),
        mustNotRedeclare (tsNaturalID s) ''NaturalID'' column,
        mustNotRedactNaturalIDColumn column s]
       (s\<lparr>tsNaturalID := column\<rparr>)"

definition setOrphanPolicy :: "OrphanPolicy \<Rightarrow> TableSchema \<Rightarrow> schemaPanic + TableSchema" where
  "setOrphanPolicy p s =
     guarded [panicIf (\<not> tsIsSharedBase s) (NotASharedBase ''OrphanPolicy'')] (s\<lparr>tsOrphanPolicy := p\<rparr>)"

subsection \<open>Fields\<close>

definition applyTyping :: "reflectType \<Rightarrow> schemaField \<Rightarrow> schemaPanic + schemaField" where
  "applyTyping ft f =
     (case valueObjectField ft of
        Some (enum, u) \<Rightarrow>
          guarded [mustSupportedFieldType (sfGo f) u] (f\<lparr>sfIsVO := True, sfIsEnum := enum, sfUnderlying := Some u\<rparr>)
      | None \<Rightarrow>
          guarded [mustSupportedFieldType (sfGo f) ft]
            (f\<lparr>sfIDKind := (if ft = TyID then IDValue else if ft = TyPtr TyID then IDPointer else sfIDKind f)\<rparr>))"

definition appendField :: "schemaField \<Rightarrow> TableSchema \<Rightarrow> TableSchema" where
  "appendField fd s =
     s\<lparr>tsFields := tsFields s @ [fd], tsByGo := (tsByGo s)(sfGo fd \<mapsto> fd), tsByCol := (tsByCol s)(sfColumn fd \<mapsto> fd)\<rparr>"

definition plainField :: "string \<Rightarrow> string \<Rightarrow> schemaField" where
  "plainField goName column =
     \<lparr>sfGo = goName, sfColumn = column, sfPath = [], sfVOType = None, sfVOField = [], sfLabelKey = [],
      sfIDKind = IDNone, sfIsVO = False, sfIsEnum = False, sfUnderlying = None, sfInSync = RedactUnset,
      sfInAudit = RedactUnset, sfStamped = False, sfStampedCounter = False\<rparr>"

record redactedFieldSpec =
  rsInSync :: Redactor
  rsInAudit :: Redactor
  rsLabelKey :: string

definition emptySpec :: redactedFieldSpec where
  "emptySpec = \<lparr>rsInSync = RedactUnset, rsInAudit = RedactUnset, rsLabelKey = []\<rparr>"

text \<open>The name checks of a declaration, and the index of the member that it names.\<close>

definition declareChecks :: "string \<Rightarrow> string \<Rightarrow> redactedFieldSpec \<Rightarrow> TableSchema \<Rightarrow> schemaPanic option list" where
  "declareChecks goName column spec s =
     [panicIf (goName = ''ID'') (ReservedGoName goName),
      panicIf (goName = ''ParentID'') (ReservedGoName goName),
      (case tsTyp s of
         None \<Rightarrow> None
       | Some t \<Rightarrow>
           (case exportedFieldIndex t goName of
              None \<Rightarrow> Some (NotAnExportedField goName)
            | Some i \<Rightarrow> mustNotCompositeField goName (memberType (members t ! i)))),
      mustClaimNames goName column s,
      (if redactorDeclared (rsInSync spec) \<or> redactorDeclared (rsInAudit spec)
       then mustNotRedactNaturalKey column s else None),
      panicIf (rsLabelKey spec \<noteq> [] \<and> tsTyp s \<noteq> None) (AnchoredLabel goName)]"

text \<open>The declared field: its path and typing from the member, its redactors fitted to the scalar.\<close>

definition typedField :: "string \<Rightarrow> string \<Rightarrow> redactedFieldSpec \<Rightarrow> TableSchema \<Rightarrow> schemaPanic + schemaField" where
  "typedField goName column spec s =
     (let fd = (plainField goName column)\<lparr>sfLabelKey := rsLabelKey spec\<rparr>;
          member = (case tsTyp s of
                      None \<Rightarrow> None
                    | Some t \<Rightarrow> map_option (\<lambda>i. (i, memberType (members t ! i))) (exportedFieldIndex t goName));
          scalar = map_option (effectiveScalar \<circ> snd) member
      in case (case member of None \<Rightarrow> Inr fd | Some (i, ft) \<Rightarrow> applyTyping ft (fd\<lparr>sfPath := [i]\<rparr>)) of
           Inl p \<Rightarrow> Inl p
         | Inr fd1 \<Rightarrow>
             (case mustFit goName ''InSync'' scalar (rsInSync spec) of
                Inl p \<Rightarrow> Inl p
              | Inr sync \<Rightarrow>
                  (case mustFit goName ''InAudit'' scalar (rsInAudit spec) of
                     Inl p \<Rightarrow> Inl p
                   | Inr audit \<Rightarrow> Inr (fd1\<lparr>sfInSync := sync, sfInAudit := audit\<rparr>))))"

definition declareField :: "string \<Rightarrow> string \<Rightarrow> redactedFieldSpec \<Rightarrow> TableSchema \<Rightarrow> schemaPanic + TableSchema" where
  "declareField goName column spec s =
     (case firstPanic (declareChecks goName column spec s) of
        Some p \<Rightarrow> Inl p
      | None \<Rightarrow> map_sum id (\<lambda>fd. appendField fd s) (typedField goName column spec s))"

definition schema_Field :: "string \<Rightarrow> string \<Rightarrow> string list \<Rightarrow> TableSchema \<Rightarrow> schemaPanic + TableSchema" where
  "schema_Field goName column labelKey s =
     (case labelKey of
        [] \<Rightarrow> declareField goName column emptySpec s
      | [lk] \<Rightarrow> declareField goName column (emptySpec\<lparr>rsLabelKey := lk\<rparr>) s
      | _ \<Rightarrow> Inl (TooManyLabels goName))"

definition RedactedField :: "string \<Rightarrow> string \<Rightarrow> redactedFieldSpec \<Rightarrow> TableSchema \<Rightarrow> schemaPanic + TableSchema" where
  "RedactedField goName column spec s =
     (if \<not> redactorDeclared (rsInSync spec) then Inl (MissingAxis goName ''InSync'')
      else if \<not> redactorDeclared (rsInAudit spec) then Inl (MissingAxis goName ''InAudit'')
      else declareField goName column spec s)"

text \<open>Marking the last declared field in the three views the schema keeps of it.\<close>

definition markLast :: "(schemaField \<Rightarrow> schemaField) \<Rightarrow> TableSchema \<Rightarrow> TableSchema" where
  "markLast f s =
     (let fd = f (last (tsFields s)) in
      s\<lparr>tsFields := butlast (tsFields s) @ [fd], tsByGo := (tsByGo s)(sfGo fd \<mapsto> fd),
        tsByCol := (tsByCol s)(sfColumn fd \<mapsto> fd)\<rparr>)"

definition mustStampedTimeType :: "string \<Rightarrow> reflectType \<Rightarrow> schemaPanic option" where
  "mustStampedTimeType goName ft = panicIf (ft \<noteq> TyPtr TyTime) (BadStampType goName ft)"

definition mustStampedCounterType :: "string \<Rightarrow> reflectType \<Rightarrow> schemaPanic option" where
  "mustStampedCounterType goName ft = panicIf (ft \<noteq> TyInt64 \<and> ft \<noteq> TyPtr TyInt64) (BadStampType goName ft)"

definition stampedField ::
  "string \<Rightarrow> (reflectType \<Rightarrow> schemaPanic option) \<Rightarrow> (schemaField \<Rightarrow> schemaField) \<Rightarrow> string \<Rightarrow> string \<Rightarrow>
   TableSchema \<Rightarrow> schemaPanic + TableSchema" where
  "stampedField verb mustType mark goName column s =
     (if tsSecondary s then Inl (SiblingRefuses verb)
      else if tsTyp s = None \<and> \<not> tsIsSharedBase s then Inl (ExternalRefuses verb)
      else case declareField goName column emptySpec s of
             Inl p \<Rightarrow> Inl p
           | Inr s1 \<Rightarrow>
               guarded
                 [(case tsTyp s1 of
                     None \<Rightarrow> None
                   | Some t \<Rightarrow> mustType (memberType (members t ! (sfPath (last (tsFields s1)) ! 0))))]
                 (markLast mark s1))"

definition StampedTimeField :: "string \<Rightarrow> string \<Rightarrow> TableSchema \<Rightarrow> schemaPanic + TableSchema" where
  "StampedTimeField goName column s =
     stampedField ''StampedTimeField'' (mustStampedTimeType goName) (\<lambda>fd. fd\<lparr>sfStamped := True\<rparr>) goName column s"

definition StampedCounterField :: "string \<Rightarrow> string \<Rightarrow> TableSchema \<Rightarrow> schemaPanic + TableSchema" where
  "StampedCounterField goName column s =
     stampedField ''StampedCounterField'' (mustStampedCounterType goName)
       (\<lambda>fd. fd\<lparr>sfStamped := True, sfStampedCounter := True\<rparr>) goName column s"

subsection \<open>Composite value objects\<close>

record compositePart =
  cpVOField :: string
  cpColumn :: string
  cpExposed :: string
  cpInSync :: Redactor
  cpInAudit :: Redactor

record CompositeValueObject =
  cvType :: reflectType
  cvParts :: "compositePart list"

definition NewCompositeValueObject :: "reflectType \<Rightarrow> schemaPanic + CompositeValueObject" where
  "NewCompositeValueObject VO =
     (let t = stripPointers VO in guarded [mustBeCompositeValueObject t] \<lparr>cvType = t, cvParts = []\<rparr>)"

definition declarePart :: "string \<Rightarrow> string \<Rightarrow> redactedFieldSpec \<Rightarrow> CompositeValueObject \<Rightarrow> schemaPanic + CompositeValueObject" where
  "declarePart goName column spec c =
     (case exportedFieldIndex (cvType c) goName of
        None \<Rightarrow> Inl (NotAnExportedField goName)
      | Some i \<Rightarrow>
          (case find (\<lambda>p. cpVOField p = goName \<or> cpColumn p = column) (cvParts c) of
             Some p \<Rightarrow> Inl (if cpVOField p = goName then FieldTwice goName else ColumnTwice column)
           | None \<Rightarrow>
               let scalar = Some (effectiveScalar (memberType (members (cvType c) ! i))) in
               (case mustFit goName ''InSync'' scalar (rsInSync spec) of
                  Inl p \<Rightarrow> Inl p
                | Inr sync \<Rightarrow>
                    (case mustFit goName ''InAudit'' scalar (rsInAudit spec) of
                       Inl p \<Rightarrow> Inl p
                     | Inr audit \<Rightarrow>
                         Inr (c\<lparr>cvParts := cvParts c @ [\<lparr>cpVOField = goName, cpColumn = column, cpExposed = goName,
                                 cpInSync = sync, cpInAudit = audit\<rparr>]\<rparr>)))))"

definition composite_Field :: "string \<Rightarrow> string \<Rightarrow> CompositeValueObject \<Rightarrow> schemaPanic + CompositeValueObject" where
  "composite_Field goName column c = declarePart goName column emptySpec c"

definition composite_RedactedField ::
  "string \<Rightarrow> string \<Rightarrow> redactedFieldSpec \<Rightarrow> CompositeValueObject \<Rightarrow> schemaPanic + CompositeValueObject" where
  "composite_RedactedField goName column spec c =
     (if rsLabelKey spec \<noteq> [] then Inl (AnchoredLabel goName)
      else if \<not> redactorDeclared (rsInSync spec) then Inl (MissingAxis goName ''InSync'')
      else if \<not> redactorDeclared (rsInAudit spec) then Inl (MissingAxis goName ''InAudit'')
      else declarePart goName column spec c)"

definition composite_As :: "string \<Rightarrow> CompositeValueObject \<Rightarrow> schemaPanic + CompositeValueObject" where
  "composite_As exposedName c =
     guarded
       [panicIf (cvParts c = []) (BadComposite ''As does not follow a Field''),
        panicIf (exposedName = []) (BadComposite ''an alias needs a name''),
        panicIf (\<exists>p\<in>set (butlast (cvParts c)). cpExposed p = exposedName) (FieldTwice exposedName)]
       (c\<lparr>cvParts := butlast (cvParts c) @ [(last (cvParts c))\<lparr>cpExposed := exposedName\<rparr>]\<rparr>)"

text \<open>The first exported member of the type, or of a pointer to it, and whether there is a second.\<close>

definition locateCompositeField :: "reflectType \<Rightarrow> reflectType \<Rightarrow> nat option \<times> bool" where
  "locateCompositeField t voType =
     (let hits = filter (\<lambda>i. let m = members t ! i in memberExported m \<and> \<not> memberEmbedded m \<and>
                              (memberType m = voType \<or> memberType m = TyPtr voType)) [0..<length (members t)]
      in (case hits of [] \<Rightarrow> (None, False) | [i] \<Rightarrow> (Some i, False) | i # _ \<Rightarrow> (Some i, True)))"

definition attachPart :: "reflectType \<Rightarrow> FieldPath \<Rightarrow> compositePart \<Rightarrow> TableSchema \<Rightarrow> schemaPanic + TableSchema" where
  "attachPart voType prefix p s =
     (case mustClaimNames (cpExposed p) (cpColumn p) s of
        Some q \<Rightarrow> Inl q
      | None \<Rightarrow>
          let i = the (exportedFieldIndex voType (cpVOField p));
              fd = (plainField (cpExposed p) (cpColumn p))\<lparr>sfVOType := Some voType, sfVOField := cpVOField p,
                     sfInSync := cpInSync p, sfInAudit := cpInAudit p, sfPath := (if prefix = [] then [] else prefix @ [i])\<rparr>
          in map_sum id (\<lambda>fd1. appendField fd1 s) (applyTyping (memberType (members voType ! i)) fd))"

fun attachParts :: "reflectType \<Rightarrow> FieldPath \<Rightarrow> compositePart list \<Rightarrow> TableSchema \<Rightarrow> schemaPanic + TableSchema" where
  "attachParts voType prefix [] s = Inr s"
| "attachParts voType prefix (p # ps) s =
     (case attachPart voType prefix p s of Inl q \<Rightarrow> Inl q | Inr s1 \<Rightarrow> attachParts voType prefix ps s1)"

definition Composite :: "CompositeValueObject \<Rightarrow> TableSchema \<Rightarrow> schemaPanic + TableSchema" where
  "Composite c s =
     (case firstPanic
        [panicIf (cvParts c = []) (BadComposite ''declares no Field''),
         panicIf (tsTyp s = None \<and> \<not> tsIsSharedBase s) (ExternalRefuses ''Composite''),
         panicIf (\<exists>d\<in>set (tsComposites s). fst d = cvType c) (BadComposite ''is decomposed twice on this schema''),
         (case tsTyp s of
            None \<Rightarrow> None
          | Some t \<Rightarrow>
              (case locateCompositeField t (cvType c) of
                 (_, True) \<Rightarrow> Some (BadComposite ''more than one field of the type'')
               | (None, False) \<Rightarrow> Some (BadComposite ''no exported field of the type'')
               | _ \<Rightarrow> None))] of
        Some p \<Rightarrow> Inl p
      | None \<Rightarrow>
          let prefix = (case tsTyp s of
                          None \<Rightarrow> []
                        | Some t \<Rightarrow> (case fst (locateCompositeField t (cvType c)) of None \<Rightarrow> [] | Some i \<Rightarrow> [i]))
          in map_sum id (\<lambda>s1. s1\<lparr>tsComposites := tsComposites s1 @ [(cvType c, prefix)]\<rparr>)
               (attachParts (cvType c) prefix (cvParts c) s))"

subsection \<open>What a schema answers\<close>

definition hasPKDeclared :: "TableSchema \<Rightarrow> bool" where
  "hasPKDeclared s \<longleftrightarrow> tsIdColumn s \<noteq> []"

definition IDKindOf :: "TableSchema \<Rightarrow> string \<Rightarrow> IDKind" where
  "IDKindOf s goField =
     (if goField = ''ID'' then IDValue
      else case tsByGo s goField of None \<Rightarrow> IDNone | Some f \<Rightarrow> sfIDKind f)"

definition ColumnOf :: "TableSchema \<Rightarrow> string \<Rightarrow> string option" where
  "ColumnOf s goName = (if goName = tsIdGo s then Some (tsIdColumn s) else map_option sfColumn (tsByGo s goName))"

definition GoOf :: "TableSchema \<Rightarrow> string \<Rightarrow> string option" where
  "GoOf s column = (if column = tsIdColumn s then Some (tsIdGo s) else map_option sfGo (tsByCol s column))"

definition WireFieldOf :: "TableSchema \<Rightarrow> string \<Rightarrow> string" where
  "WireFieldOf s column =
     (case GoOf s column of Some g \<Rightarrow> if g \<noteq> [] then WireFieldPath g else column | None \<Rightarrow> column)"

text \<open>Whether a field can hold an absence; None when there is no struct to ask.\<close>

definition fieldIsNullable :: "TableSchema \<Rightarrow> string \<Rightarrow> bool option" where
  "fieldIsNullable s goField =
     (case tsTyp s of
        None \<Rightarrow> None
      | Some t \<Rightarrow>
          if goField = tsIdGo s then Some (IDKindOf s goField = IDPointer)
          else case tsByGo s goField of
            None \<Rightarrow> None
          | Some f \<Rightarrow> map_option (\<lambda>ft. case ft of TyPtr u \<Rightarrow> True | _ \<Rightarrow> False) (TypeIn (sfPath f) t))"

definition insertNowColumns :: "TableSchema \<Rightarrow> string list" where
  "insertNowColumns s =
     (if tsCreatedAt s \<noteq> [] then [tsCreatedAt s] else []) @ (if tsUpdatedAt s \<noteq> [] then [tsUpdatedAt s] else [])"

definition updateNowColumns :: "TableSchema \<Rightarrow> string list" where
  "updateNowColumns s = (if tsUpdatedAt s \<noteq> [] then [tsUpdatedAt s] else [])"

text \<open>
  The map from columns, or from Go names, to the values of the entity that both copies of a row
  start from: a part of an absent optional composite is nil, a value object is its scalar.
\<close>

fun fieldEntries :: "(schemaField \<Rightarrow> string) \<Rightarrow> goVal \<Rightarrow> schemaField list \<Rightarrow> (string \<rightharpoonup> goVal) \<Rightarrow> (string \<rightharpoonup> goVal)" where
  "fieldEntries key v [] out = out"
| "fieldEntries key v (f # fs) out =
     fieldEntries key v fs
       (case ValueIn (sfPath f) v of
          Some fv \<Rightarrow> out(key f \<mapsto> unwrapVO fv)
        | None \<Rightarrow> if sfPath f \<noteq> [] then out(key f \<mapsto> GNil) else out)"

definition writeFields :: "TableSchema \<Rightarrow> goVal \<Rightarrow> (string \<rightharpoonup> goVal)" where
  "writeFields s e = fieldEntries sfColumn (derefValue e) (filter (\<lambda>f. \<not> sfStamped f) (tsFields s)) Map.empty"

definition GoFieldValues :: "TableSchema \<Rightarrow> goVal \<Rightarrow> (string \<rightharpoonup> goVal)" where
  "GoFieldValues s e =
     (case derefValue e of
        GStruct vs \<Rightarrow> fieldEntries sfGo (GStruct vs) (tsFields s) Map.empty
      | _ \<Rightarrow> Map.empty)"

definition ScanPlan :: "TableSchema \<Rightarrow> (string \<times> FieldPath) list" where
  "ScanPlan s =
     (case tsIdIndex s of None \<Rightarrow> [] | Some i \<Rightarrow> [(tsIdColumn s, [i])]) @
     map (\<lambda>f. (sfColumn f, sfPath f)) (filter (\<lambda>f. sfPath f \<noteq> []) (tsFields s))"

text \<open>Every column of the table once, in order of first mention.\<close>

definition addColumn :: "string \<Rightarrow> string list \<Rightarrow> string list" where
  "addColumn c cols = (if c \<noteq> [] \<and> c \<notin> set cols then cols @ [c] else cols)"

definition ReadColumns :: "TableSchema \<Rightarrow> string list" where
  "ReadColumns s =
     fold addColumn
       ([tsIdColumn s] @ map sfColumn (tsFields s) @
        (case tsBaseLink s of None \<Rightarrow> [] | Some l \<Rightarrow> [slParentID l]) @
        [tsParentID s, tsCreatedAt s, tsUpdatedAt s, tsArchivedAt s, tsRevision s]) []"

subsection \<open>Stamp requests\<close>

definition StampedFieldAcceptsNull :: "TableSchema \<Rightarrow> string \<Rightarrow> bool" where
  "StampedFieldAcceptsNull s goName =
     (case tsByGo s goName of
        None \<Rightarrow> False
      | Some f \<Rightarrow>
          sfStamped f \<and>
          (\<not> sfStampedCounter f \<or>
           (case tsTyp s of
              None \<Rightarrow> True
            | Some t \<Rightarrow> memberType (members t ! (sfPath f ! 0)) = TyPtr TyInt64)))"

definition StampedCounterColumns :: "TableSchema \<Rightarrow> string list \<Rightarrow> string list \<times> string list" where
  "StampedCounterColumns s cols =
     (let counter = (\<lambda>c. case tsByCol s c of None \<Rightarrow> False | Some f \<Rightarrow> sfStampedCounter f)
      in (filter (\<lambda>c. \<not> counter c) cols, filter counter cols))"

text \<open>
  The fields in declaration order take what they were asked for out of the requests; what is left
  is reported once each, in the order of the requests.
\<close>

fun claimColumns :: "schemaField list \<Rightarrow> string set \<Rightarrow> string list \<times> string set" where
  "claimColumns [] want = ([], want)"
| "claimColumns (f # fs) want =
     (if sfStamped f \<and> sfGo f \<in> want
      then apfst (Cons (sfColumn f)) (claimColumns fs (want - {sfGo f}))
      else claimColumns fs want)"

fun leftovers :: "string list \<Rightarrow> string set \<Rightarrow> string list" where
  "leftovers [] want = []"
| "leftovers (g # gs) want = (if g \<in> want then g # leftovers gs (want - {g}) else leftovers gs want)"

definition ClaimStampColumns :: "TableSchema \<Rightarrow> string list \<Rightarrow> string list \<times> string list" where
  "ClaimStampColumns s goFields =
     (let (cols, want) = claimColumns (tsFields s) (set goFields) in (cols, leftovers goFields want))"

datatype stampError = NullOnCounter string | PlainField string | UnknownStamp string

definition RefuseUnclaimedStamps :: "TableSchema \<Rightarrow> string list \<Rightarrow> stampError option" where
  "RefuseUnclaimedStamps s goFields =
     (case goFields of
        [] \<Rightarrow> None
      | g # _ \<Rightarrow> Some (if tsByGo s g \<noteq> None then PlainField g else UnknownStamp g))"

definition StampColumns :: "TableSchema \<Rightarrow> string list \<Rightarrow> stampError + string list" where
  "StampColumns s goFields =
     (let (cols, unclaimed) = ClaimStampColumns s goFields in
      case RefuseUnclaimedStamps s unclaimed of Some e \<Rightarrow> Inl e | None \<Rightarrow> Inr cols)"

record ClaimedStamp =
  csColumn :: string
  csOp :: StampOp
  csCounter :: bool

fun wantedOps :: "StampRequest list \<Rightarrow> (string \<rightharpoonup> StampOp) \<Rightarrow> (string \<rightharpoonup> StampOp)" where
  "wantedOps [] want = want"
| "wantedOps (r # rs) want = wantedOps rs (want(Field r \<mapsto> Op r))"

fun claimRequests ::
  "TableSchema \<Rightarrow> schemaField list \<Rightarrow> (string \<rightharpoonup> StampOp) \<Rightarrow> stampError + ClaimedStamp list \<times> (string \<rightharpoonup> StampOp)" where
  "claimRequests s [] want = Inr ([], want)"
| "claimRequests s (f # fs) want =
     (case want (sfGo f) of
        None \<Rightarrow> claimRequests s fs want
      | Some op \<Rightarrow>
          if \<not> sfStamped f then claimRequests s fs want
          else if op = StampToNull \<and> \<not> StampedFieldAcceptsNull s (sfGo f) then Inl (NullOnCounter (sfGo f))
          else map_sum id (apfst (Cons \<lparr>csColumn = sfColumn f, csOp = op, csCounter = sfStampedCounter f\<rparr>))
                 (claimRequests s fs (want(sfGo f := None))))"

fun leftRequests :: "StampRequest list \<Rightarrow> (string \<rightharpoonup> StampOp) \<Rightarrow> string list" where
  "leftRequests [] want = []"
| "leftRequests (r # rs) want =
     (if want (Field r) \<noteq> None then Field r # leftRequests rs (want(Field r := None)) else leftRequests rs want)"

definition ClaimStampRequests ::
  "TableSchema \<Rightarrow> StampRequest list \<Rightarrow> stampError + ClaimedStamp list \<times> string list" where
  "ClaimStampRequests s reqs =
     (case claimRequests s (tsFields s) (wantedOps reqs Map.empty) of
        Inl e \<Rightarrow> Inl e
      | Inr (claimed, want) \<Rightarrow> Inr (claimed, leftRequests reqs want))"

definition StampRequestColumns :: "TableSchema \<Rightarrow> StampRequest list \<Rightarrow> stampError + ClaimedStamp list" where
  "StampRequestColumns s reqs =
     (case ClaimStampRequests s reqs of
        Inl e \<Rightarrow> Inl e
      | Inr (claimed, unclaimed) \<Rightarrow>
          (case RefuseUnclaimedStamps s unclaimed of Some e \<Rightarrow> Inl e | None \<Rightarrow> Inr claimed))"

text \<open>
  Writing back onto the entity. \<open>T\<close> is the struct type of the entity: a shared base finds the field
  on it by name, any other schema by the path, which for a stamped field has one step.
\<close>

definition zeroInstant :: int where
  "zeroInstant = - 62135596800000000000"

definition applyStampTo :: "reflectType \<Rightarrow> StampOp \<Rightarrow> int \<Rightarrow> goVal \<Rightarrow> goVal" where
  "applyStampTo ft op now v =
     (if ft = TyPtr TyTime then
        (case op of
           StampToNull \<Rightarrow> GNil
         | StampToEmpty \<Rightarrow> GPtr (GTime zeroInstant)
         | StampFill \<Rightarrow> GPtr (GTime now))
      else if ft = TyInt64 then (if op = StampToEmpty then GNum TyInt64 0 else v)
      else if ft = TyPtr TyInt64 then
        (case op of
           StampToNull \<Rightarrow> GNil
         | StampToEmpty \<Rightarrow> GPtr (GNum TyInt64 0)
         | StampFill \<Rightarrow> v)
      else v)"

definition stampTargetIn :: "TableSchema \<Rightarrow> reflectType \<Rightarrow> schemaField \<Rightarrow> nat option" where
  "stampTargetIn s T f =
     (if tsIsSharedBase s then exportedFieldIndex T (sfGo f)
      else case sfPath f of [i] \<Rightarrow> if i < length (members T) then Some i else None | _ \<Rightarrow> None)"

fun applyStamps :: "TableSchema \<Rightarrow> reflectType \<Rightarrow> int \<Rightarrow> StampRequest list \<Rightarrow> goVal list \<Rightarrow> goVal list" where
  "applyStamps s T now [] vs = vs"
| "applyStamps s T now (r # rs) vs =
     applyStamps s T now rs
       (case tsByGo s (Field r) of
          None \<Rightarrow> vs
        | Some f \<Rightarrow>
            if \<not> sfStamped f then vs
            else case stampTargetIn s T f of
                   None \<Rightarrow> vs
                 | Some i \<Rightarrow> vs[i := applyStampTo (memberType (members T ! i)) (Op r) now (vs ! i)])"

definition ApplyStamps :: "TableSchema \<Rightarrow> reflectType \<Rightarrow> goVal \<Rightarrow> StampRequest list \<Rightarrow> int \<Rightarrow> goVal" where
  "ApplyStamps s T e reqs now =
     (case e of GPtr (GStruct vs) \<Rightarrow> GPtr (GStruct (applyStamps s T now reqs vs)) | _ \<Rightarrow> e)"

definition IsStampedField :: "TableSchema \<Rightarrow> string \<Rightarrow> bool" where
  "IsStampedField s goName = (case tsByGo s goName of None \<Rightarrow> False | Some f \<Rightarrow> sfStamped f)"

subsection \<open>The walks of the redactors\<close>

definition HasRedactions :: "TableSchema \<Rightarrow> bool" where
  "HasRedactions s \<longleftrightarrow> (\<exists>f\<in>set (tsFields s). redactorActive (sfInSync f) \<or> redactorActive (sfInAudit f))"

text \<open>One redactor over its key of the map; the map keeps its other keys.\<close>

definition redactKey ::
  "(goVal \<Rightarrow> string) \<Rightarrow> Redactor \<Rightarrow> string \<Rightarrow> (string \<rightharpoonup> goVal) \<Rightarrow> schemaPanic + (string \<rightharpoonup> goVal)" where
  "redactKey sprint r k m =
     (if \<not> redactorActive r then Inr m
      else case m k of
        None \<Rightarrow> Inr m
      | Some v \<Rightarrow> map_sum id (\<lambda>x. m(k \<mapsto> x)) (redactor_Apply sprint r v))"

fun redactKeys ::
  "(goVal \<Rightarrow> string) \<Rightarrow> (Redactor \<times> string) list \<Rightarrow> (string \<rightharpoonup> goVal) \<Rightarrow> schemaPanic + (string \<rightharpoonup> goVal)" where
  "redactKeys sprint [] m = Inr m"
| "redactKeys sprint ((r, k) # rks) m =
     (case redactKey sprint r k m of Inl p \<Rightarrow> Inl p | Inr m1 \<Rightarrow> redactKeys sprint rks m1)"

definition RedactSyncColumns ::
  "(goVal \<Rightarrow> string) \<Rightarrow> TableSchema \<Rightarrow> (string \<rightharpoonup> goVal) \<Rightarrow> schemaPanic + (string \<rightharpoonup> goVal)" where
  "RedactSyncColumns sprint s m = redactKeys sprint (map (\<lambda>f. (sfInSync f, sfColumn f)) (tsFields s)) m"

definition RedactAuditValues ::
  "(goVal \<Rightarrow> string) \<Rightarrow> TableSchema \<Rightarrow> (string \<rightharpoonup> goVal) \<Rightarrow> schemaPanic + (string \<rightharpoonup> goVal)" where
  "RedactAuditValues sprint s m = redactKeys sprint (map (\<lambda>f. (sfInAudit f, sfGo f)) (tsFields s)) m"

definition AuditRedactorFor :: "TableSchema \<Rightarrow> string \<Rightarrow> Redactor option" where
  "AuditRedactorFor s goName =
     (case tsByGo s goName of
        None \<Rightarrow> None
      | Some f \<Rightarrow> if redactorActive (sfInAudit f) then Some (sfInAudit f) else None)"

end
