(* ===== verification/Schema_Graph.thy ===== *)
theory Schema_Graph
  imports Table_Schema
begin

text \<open>
  Model of how schemas refer to each other in \<^verbatim>\<open>src/infra/db/core\<close>: the vertical declarations of
  \<^verbatim>\<open>table_schema.go\<close> and \<^verbatim>\<open>shared_base.go\<close>, the resolution of names across an entity, its siblings and
  its shared base, and the checks at boot (\<^verbatim>\<open>shared_base_children.go\<close> included).

  A \<^verbatim>\<open>*TableSchema\<close> is an address of the store, an index of the list of schemas. Go's map of children
  has no order; the list keeps the order of the declarations.
\<close>

type_synonym schemaStore = "TableSchema list"

text \<open>A declaration on the schema at an address.\<close>

definition declareAt ::
  "nat \<Rightarrow> (TableSchema \<Rightarrow> schemaPanic + TableSchema) \<Rightarrow> schemaStore \<Rightarrow> schemaPanic + schemaStore" where
  "declareAt a d st = map_sum id (\<lambda>s. st[a := s]) (d (st ! a))"

definition typeName :: "TableSchema \<Rightarrow> string" where
  "typeName s = (case tsTyp s of None \<Rightarrow> [] | Some t \<Rightarrow> goTypeName t)"

definition refuseVertical :: "string \<Rightarrow> TableSchema \<Rightarrow> schemaPanic option" where
  "refuseVertical verb s = panicIf (tsDirect s) (VerticalOnDirect verb)"

subsection \<open>Children and siblings\<close>

definition childChecks :: "'v avoEnv \<Rightarrow> schemaStore \<Rightarrow> TableSchema \<Rightarrow> TableSchema \<Rightarrow> schemaPanic option list" where
  "childChecks env st s child =
     [panicIf (tsTyp child = None) (BadChild ''requires a type-anchored schema''),
      panicIf (tsSecondary child) (BadChild ''got a sibling''),
      panicIf (tsRevision child \<noteq> []) (BadChild ''declares Revision''),
      panicIf (\<not> hasPKDeclared child) (BadChild ''declares no primary key''),
      panicIf (tsParentID child = []) (BadChild ''declares no foreign key''),
      panicIf (tsBaseLink child \<noteq> None) (BadChild ''references a SharedBase''),
      panicIf (tsIsSharedBase s \<and> tsChildren child \<noteq> []) (BadChild ''no grandchildren''),
      panicIf (tsIsSharedBase s \<and> tsSiblings child \<noteq> []) (BadChild ''declares a Sibling''),
      panicIf (map_of (tsChildren s) (typeName child) \<noteq> None) (BadChild ''already declared''),
      (case CollectionSegmentOf env (typeName child) of
         Inl msg \<Rightarrow> Some (BadCollectionName msg)
       | Inr segment \<Rightarrow>
           panicIf (\<exists>(_, c)\<in>set (tsChildren s). CollectionSegmentOf env (typeName (st ! c)) = Inr segment)
             (BadCollectionName segment))]"

definition Child :: "'v avoEnv \<Rightarrow> nat \<Rightarrow> nat option \<Rightarrow> schemaStore \<Rightarrow> schemaPanic + schemaStore" where
  "Child env a child st =
     (let s = st ! a in
      case firstPanic [refuseVertical ''Child'' s, panicIf (tsSecondary s) (SiblingRefuses ''Child'')] of
        Some p \<Rightarrow> Inl p
      | None \<Rightarrow>
          (case child of
             None \<Rightarrow> Inl (BadChild ''requires a type-anchored schema'')
           | Some c \<Rightarrow>
               guarded (childChecks env st s (st ! c))
                 (st[a := s\<lparr>tsChildren := tsChildren s @ [(typeName (st ! c), c)]\<rparr>])))"

definition siblingChecks :: "schemaStore \<Rightarrow> TableSchema \<Rightarrow> TableSchema \<Rightarrow> schemaPanic option list" where
  "siblingChecks st s sib =
     [panicIf (tsTyp sib = None) (BadSibling ''requires a type-anchored schema''),
      panicIf (\<not> tsSecondary sib) (BadSibling ''got a non-sibling schema''),
      panicIf (tsTyp sib \<noteq> tsTyp s) (BadSibling ''is over another type''),
      panicIf (tsParentID sib \<noteq> []) (BadSibling ''must not declare ParentID''),
      panicIf (hasPKDeclared sib) (BadSibling ''must not declare ID''),
      panicIf (tsArchivedAt sib \<noteq> []) (BadSibling ''must not declare ArchivedAt''),
      panicIf (tsCreatedAt sib \<noteq> [] \<or> tsUpdatedAt sib \<noteq> []) (BadSibling ''must not declare CreatedAt/UpdatedAt''),
      panicIf (tsChildren sib \<noteq> []) (BadSibling ''must not declare Child''),
      panicIf (tsSiblings sib \<noteq> []) (BadSibling ''must not itself declare siblings''),
      panicIf (tsFields sib = []) (BadSibling ''declares no fields''),
      panicIf (tsTable sib = tsTable s) (BadSibling ''duplicates the owner table''),
      panicIf (\<exists>e\<in>set (tsSiblings s). tsTable (st ! e) = tsTable sib) (BadSibling ''declared twice'')]"

definition Sibling :: "nat \<Rightarrow> nat option \<Rightarrow> schemaStore \<Rightarrow> schemaPanic + schemaStore" where
  "Sibling a sib st =
     (let s = st ! a in
      case firstPanic
        [refuseVertical ''Sibling'' s,
         panicIf (tsSecondary s) (SiblingRefuses ''Sibling''),
         panicIf (tsIsSharedBase s) (BadSibling ''a shared base declares no Sibling'')] of
        Some p \<Rightarrow> Inl p
      | None \<Rightarrow>
          (case sib of
             None \<Rightarrow> Inl (BadSibling ''requires a type-anchored schema'')
           | Some b \<Rightarrow>
               guarded (siblingChecks st s (st ! b)) (st[a := s\<lparr>tsSiblings := tsSiblings s @ [b]\<rparr>])))"

subsection \<open>Shared bases\<close>

text \<open>A column of the base on the type of the role: by name, or by the value object it is a part of.\<close>

definition resolveBaseFieldPath :: "reflectType \<Rightarrow> schemaField \<Rightarrow> schemaPanic + FieldPath" where
  "resolveBaseFieldPath t f =
     (case sfVOType f of
        None \<Rightarrow>
          (case exportedFieldIndex t (sfGo f) of None \<Rightarrow> Inl (NotAnExportedField (sfGo f)) | Some i \<Rightarrow> Inr [i])
      | Some vo \<Rightarrow>
          (case locateCompositeField t vo of
             (_, True) \<Rightarrow> Inl (BadComposite ''more than one field of the type'')
           | (None, False) \<Rightarrow> Inl (BadComposite ''no exported field of the type'')
           | (Some voIdx, False) \<Rightarrow>
               (case exportedFieldIndex vo (sfVOField f) of
                  None \<Rightarrow> Inl (NotAnExportedField (sfVOField f))
                | Some partIdx \<Rightarrow> Inr [voIdx, partIdx])))"

definition baseFieldType :: "schemaField \<Rightarrow> reflectType \<Rightarrow> schemaPanic option" where
  "baseFieldType f ft =
     (if sfStampedCounter f then mustStampedCounterType (sfGo f) ft
      else if sfStamped f then mustStampedTimeType (sfGo f) ft
      else mustSupportedFieldType (sfGo f) (case valueObjectField ft of Some (_, u) \<Rightarrow> u | None \<Rightarrow> ft))"

fun baseScan :: "reflectType \<Rightarrow> schemaField list \<Rightarrow> schemaPanic + (string \<times> FieldPath) list" where
  "baseScan t [] = Inr []"
| "baseScan t (f # fs) =
     (case resolveBaseFieldPath t f of
        Inl p \<Rightarrow> Inl p
      | Inr path \<Rightarrow>
          (case TypeIn path t of
             None \<Rightarrow> Inl (UnsupportedType (sfGo f) (TyOther ''nil''))
           | Some ft \<Rightarrow>
               (case baseFieldType f ft of
                  Some p \<Rightarrow> Inl p
                | None \<Rightarrow> map_sum id (Cons (sfColumn f, path)) (baseScan t fs))))"

definition baseChecks :: "TableSchema \<Rightarrow> TableSchema \<Rightarrow> string \<Rightarrow> schemaPanic option list" where
  "baseChecks s base column =
     [panicIf (\<not> tsIsSharedBase base) (BadSharedBase ''got a non-shared-base schema''),
      panicIf (tsBaseLink s \<noteq> None) (BadSharedBase ''at most ONE shared base''),
      panicIf (column = []) (EmptyColumn ''SharedBase''),
      panicIf (\<not> hasPKDeclared base) (BadSharedBase ''declares no ID''),
      panicIf (tsNaturalID base = []) (BadSharedBase ''declares no NaturalID''),
      panicIf (tsByCol base (tsNaturalID base) = None) (BadSharedBase ''NaturalID is not a declared field''),
      panicIf (tsRevision base = []) (BadSharedBase ''declares no Revision''),
      panicIf (tsFields base = []) (BadSharedBase ''declares no fields''),
      panicIf (tsByCol s column \<noteq> None) (MappedParentID column)]"

text \<open>The link is stored on the role, and the role is registered on the base.\<close>

definition SharedBase :: "nat \<Rightarrow> nat option \<Rightarrow> string \<Rightarrow> schemaStore \<Rightarrow> schemaPanic + schemaStore" where
  "SharedBase a base column st =
     (let s = st ! a in
      case firstPanic
        [refuseVertical ''SharedBase'' s,
         panicIf (tsSecondary s \<or> tsIsSharedBase s) (BadSharedBase ''only a root/role schema''),
         panicIf (tsParentID s \<noteq> []) TwoParents] of
        Some p \<Rightarrow> Inl p
      | None \<Rightarrow>
          (case base of
             None \<Rightarrow> Inl (BadSharedBase ''got a non-shared-base schema'')
           | Some b \<Rightarrow>
               (case firstPanic (baseChecks s (st ! b) column) of
                  Some p \<Rightarrow> Inl p
                | None \<Rightarrow>
                    map_sum id
                      (\<lambda>scan. (st[a := s\<lparr>tsBaseLink := Some \<lparr>slBase = b, slParentID = column,
                                          slScanCols = map fst scan, slScanByCol = scan\<rparr>\<rparr>])
                               [b := (st ! b)\<lparr>tsRoleLinks := tsRoleLinks (st ! b) @ [(a, column)]\<rparr>])
                      (case tsTyp s of None \<Rightarrow> Inr [] | Some t \<Rightarrow> baseScan t (tsFields (st ! b))))))"

text \<open>The roles of a base with their archive columns, read when asked for.\<close>

definition ReferencingRoles :: "schemaStore \<Rightarrow> nat \<Rightarrow> (string \<times> string \<times> string) list" where
  "ReferencingRoles st b =
     map (\<lambda>(a, col). (tsTable (st ! a), col, tsArchivedAt (st ! a))) (tsRoleLinks (st ! b))"

subsection \<open>Names across the tables of an entity\<close>

datatype FieldOwner = OwnerAnchor | OwnerSibling | OwnerSharedBase | OwnerJoin

record ResolvedField =
  rfColumn :: string
  rfSchema :: nat
  rfOwner :: FieldOwner
  rfQualifier :: string

text \<open>The managed slots under their fixed names, and the foreign key.\<close>

definition managedColumn :: "TableSchema \<Rightarrow> string \<Rightarrow> string option" where
  "managedColumn s goName =
     (let slot = (\<lambda>c. if c \<noteq> [] then Some c else None) in
      if goName = ''CreatedAt'' then slot (tsCreatedAt s)
      else if goName = ''UpdatedAt'' then slot (tsUpdatedAt s)
      else if goName = ''ArchivedAt'' then slot (tsArchivedAt s)
      else if goName = ''ParentID'' then
        (if tsParentID s \<noteq> [] then Some (tsParentID s)
         else case tsBaseLink s of None \<Rightarrow> None | Some l \<Rightarrow> slot (slParentID l))
      else None)"

fun firstSome :: "('a \<Rightarrow> 'b option) \<Rightarrow> 'a list \<Rightarrow> 'b option" where
  "firstSome f [] = None"
| "firstSome f (x # xs) = (case f x of Some y \<Rightarrow> Some y | None \<Rightarrow> firstSome f xs)"

definition Resolve :: "schemaStore \<Rightarrow> nat \<Rightarrow> string \<Rightarrow> ResolvedField option" where
  "Resolve st a goName =
     (let s = st ! a;
          found = (\<lambda>sc own c. \<lparr>rfColumn = c, rfSchema = sc, rfOwner = own, rfQualifier = []\<rparr>) in
      case ColumnOf s goName of
        Some c \<Rightarrow> Some (found a OwnerAnchor c)
      | None \<Rightarrow>
          (case managedColumn s goName of
             Some c \<Rightarrow> Some (found a OwnerAnchor c)
           | None \<Rightarrow>
               (case firstSome (\<lambda>b. map_option (found b OwnerSibling) (ColumnOf (st ! b) goName)) (tsSiblings s) of
                  Some r \<Rightarrow> Some r
                | None \<Rightarrow>
                    (case tsBaseLink s of
                       None \<Rightarrow> None
                     | Some l \<Rightarrow> map_option (found (slBase l) OwnerSharedBase) (ColumnOf (st ! slBase l) goName)))))"

definition managedName :: "TableSchema \<Rightarrow> string \<Rightarrow> string option" where
  "managedName s column =
     (if column = [] then None
      else if column = tsCreatedAt s then Some ''CreatedAt''
      else if column = tsUpdatedAt s then Some ''UpdatedAt''
      else if column = tsArchivedAt s then Some ''ArchivedAt''
      else if column = tsParentID s \<or> (\<exists>l. tsBaseLink s = Some l \<and> column = slParentID l) then Some ''ParentID''
      else None)"

lemma managedName_code [code]:
  "managedName s column =
     (if column = [] then None
      else if column = tsCreatedAt s then Some ''CreatedAt''
      else if column = tsUpdatedAt s then Some ''UpdatedAt''
      else if column = tsArchivedAt s then Some ''ArchivedAt''
      else if column = tsParentID s \<or> (case tsBaseLink s of None \<Rightarrow> False | Some l \<Rightarrow> column = slParentID l)
      then Some ''ParentID'' else None)"
  by (cases "tsBaseLink s") (simp_all add: managedName_def)

definition goNameForRead :: "schemaStore \<Rightarrow> nat \<Rightarrow> string \<Rightarrow> string option" where
  "goNameForRead st a column =
     (let s = st ! a in
      case GoOf s column of
        Some g \<Rightarrow> Some g
      | None \<Rightarrow>
          (case managedName s column of
             Some g \<Rightarrow> Some g
           | None \<Rightarrow>
               (case firstSome (\<lambda>b. GoOf (st ! b) column) (tsSiblings s) of
                  Some g \<Rightarrow> Some g
                | None \<Rightarrow>
                    (case tsBaseLink s of None \<Rightarrow> None | Some l \<Rightarrow> GoOf (st ! slBase l) column))))"

subsection \<open>The copy of one table\<close>

definition isUpstreamExternal :: "TableSchema \<Rightarrow> bool" where
  "isUpstreamExternal s \<longleftrightarrow> tsTyp s = None \<and> \<not> tsIsSharedBase s"

definition AsDirectSchema :: "nat \<Rightarrow> schemaStore \<Rightarrow> schemaPanic + nat \<times> schemaStore" where
  "AsDirectSchema a st =
     (let s = st ! a in
      guarded
        [panicIf (tsSecondary s) (SiblingRefuses ''AsDirectSchema''),
         panicIf (isUpstreamExternal s) (ExternalRefuses ''AsDirectSchema'')]
        (length st,
         st @ [s\<lparr>tsDirect := True, tsChildren := [], tsSiblings := [], tsBaseLink := None, tsRoleLinks := [],
                 tsIsSharedBase := False, tsNaturalID := [], tsOrphanPolicy := KeepOrphan\<rparr>]))"

subsection \<open>Children of the role and of its base\<close>

definition childSchema :: "schemaStore \<Rightarrow> nat \<Rightarrow> string \<Rightarrow> nat option" where
  "childSchema st a name = map_of (tsChildren (st ! a)) name"

definition BaseChildSchema :: "schemaStore \<Rightarrow> nat \<Rightarrow> string \<Rightarrow> nat option" where
  "BaseChildSchema st a name =
     (case tsBaseLink (st ! a) of None \<Rightarrow> None | Some l \<Rightarrow> childSchema st (slBase l) name)"

definition ResolveAggregateChild :: "schemaStore \<Rightarrow> nat \<Rightarrow> string \<Rightarrow> (nat \<times> bool) option" where
  "ResolveAggregateChild st a name =
     (case childSchema st a name of
        Some c \<Rightarrow> Some (c, False)
      | None \<Rightarrow> map_option (\<lambda>c. (c, True)) (BaseChildSchema st a name))"

definition EffectiveChildNames :: "schemaStore \<Rightarrow> nat \<Rightarrow> string list" where
  "EffectiveChildNames st a =
     map fst (tsChildren (st ! a)) @
     (case tsBaseLink (st ! a) of None \<Rightarrow> [] | Some l \<Rightarrow> map fst (tsChildren (st ! slBase l)))"

subsection \<open>Checks at boot\<close>

definition ValidateSharedBaseChildren :: "schemaStore \<Rightarrow> nat \<Rightarrow> schemaPanic option" where
  "ValidateSharedBaseChildren st a =
     (case tsBaseLink (st ! a) of
        None \<Rightarrow> None
      | Some l \<Rightarrow>
          firstPanic (concat (map (\<lambda>(_, c).
            [panicIf (childSchema st a (typeName (st ! c)) \<noteq> None) (Overlap (typeName (st ! c))),
             panicIf (tsArchivedAt (st ! c) \<noteq> [] \<and> tsArchivedAt (st ! slBase l) = [])
               (BadChild ''declares ArchivedAt but its shared base has none'')])
            (tsChildren (st ! slBase l)))))"

definition ValidateChildDepth :: "schemaStore \<Rightarrow> nat \<Rightarrow> schemaPanic option" where
  "ValidateChildDepth st a =
     panicIf (\<exists>(_, c)\<in>set (tsChildren (st ! a)). tsChildren (st ! c) \<noteq> []) (BadChild ''no grandchildren'')"

text \<open>Every column and every Go name of a node belongs to one table of it.\<close>

fun claimOnce :: "(string \<times> string) list \<Rightarrow> string list \<Rightarrow> string list \<Rightarrow> schemaPanic option" where
  "claimOnce [] cols gos = None"
| "claimOnce ((col, go) # cs) cols gos =
     (if col \<in> set cols then Some (Overlap col)
      else if go \<in> set gos then Some (Overlap go)
      else claimOnce cs (col # cols) (go # gos))"

definition nodeClaims :: "schemaStore \<Rightarrow> nat \<Rightarrow> (string \<times> string) list" where
  "nodeClaims st a =
     concat (map (\<lambda>b. map (\<lambda>f. (sfColumn f, sfGo f)) (tsFields (st ! b))) (a # tsSiblings (st ! a)))"

definition validateOwnSiblings :: "schemaStore \<Rightarrow> nat \<Rightarrow> schemaPanic option" where
  "validateOwnSiblings st a =
     (if tsSiblings (st ! a) = [] then None else claimOnce (nodeClaims st a) [] [])"

definition ValidateSiblings :: "schemaStore \<Rightarrow> nat \<Rightarrow> schemaPanic option" where
  "ValidateSiblings st a =
     firstPanic (validateOwnSiblings st a # map (\<lambda>(_, c). validateOwnSiblings st c) (tsChildren (st ! a)))"

definition ValidateAnchored :: "TableSchema \<Rightarrow> schemaPanic option" where
  "ValidateAnchored s = panicIf (tsTyp s = None) (ExternalRefuses ''a write-backed schema'')"

definition ValidateModes :: "TableSchema \<Rightarrow> EntityMode list \<Rightarrow> schemaPanic option" where
  "ValidateModes s modes =
     panicIf (tsArchivedAt s = [] \<and> (\<exists>m\<in>set modes. m = ModeArchive \<or> m = ModeUnarchive)) (EmptyColumn ''ArchivedAt'')"

definition selfAndPartitions :: "schemaStore \<Rightarrow> nat \<Rightarrow> nat list" where
  "selfAndPartitions st a =
     a # tsSiblings (st ! a) @ (case tsBaseLink (st ! a) of None \<Rightarrow> [] | Some l \<Rightarrow> [slBase l])"

definition validateCompositeOnceRule :: "schemaStore \<Rightarrow> nat \<Rightarrow> schemaPanic option" where
  "validateCompositeOnceRule st a =
     panicIf (\<not> distinct (concat (map (\<lambda>b. map fst (tsComposites (st ! b))) (selfAndPartitions st a))))
       (BadComposite ''is decomposed on BOTH'')"

text \<open>Two declarations of one shared base.\<close>

definition diverges :: "string \<Rightarrow> bool \<Rightarrow> schemaPanic option" where
  "diverges what b = panicIf b (BadSharedBase (''diverge on '' @ what))"

definition fieldDiverges :: "TableSchema \<Rightarrow> schemaField \<Rightarrow> schemaPanic option list" where
  "fieldDiverges b f =
     (case tsByGo b (sfGo f) of
        None \<Rightarrow> [diverges (''field '' @ sfGo f) True]
      | Some g \<Rightarrow>
          [diverges (''field '' @ sfGo f) (sfColumn g \<noteq> sfColumn f),
           diverges (''the value object behind field '' @ sfGo f) (sfVOType f \<noteq> sfVOType g \<or> sfVOField f \<noteq> sfVOField g),
           diverges (''field '' @ sfGo f) (sfStamped f \<noteq> sfStamped g)])"

definition childDiverges :: "schemaStore \<Rightarrow> TableSchema \<Rightarrow> string \<times> nat \<Rightarrow> schemaPanic option" where
  "childDiverges st b nc =
     (case map_of (tsChildren b) (fst nc) of
        None \<Rightarrow> diverges (''native child '' @ fst nc) True
      | Some d \<Rightarrow>
          let ac = st ! snd nc; bc = st ! d in
          diverges (''native child '' @ fst nc)
            (tsTable ac \<noteq> tsTable bc \<or> tsParentID ac \<noteq> tsParentID bc \<or> tsArchivedAt ac \<noteq> tsArchivedAt bc))"

definition AssertSharedBaseEquivalent :: "schemaStore \<Rightarrow> nat \<Rightarrow> nat \<Rightarrow> schemaPanic option" where
  "AssertSharedBaseEquivalent st i j =
     (let a = st ! i; b = st ! j in
      firstPanic
        ([diverges ''the table'' (tsTable a \<noteq> tsTable b),
          diverges ''the ID column'' (tsIdColumn a \<noteq> tsIdColumn b),
          diverges ''the NaturalID column'' (tsNaturalID a \<noteq> tsNaturalID b),
          diverges ''the OrphanPolicy'' (tsOrphanPolicy a \<noteq> tsOrphanPolicy b),
          diverges ''the ArchivedAt column'' (tsArchivedAt a \<noteq> tsArchivedAt b),
          diverges ''the Revision column'' (tsRevision a \<noteq> tsRevision b),
          diverges ''the field count'' (length (tsFields a) \<noteq> length (tsFields b))] @
         concat (map (fieldDiverges b) (tsFields a)) @
         diverges ''the native-children count'' (length (tsChildren a) \<noteq> length (tsChildren b)) #
         map (childDiverges st b) (tsChildren a)))"

subsection \<open>The types of the payload\<close>

fun putTypes :: "(string \<times> reflectType) list \<Rightarrow> (string \<rightharpoonup> reflectType) \<Rightarrow> (string \<rightharpoonup> reflectType)" where
  "putTypes [] out = out"
| "putTypes ((c, t) # cts) out = putTypes cts (out(c \<mapsto> t))"

definition payloadType :: "reflectType \<Rightarrow> reflectType" where
  "payloadType ft = (case valueObjectField ft of Some (_, u) \<Rightarrow> u | None \<Rightarrow> ft)"

definition pathTypes :: "reflectType option \<Rightarrow> (string \<times> FieldPath) list \<Rightarrow> (string \<times> reflectType) list" where
  "pathTypes T cps =
     (case T of
        None \<Rightarrow> []
      | Some t \<Rightarrow> concat (map (\<lambda>(c, p). case TypeIn p t of None \<Rightarrow> [] | Some ft \<Rightarrow> [(c, payloadType ft)]) cps))"

definition managedTypes :: "TableSchema \<Rightarrow> (string \<times> reflectType) list" where
  "managedTypes s =
     map (\<lambda>c. (c, TyTime)) (filter (\<lambda>c. c \<noteq> []) [tsArchivedAt s, tsCreatedAt s, tsUpdatedAt s])"

definition PayloadColumnTypes :: "schemaStore \<Rightarrow> nat \<Rightarrow> (string \<rightharpoonup> reflectType)" where
  "PayloadColumnTypes st a =
     (let s = st ! a; own = (\<lambda>b. pathTypes (tsTyp s) (map (\<lambda>f. (sfColumn f, sfPath f)) (tsFields (st ! b)))) in
      putTypes
        (own a @ concat (map own (tsSiblings s)) @
         (if tsIdColumn s \<noteq> [] then [(tsIdColumn s, TyString)] else []) @ managedTypes s @
         (case tsBaseLink s of
            None \<Rightarrow> []
          | Some l \<Rightarrow>
              (slParentID l, TyString) # pathTypes (tsTyp s) (slScanByCol l) @ managedTypes (st ! slBase l) @
              (let rc = tsRevision (st ! slBase l) in if rc \<noteq> [] then [(rc, TyInt64)] else [])) @
         (if tsParentID s \<noteq> [] then [(tsParentID s, TyString)] else [])) Map.empty)"

end
