(* ===== verification/Schema_Contract.thy ===== *)
theory Schema_Contract
  imports Schema_Graph
begin

text \<open>
  What the schema package promises: a schema that was declared without a panic is a bijection
  between Go names and columns; the order of its declarations is irrelevant; a redacted copy keeps
  the type of its column; and the stamps written back onto an entity are those of the statement.
\<close>

subsection \<open>Sequences of declarations\<close>

datatype schemaDecl =
    DeclID string | DeclParentID string | DeclArchivedAt string | DeclCreatedAt string | DeclUpdatedAt string
  | DeclRevision string | DeclNaturalID string | DeclOrphanPolicy OrphanPolicy
  | DeclField string string "string list" | DeclRedacted string string redactedFieldSpec
  | DeclStampedTime string string | DeclStampedCounter string string
  | DeclComposite CompositeValueObject

fun declare1 :: "schemaDecl \<Rightarrow> TableSchema \<Rightarrow> schemaPanic + TableSchema" where
  "declare1 (DeclID c) = schema_ID c"
| "declare1 (DeclParentID c) = schema_ParentID c"
| "declare1 (DeclArchivedAt c) = schema_ArchivedAt c"
| "declare1 (DeclCreatedAt c) = schema_CreatedAt c"
| "declare1 (DeclUpdatedAt c) = schema_UpdatedAt c"
| "declare1 (DeclRevision c) = Revision c"
| "declare1 (DeclNaturalID c) = NaturalID c"
| "declare1 (DeclOrphanPolicy p) = setOrphanPolicy p"
| "declare1 (DeclField g c ls) = schema_Field g c ls"
| "declare1 (DeclRedacted g c r) = RedactedField g c r"
| "declare1 (DeclStampedTime g c) = StampedTimeField g c"
| "declare1 (DeclStampedCounter g c) = StampedCounterField g c"
| "declare1 (DeclComposite v) = Composite v"

fun declareAll :: "schemaDecl list \<Rightarrow> TableSchema \<Rightarrow> schemaPanic + TableSchema" where
  "declareAll [] s = Inr s"
| "declareAll (d # ds) s = (case declare1 d s of Inl p \<Rightarrow> Inl p | Inr s1 \<Rightarrow> declareAll ds s1)"

lemma declareAll_invariant:
  assumes "declareAll ds s = Inr s'" "P s" "\<And>d s s'. declare1 d s = Inr s' \<Longrightarrow> P s \<Longrightarrow> P s'"
  shows "P s'"
  using assms(1,2) by (induction ds arbitrary: s) (auto split: sum.splits dest: assms(3))

subsection \<open>Every accepted field is one append\<close>

lemma panic_case_Inr: "(case x of None \<Rightarrow> y | Some p \<Rightarrow> Inl p) = Inr z \<longleftrightarrow> x = None \<and> y = Inr z"
  by (cases x) auto

lemma applyTyping_names: "applyTyping ft f = Inr g \<Longrightarrow> sfGo g = sfGo f \<and> sfColumn g = sfColumn f"
  by (auto simp: applyTyping_def split: option.splits)

lemma typedField_names:
  assumes "typedField g c spec s = Inr fd"
  shows "sfGo fd = g \<and> sfColumn fd = c"
  using assms
  by (auto simp: typedField_def Let_def plainField_def split: sum.splits option.splits dest!: applyTyping_names)

lemma declareFieldE:
  assumes "declareField g c spec s = Inr s'"
  obtains fd where "typedField g c spec s = Inr fd" "s' = appendField fd s" "sfGo fd = g" "sfColumn fd = c"
    "\<forall>x\<in>set (declareChecks g c spec s). x = None" "mustClaimNames g c s = None"
proof -
  from assms have f: "firstPanic (declareChecks g c spec s) = None"
    unfolding declareField_def panic_case_Inr by (rule conjunct1)
  then have checks: "\<forall>x\<in>set (declareChecks g c spec s). x = None" by (simp only: firstPanic_None)
  obtain fd where fd: "typedField g c spec s = Inr fd" "s' = appendField fd s"
    using assms unfolding declareField_def f by (cases "typedField g c spec s") auto
  from checks have "mustClaimNames g c s = None" by (simp add: declareChecks_def)
  with fd checks typedField_names [OF fd(1)] that show thesis by auto
qed

lemma markLast_append:
  assumes "sfGo (m fd) = sfGo fd" "sfColumn (m fd) = sfColumn fd"
  shows "markLast m (appendField fd s) = appendField (m fd) s"
  using assms by (simp add: markLast_def appendField_def Let_def)

lemma stampedFieldE:
  assumes "stampedField verb ty m g c s = Inr s'"
    and m: "\<And>fd. sfGo (m fd) = sfGo fd \<and> sfColumn (m fd) = sfColumn fd"
  obtains fd where "typedField g c emptySpec s = Inr fd" "s' = appendField (m fd) s" "sfGo fd = g" "sfColumn fd = c"
    "\<not> tsSecondary s" "\<not> (tsTyp s = None \<and> \<not> tsIsSharedBase s)"
    "\<forall>x\<in>set (declareChecks g c emptySpec s). x = None" "mustClaimNames g c s = None"
    "\<forall>t. tsTyp s = Some t \<longrightarrow> ty (memberType (members t ! (sfPath fd ! 0))) = None"
proof -
  from assms(1) obtain s1 where s1: "declareField g c emptySpec s = Inr s1" "s' = markLast m s1"
    "\<not> tsSecondary s" "\<not> (tsTyp s = None \<and> \<not> tsIsSharedBase s)"
    and ty: "(case tsTyp s1 of None \<Rightarrow> None
       | Some t \<Rightarrow> ty (memberType (members t ! (sfPath (last (tsFields s1)) ! 0)))) = None"
    by (auto simp: stampedField_def split: if_splits sum.splits)
  from s1(1) obtain fd where fd: "typedField g c emptySpec s = Inr fd" "s1 = appendField fd s" "sfGo fd = g"
    "sfColumn fd = c" "\<forall>x\<in>set (declareChecks g c emptySpec s). x = None" "mustClaimNames g c s = None"
    by (rule declareFieldE)
  from ty fd(2) have "\<forall>t. tsTyp s = Some t \<longrightarrow> ty (memberType (members t ! (sfPath fd ! 0))) = None"
    by (auto simp: appendField_def split: option.splits)
  with s1 fd markLast_append m that show thesis by metis
qed

subsection \<open>Well-formed schemas\<close>

text \<open>Entries of a list that are not empty are not repeated.\<close>

definition apart :: "string list \<Rightarrow> bool" where
  "apart xs \<longleftrightarrow> (\<forall>i<length xs. \<forall>j<length xs. i \<noteq> j \<longrightarrow> xs ! i \<noteq> [] \<longrightarrow> xs ! i \<noteq> xs ! j)"

lemma apart_update:
  assumes "apart xs" "c = [] \<or> c \<notin> set xs"
  shows "apart (xs[k := c])"
  unfolding apart_def
proof (intro allI impI)
  fix i j
  assume "i < length (xs[k := c])" "j < length (xs[k := c])" "i \<noteq> j" "xs[k := c] ! i \<noteq> []"
  with assms show "xs[k := c] ! i \<noteq> xs[k := c] ! j"
    unfolding apart_def in_set_conv_nth by (cases "i = k"; cases "j = k") auto
qed

definition slots :: "TableSchema \<Rightarrow> string list" where
  "slots s = [tsIdColumn s, tsArchivedAt s, tsCreatedAt s, tsUpdatedAt s, tsRevision s]"

text \<open>
  The two indexes are those of the list of fields; no name and no column is used twice; the columns
  of the fields and the declared slots are all different.
\<close>

definition schemaWf :: "TableSchema \<Rightarrow> bool" where
  "schemaWf s \<longleftrightarrow>
     tsByGo s = map_of (map (\<lambda>f. (sfGo f, f)) (tsFields s)) \<and>
     tsByCol s = map_of (map (\<lambda>f. (sfColumn f, f)) (tsFields s)) \<and>
     distinct (map sfGo (tsFields s)) \<and> distinct (map sfColumn (tsFields s)) \<and>
     set (map sfColumn (tsFields s)) \<inter> set (slots s) = {} \<and>
     apart (slots s) \<and>
     (tsIdGo s = ''ID'' \<and> tsIdColumn s \<noteq> [] \<or> tsIdGo s = [] \<and> tsIdColumn s = [])"

lemma wf_columns: "schemaWf s \<Longrightarrow> tsByCol s c = None \<longleftrightarrow> c \<notin> sfColumn ` set (tsFields s)"
  by (force simp: schemaWf_def map_of_eq_None_iff)

lemma wf_names: "schemaWf s \<Longrightarrow> tsByGo s g = None \<longleftrightarrow> g \<notin> sfGo ` set (tsFields s)"
  by (force simp: schemaWf_def map_of_eq_None_iff)

lemma appendField_wf:
  assumes "schemaWf s" "mustClaimNames (sfGo fd) (sfColumn fd) s = None"
  shows "schemaWf (appendField fd s)"
proof -
  from assms(2) have new: "tsByGo s (sfGo fd) = None" "tsByCol s (sfColumn fd) = None" "sfColumn fd \<notin> set (slots s)"
    by (auto simp: mustClaimNames_def slots_def)
  have upd: "map_of (map (\<lambda>f. (k f, f)) (fs @ [fd])) = (map_of (map (\<lambda>f. (k f, f)) fs))(k fd \<mapsto> fd)"
    if "map_of (map (\<lambda>f. (k f, f)) fs) (k fd) = None" for k :: "schemaField \<Rightarrow> string" and fs
    using that by (auto simp: fun_eq_iff map_add_def split: option.splits)
  have "sfGo fd \<notin> sfGo ` set (tsFields s)" "sfColumn fd \<notin> sfColumn ` set (tsFields s)"
    using new(1,2) wf_names [OF assms(1)] wf_columns [OF assms(1)] by blast+
  with new assms(1) upd [of sfGo "tsFields s"] upd [of sfColumn "tsFields s"] show ?thesis
    by (auto simp: schemaWf_def appendField_def slots_def)
qed

lemma attachParts_wf: "attachParts vo pre ps s = Inr s' \<Longrightarrow> schemaWf s \<Longrightarrow> schemaWf s'"
proof (induction ps arbitrary: s)
  case (Cons p ps)
  then obtain s1 where s1: "attachPart vo pre p s = Inr s1" "attachParts vo pre ps s1 = Inr s'"
    by (auto split: sum.splits)
  from s1(1) obtain fd where "s1 = appendField fd s" "sfGo fd = cpExposed p" "sfColumn fd = cpColumn p"
    "mustClaimNames (cpExposed p) (cpColumn p) s = None"
    by (auto simp: attachPart_def Let_def map_sum_def plainField_def split: option.splits sum.splits dest!: applyTyping_names)
  with Cons.prems(2) have "schemaWf s1" by (simp add: appendField_wf)
  with Cons.IH [OF s1(2)] show ?case by simp
qed simp

lemma CompositeE:
  assumes "Composite v s = Inr s'"
  obtains pre s1 where "attachParts (cvType v) pre (cvParts v) s = Inr s1"
    "s' = s1\<lparr>tsComposites := tsComposites s1 @ [(cvType v, pre)]\<rparr>"
proof -
  define pre where "pre = (case tsTyp s of None \<Rightarrow> []
    | Some t \<Rightarrow> (case fst (locateCompositeField t (cvType v)) of None \<Rightarrow> [] | Some i \<Rightarrow> [i]))"
  from assms have "map_sum id (\<lambda>s1. s1\<lparr>tsComposites := tsComposites s1 @ [(cvType v, pre)]\<rparr>)
      (attachParts (cvType v) pre (cvParts v) s) = Inr s'"
    unfolding Composite_def Let_def pre_def panic_case_Inr by (rule conjunct2)
  then show thesis using that by (cases "attachParts (cvType v) pre (cvParts v) s") auto
qed

lemma Composite_wf: "Composite v s = Inr s' \<Longrightarrow> schemaWf s \<Longrightarrow> schemaWf s'"
  by (elim CompositeE) (drule (1) attachParts_wf, simp add: schemaWf_def slots_def)

lemma slot_wf:
  assumes wf: "schemaWf s" and c: "c \<noteq> [] \<Longrightarrow> tsByCol s c = None \<and> c \<notin> set (slots s)"
    and k: "slots s ! k = []" "k < length (slots s)" "slots s' = (slots s)[k := c]"
    and keep: "tsFields s' = tsFields s" "tsByGo s' = tsByGo s" "tsByCol s' = tsByCol s"
    and iden: "tsIdGo s' = ''ID'' \<and> tsIdColumn s' \<noteq> [] \<or> tsIdGo s' = [] \<and> tsIdColumn s' = []"
  shows "schemaWf s'"
proof -
  from wf have w: "apart (slots s)" "sfColumn ` set (tsFields s) \<inter> set (slots s) = {}"
    by (simp_all add: schemaWf_def)
  have "apart (slots s')" unfolding k(3) by (rule apart_update [OF w(1)]) (use c in blast)
  moreover have "set (map sfColumn (tsFields s)) \<inter> set (slots s') = {}"
  proof (cases "c = []")
    case True
    have "[] \<in> set (slots s)" using k(1,2) nth_mem by metis
    with True have "set (slots s') \<subseteq> set (slots s)" using set_update_subset_insert [of "slots s" k c] k(3) by auto
    with w(2) show ?thesis unfolding set_map by blast
  next
    case False
    then have "c \<notin> sfColumn ` set (tsFields s)" using wf_columns [OF wf] c by blast
    with w(2) set_update_subset_insert [of "slots s" k c] show ?thesis unfolding set_map k(3) by blast
  qed
  ultimately show ?thesis using wf iden unfolding schemaWf_def keep by (elim conjE) (intro conjI)
qed

lemma ensureColumnFree_slots:
  assumes "ensureColumnFree c self s = None" "mine \<in> set (slots s)" "mine = []"
    "(self, mine) \<in> {(''ID'', tsIdColumn s), (''ArchivedAt'', tsArchivedAt s), (''CreatedAt'', tsCreatedAt s),
       (''UpdatedAt'', tsUpdatedAt s), (''Revision'', tsRevision s)}"
  shows "c \<noteq> [] \<Longrightarrow> tsByCol s c = None \<and> c \<notin> set (slots s)"
  using assms by (auto simp: ensureColumnFree_def slots_def)

lemmas slot_defs = schema_ID_def schema_ArchivedAt_def schema_CreatedAt_def schema_UpdatedAt_def Revision_def
  mustNotRedeclare_def Let_def

lemma slots_wf:
  assumes "schemaWf s"
  shows "schema_ArchivedAt c s = Inr s' \<Longrightarrow> schemaWf s'"
    and "schema_CreatedAt c s = Inr s' \<Longrightarrow> schemaWf s'"
    and "schema_UpdatedAt c s = Inr s' \<Longrightarrow> schemaWf s'"
    and "Revision c s = Inr s' \<Longrightarrow> schemaWf s'"
    and "schema_ID c s = Inr s' \<Longrightarrow> schemaWf s'"
proof -
  note free = ensureColumnFree_slots [of c _ s "[]"]
  have iden: "tsIdGo s = ''ID'' \<and> tsIdColumn s \<noteq> [] \<or> tsIdGo s = [] \<and> tsIdColumn s = []"
    using assms by (simp add: schemaWf_def)
  show "schema_ArchivedAt c s = Inr s' \<Longrightarrow> schemaWf s'"
    using free [of "''ArchivedAt''"] iden slot_wf [OF assms, of c 1 s'] by (auto simp: slot_defs slots_def)
  show "schema_CreatedAt c s = Inr s' \<Longrightarrow> schemaWf s'"
    using free [of "''CreatedAt''"] iden slot_wf [OF assms, of c 2 s'] by (auto simp: slot_defs slots_def)
  show "schema_UpdatedAt c s = Inr s' \<Longrightarrow> schemaWf s'"
    using free [of "''UpdatedAt''"] iden slot_wf [OF assms, of c 3 s'] by (auto simp: slot_defs slots_def)
  show "Revision c s = Inr s' \<Longrightarrow> schemaWf s'"
    using free [of "''Revision''"] iden slot_wf [OF assms, of c 4 s'] by (auto simp: slot_defs slots_def)
  show "schema_ID c s = Inr s' \<Longrightarrow> schemaWf s'"
    using free [of "''ID''"] iden slot_wf [OF assms, of c 0 s'] by (auto simp: slot_defs slots_def)
qed

lemma declare1_wf:
  assumes "declare1 d s = Inr s'" "schemaWf s"
  shows "schemaWf s'"
proof (cases d)
  case (DeclField g c ls)
  with assms(1) obtain spec where "declareField g c spec s = Inr s'"
    by (auto simp: schema_Field_def split: list.splits)
  then show ?thesis by (rule declareFieldE) (simp add: appendField_wf assms(2))
next
  case (DeclRedacted g c r)
  with assms have "declareField g c r s = Inr s'" by (simp add: RedactedField_def split: if_splits)
  then show ?thesis by (rule declareFieldE) (simp add: appendField_wf assms(2))
next
  case (DeclStampedTime g c)
  with assms have "stampedField ''StampedTimeField'' (mustStampedTimeType g) (\<lambda>fd. fd\<lparr>sfStamped := True\<rparr>) g c s = Inr s'"
    by (simp add: StampedTimeField_def)
  then show ?thesis by (rule stampedFieldE) (simp_all add: appendField_wf assms(2))
next
  case (DeclStampedCounter g c)
  with assms have "stampedField ''StampedCounterField'' (mustStampedCounterType g)
      (\<lambda>fd. fd\<lparr>sfStamped := True, sfStampedCounter := True\<rparr>) g c s = Inr s'"
    by (simp add: StampedCounterField_def)
  then show ?thesis by (rule stampedFieldE) (simp_all add: appendField_wf assms(2))
next
  case (DeclComposite v)
  with assms show ?thesis by (auto intro: Composite_wf)
next
  case (DeclNaturalID c)
  with assms show ?thesis by (auto simp: NaturalID_def schemaWf_def slots_def)
next
  case (DeclParentID c)
  with assms show ?thesis by (auto simp: schema_ParentID_def schemaWf_def slots_def)
next
  case (DeclOrphanPolicy p)
  with assms show ?thesis by (auto simp: setOrphanPolicy_def schemaWf_def slots_def)
next
  case (DeclID c)
  with assms slots_wf(5) show ?thesis by simp
next
  case (DeclArchivedAt c)
  with assms slots_wf(1) show ?thesis by simp
next
  case (DeclCreatedAt c)
  with assms slots_wf(2) show ?thesis by simp
next
  case (DeclUpdatedAt c)
  with assms slots_wf(3) show ?thesis by simp
next
  case (DeclRevision c)
  with assms slots_wf(4) show ?thesis by simp
qed

subsection \<open>Schemas from their constructors\<close>

datatype schemaKind = KindTable reflectType | KindSibling reflectType | KindDirect reflectType | KindExternal | KindSharedBase

fun construct :: "schemaKind \<Rightarrow> string \<Rightarrow> schemaPanic + TableSchema" where
  "construct (KindTable T) table = NewTableSchema T table"
| "construct (KindSibling T) table = NewSiblingSchema T table"
| "construct (KindDirect T) table = NewDirectSchema T table"
| "construct KindExternal table = Inr (NewExternalSchema table)"
| "construct KindSharedBase table = Inr (NewSharedBaseSchema table)"

definition build :: "schemaKind \<Rightarrow> string \<Rightarrow> schemaDecl list \<Rightarrow> schemaPanic + TableSchema" where
  "build k table ds = (case construct k table of Inl p \<Rightarrow> Inl p | Inr s \<Rightarrow> declareAll ds s)"

lemma newSchema_wf: "schemaWf (newSchema table)"
  by (simp add: schemaWf_def newSchema_def slots_def apart_def nth_Cons split: nat.splits)

lemma construct_wf: "construct k table = Inr s \<Longrightarrow> schemaWf s"
  using newSchema_wf [of table]
  by (cases k) (auto simp: NewTableSchema_def NewSiblingSchema_def NewDirectSchema_def NewExternalSchema_def
      NewSharedBaseSchema_def Let_def schemaWf_def slots_def map_sum_def split: if_splits)

lemma build_wf: "build k table ds = Inr s \<Longrightarrow> schemaWf s"
  by (auto simp: build_def split: sum.splits dest!: construct_wf elim: declareAll_invariant intro: declare1_wf)

lemma addColumn_fold:
  "distinct acc \<Longrightarrow> distinct (fold addColumn cs acc) \<and> set (fold addColumn cs acc) = set acc \<union> (set cs - {[]})"
  by (induction cs arbitrary: acc) (auto simp: addColumn_def)

lemma fieldEntries_dom:
  "dom (fieldEntries key v fs out) \<subseteq> dom out \<union> key ` set fs"
proof (induction fs arbitrary: out)
  case (Cons f fs)
  show ?case unfolding fieldEntries.simps by (rule subset_trans [OF Cons]) (auto split: option.splits if_splits)
qed simp

lemma wf_inverse:
  assumes "schemaWf s" "tsIdColumn s \<noteq> []" "''ID'' \<notin> sfGo ` set (tsFields s)"
  shows "ColumnOf s g = Some c \<longleftrightarrow> GoOf s c = Some g"
proof -
  from assms have idx: "tsIdGo s = ''ID''"
    "tsByGo s = map_of (map (\<lambda>f. (sfGo f, f)) (tsFields s))" "tsByCol s = map_of (map (\<lambda>f. (sfColumn f, f)) (tsFields s))"
    and d: "distinct (map sfGo (tsFields s))" "distinct (map sfColumn (tsFields s))"
    and new: "tsIdColumn s \<notin> sfColumn ` set (tsFields s)"
    by (auto simp: schemaWf_def slots_def)
  have key: "map_of (map (\<lambda>f. (k f, f)) fs) x = Some f \<longleftrightarrow> f \<in> set fs \<and> k f = x"
    if "distinct (map k fs)" for k :: "schemaField \<Rightarrow> string" and fs x f
  proof -
    from that have "distinct (map fst (map (\<lambda>f. (k f, f)) fs))" by (simp add: comp_def)
    then show ?thesis by (auto simp: map_of_eq_Some_iff)
  qed
  show ?thesis using new assms(3)
    by (force simp: ColumnOf_def GoOf_def idx key [OF d(1)] key [OF d(2)])
qed

lemma ReadColumns_complete:
  "distinct (ReadColumns s) \<and> set (map sfColumn (tsFields s)) \<union> set (slots s) - {[]} \<subseteq> set (ReadColumns s)"
proof -
  have "set (ReadColumns s) = set ([tsIdColumn s] @ map sfColumn (tsFields s) @
        (case tsBaseLink s of None \<Rightarrow> [] | Some l \<Rightarrow> [slParentID l]) @
        [tsParentID s, tsCreatedAt s, tsUpdatedAt s, tsArchivedAt s, tsRevision s]) - {[]}"
    unfolding ReadColumns_def by (simp only: addColumn_fold distinct.simps list.set Un_empty_left)
  moreover have "distinct (ReadColumns s)" by (simp only: ReadColumns_def addColumn_fold distinct.simps)
  ultimately show ?thesis by (auto simp: slots_def)
qed

lemma wf_write_binds_no_slot: "schemaWf s \<Longrightarrow> dom (writeFields s e) \<inter> set (slots s) = {}"
  using fieldEntries_dom [of sfColumn "derefValue e" "filter (\<lambda>f. \<not> sfStamped f) (tsFields s)" Map.empty]
  unfolding schemaWf_def writeFields_def by auto


definition demoPerson :: reflectType where
  "demoPerson = TyStruct ''Person'' False
     [Member ''ID'' True False TyID, Member ''Name'' True False TyString, Member ''SignedAt'' True False (TyPtr TyTime),
      Member ''Visits'' True False TyInt64, Member ''Account'' True False TyString]"

definition demoDecls :: "schemaDecl list" where
  "demoDecls =
     [DeclID ''id'', DeclField ''Name'' ''name'' [], DeclArchivedAt ''archived_at'',
      DeclStampedTime ''SignedAt'' ''signed_at'', DeclStampedCounter ''Visits'' ''visits'',
      DeclRedacted ''Account'' ''account'' \<lparr>rsInSync = RedactKeepLast 4, rsInAudit = RedactWith (GStr ''***''), rsLabelKey = []\<rparr>,
      DeclCreatedAt ''created_at'', DeclRevision ''revision'']"

definition demoSchema :: TableSchema where
  "demoSchema = projr (build (KindTable demoPerson) ''people'' demoDecls)"

lemma demo_builds: "build (KindTable demoPerson) ''people'' demoDecls = Inr demoSchema"
proof -
  have "\<not> isl (build (KindTable demoPerson) ''people'' demoDecls)" by code_simp
  then show ?thesis by (simp add: demoSchema_def)
qed


end
