(* ===== verification/Schema_Order.thy ===== *)
theory Schema_Order
  imports Schema_Contract "HOL-Library.Multiset"
begin

text \<open>
  The order in which a schema is declared. Each declaration is reduced to one claim on the schema,
  with a guard that reads what was declared before; claims whose guards hold can be exchanged.
\<close>

subsection \<open>One claim per declaration\<close>

datatype claim = ClaimSlot nat string "nat option" | ClaimParent string | ClaimNatural string | ClaimField schemaField

fun setSlot :: "nat \<Rightarrow> string \<Rightarrow> nat option \<Rightarrow> TableSchema \<Rightarrow> TableSchema" where
  "setSlot k c i s =
     (if k = 0 then s\<lparr>tsIdGo := ''ID'', tsIdColumn := c, tsIdIndex := i\<rparr>
      else if k = 1 then s\<lparr>tsArchivedAt := c\<rparr>
      else if k = 2 then s\<lparr>tsCreatedAt := c\<rparr>
      else if k = 3 then s\<lparr>tsUpdatedAt := c\<rparr>
      else s\<lparr>tsRevision := c\<rparr>)"

fun effect :: "claim \<Rightarrow> TableSchema \<Rightarrow> TableSchema" where
  "effect (ClaimSlot k c i) s = setSlot k c i s"
| "effect (ClaimParent c) s = s\<lparr>tsParentID := c\<rparr>"
| "effect (ClaimNatural c) s = s\<lparr>tsNaturalID := c\<rparr>"
| "effect (ClaimField fd) s = appendField fd s"

definition isRedacted :: "schemaField \<Rightarrow> bool" where
  "isRedacted f \<longleftrightarrow> redactorDeclared (sfInSync f) \<or> redactorDeclared (sfInAudit f)"

fun admits :: "claim \<Rightarrow> TableSchema \<Rightarrow> bool" where
  "admits (ClaimSlot k c i) s \<longleftrightarrow>
     slots s ! k = [] \<and> tsByCol s c = None \<and> c \<notin> set (slots s) \<and> (k = 4 \<longrightarrow> tsParentID s = [])"
| "admits (ClaimParent c) s \<longleftrightarrow> tsParentID s = [] \<and> tsByCol s c = None"
| "admits (ClaimNatural c) s \<longleftrightarrow> tsNaturalID s = [] \<and> (\<forall>f. tsByCol s c = Some f \<longrightarrow> \<not> isRedacted f)"
| "admits (ClaimField fd) s \<longleftrightarrow>
     tsByGo s (sfGo fd) = None \<and> tsByCol s (sfColumn fd) = None \<and> sfColumn fd \<notin> set (slots s) \<and>
     sfColumn fd \<noteq> tsParentID s \<and> (isRedacted fd \<longrightarrow> sfColumn fd \<noteq> tsNaturalID s)"

fun claimColumn :: "claim \<Rightarrow> string" where
  "claimColumn (ClaimSlot k c i) = c"
| "claimColumn (ClaimParent c) = c"
| "claimColumn (ClaimNatural c) = c"
| "claimColumn (ClaimField fd) = sfColumn fd"

fun slotIndexOk :: "claim \<Rightarrow> bool" where
  "slotIndexOk (ClaimSlot k c i) = (k < 5)"
| "slotIndexOk _ = True"

fun isParent :: "claim \<Rightarrow> bool" where
  "isParent (ClaimParent c) = True"
| "isParent _ = False"

fun isRevision :: "claim \<Rightarrow> bool" where
  "isRevision (ClaimSlot k c i) = (k = 4)"
| "isRevision _ = False"

text \<open>Schemas that differ in the order of their fields only.\<close>

definition sameSchema :: "TableSchema \<Rightarrow> TableSchema \<Rightarrow> bool" where
  "sameSchema s t \<longleftrightarrow> s\<lparr>tsFields := []\<rparr> = t\<lparr>tsFields := []\<rparr> \<and> mset (tsFields s) = mset (tsFields t)"

lemma less5: "k < (5::nat) \<longleftrightarrow> k \<in> {0, 1, 2, 3, 4}" by auto

lemma slots_setSlot: "k < 5 \<Longrightarrow> slots (setSlot k c i s) = (slots s)[k := c]"
  unfolding less5 by (auto simp: slots_def)

lemma slots_other [simp]:
  "slots (s\<lparr>tsParentID := c\<rparr>) = slots s" "slots (s\<lparr>tsNaturalID := c\<rparr>) = slots s" "slots (appendField fd s) = slots s"
  "slots (s\<lparr>tsFields := fs\<rparr>) = slots s"
  by (simp_all add: slots_def appendField_def)

lemma setSlot_keeps [simp]:
  "tsByCol (setSlot k c i s) = tsByCol s" "tsByGo (setSlot k c i s) = tsByGo s" "tsParentID (setSlot k c i s) = tsParentID s"
  "tsNaturalID (setSlot k c i s) = tsNaturalID s" "tsFields (setSlot k c i s) = tsFields s"
  by simp_all

lemma setSlot_commute: "k < 5 \<Longrightarrow> l < 5 \<Longrightarrow> k \<noteq> l \<Longrightarrow> setSlot k c i (setSlot l d j s) = setSlot l d j (setSlot k c i s)"
  unfolding less5 by (elim insertE emptyE; simp)

lemma length_slots [simp]: "length (slots s) = 5" by (simp add: slots_def)

declare setSlot.simps [simp del]

subsection \<open>Admitted claims can be exchanged\<close>

lemma in_update: "k < length xs \<Longrightarrow> x \<in> set (xs[k := c]) \<longleftrightarrow> x = c \<or> (\<exists>i<length xs. i \<noteq> k \<and> xs ! i = x)"
  by (auto simp: in_set_conv_nth nth_list_update)

lemma in_slots_update:
  assumes "k < 5" "slots s ! k = []" "x \<noteq> []"
  shows "x \<in> set ((slots s)[k := c]) \<longleftrightarrow> x = c \<or> x \<in> set (slots s)"
proof -
  have "x \<in> set (slots s) \<longleftrightarrow> (\<exists>i<length (slots s). i \<noteq> k \<and> slots s ! i = x)"
    using assms unfolding in_set_conv_nth by auto
  then show ?thesis using in_update [of k "slots s" x c] assms(1) by simp
qed

lemma appendField_reads [simp]:
  "tsByCol (appendField fd s) = (tsByCol s)(sfColumn fd \<mapsto> fd)" "tsByGo (appendField fd s) = (tsByGo s)(sfGo fd \<mapsto> fd)"
  "tsParentID (appendField fd s) = tsParentID s" "tsNaturalID (appendField fd s) = tsNaturalID s"
  by (simp_all add: appendField_def)

lemma appendField_commute [simp]:
  "appendField fd (setSlot k c i s) = setSlot k c i (appendField fd s)"
  "appendField fd (s\<lparr>tsParentID := c\<rparr>) = (appendField fd s)\<lparr>tsParentID := c\<rparr>"
  "appendField fd (s\<lparr>tsNaturalID := c\<rparr>) = (appendField fd s)\<lparr>tsNaturalID := c\<rparr>"
  by (simp_all add: appendField_def setSlot.simps)

lemma appendFields_commute:
  "sfGo f \<noteq> sfGo g \<Longrightarrow> sfColumn f \<noteq> sfColumn g \<Longrightarrow> sameSchema (appendField f (appendField g s)) (appendField g (appendField f s))"
  by (simp add: sameSchema_def appendField_def fun_upd_twist)

lemma setSlot_parent [simp]:
  "setSlot k c i (s\<lparr>tsParentID := d\<rparr>) = (setSlot k c i s)\<lparr>tsParentID := d\<rparr>"
  "setSlot k c i (s\<lparr>tsNaturalID := d\<rparr>) = (setSlot k c i s)\<lparr>tsNaturalID := d\<rparr>"
  by (simp_all add: setSlot.simps)

lemma sameSchema_refl [simp]: "sameSchema s s" by (simp add: sameSchema_def)

lemma exchange_slots:
  assumes "admits (ClaimSlot k c i) s" "admits (ClaimSlot l d j) (setSlot k c i s)" "c \<noteq> []" "d \<noteq> []" "k < 5" "l < 5"
  shows "admits (ClaimSlot l d j) s \<and> admits (ClaimSlot k c i) (setSlot l d j s) \<and>
    setSlot k c i (setSlot l d j s) = setSlot l d j (setSlot k c i s)"
proof -
  from assms have "k \<noteq> l" by (auto simp: slots_setSlot)
  moreover from assms have "slots s ! k = []" "slots s ! l = []"
    using \<open>k \<noteq> l\<close> by (simp_all add: slots_setSlot)
  ultimately have "admits (ClaimSlot l d j) s \<and> admits (ClaimSlot k c i) (setSlot l d j s)"
    using assms in_slots_update [of k s d c] in_slots_update [of l s c d] by (auto simp: slots_setSlot)
  then show ?thesis using setSlot_commute [OF assms(5,6) \<open>k \<noteq> l\<close>] by blast
qed

lemma exchange_slot:
  assumes "admits (ClaimSlot k c i) s" "admits b (setSlot k c i s)" "c \<noteq> []" "claimColumn b \<noteq> []" "k < 5" "slotIndexOk b"
    "\<not> (k = 4 \<and> isParent b)"
  shows "admits b s \<and> admits (ClaimSlot k c i) (effect b s) \<and>
    sameSchema (setSlot k c i (effect b s)) (effect b (setSlot k c i s))"
proof (cases b)
  case (ClaimSlot l d j)
  with assms have "admits (ClaimSlot l d j) (setSlot k c i s)" "d \<noteq> []" "l < 5" by simp_all
  from exchange_slots [OF assms(1) this(1) assms(3) this(2) assms(5) this(3)] show ?thesis
    unfolding ClaimSlot effect.simps by (metis sameSchema_refl)
next
  case (ClaimField fd)
  with assms show ?thesis using in_slots_update [of k s "sfColumn fd" c] by (auto simp: slots_setSlot)
next
  case (ClaimParent d)
  with assms show ?thesis by simp
next
  case (ClaimNatural d)
  with assms show ?thesis by simp
qed

lemma sameSchema_swap:
  "sameSchema (s\<lparr>tsNaturalID := x, tsParentID := c\<rparr>) (s\<lparr>tsParentID := c, tsNaturalID := x\<rparr>)"
  "sameSchema (s\<lparr>tsParentID := c, tsNaturalID := x\<rparr>) (s\<lparr>tsNaturalID := x, tsParentID := c\<rparr>)"
  by (simp_all add: sameSchema_def)

lemma exchange_parent:
  assumes "admits (ClaimParent c) s" "admits b (s\<lparr>tsParentID := c\<rparr>)" "c \<noteq> []" "claimColumn b \<noteq> []" "slotIndexOk b"
    "\<not> isRevision b"
  shows "admits b s \<and> admits (ClaimParent c) (effect b s) \<and> sameSchema ((effect b s)\<lparr>tsParentID := c\<rparr>) (effect b (s\<lparr>tsParentID := c\<rparr>))"
  using assms by (cases b) (auto simp: slots_setSlot sameSchema_swap)

lemma exchange_natural:
  assumes "admits (ClaimNatural c) s" "admits b (s\<lparr>tsNaturalID := c\<rparr>)" "c \<noteq> []" "claimColumn b \<noteq> []" "slotIndexOk b"
  shows "admits b s \<and> admits (ClaimNatural c) (effect b s) \<and> sameSchema ((effect b s)\<lparr>tsNaturalID := c\<rparr>) (effect b (s\<lparr>tsNaturalID := c\<rparr>))"
  using assms by (cases b) (auto simp: slots_setSlot sameSchema_swap)

lemma exchange_field:
  assumes "admits (ClaimField fd) s" "admits b (appendField fd s)" "sfColumn fd \<noteq> []" "claimColumn b \<noteq> []" "slotIndexOk b"
  shows "admits b s \<and> admits (ClaimField fd) (effect b s) \<and> sameSchema (appendField fd (effect b s)) (effect b (appendField fd s))"
proof (cases b)
  case (ClaimSlot l d j)
  with assms show ?thesis by (auto simp: slots_setSlot in_slots_update split: if_splits)
next
  case (ClaimField ge)
  with assms show ?thesis using appendFields_commute [of fd ge s] by (auto split: if_splits)
qed (use assms in \<open>auto split: if_splits\<close>)

lemma admits_exchange:
  assumes "admits a s" "admits b (effect a s)" "claimColumn a \<noteq> []" "claimColumn b \<noteq> []" "slotIndexOk a" "slotIndexOk b"
    "\<not> (isRevision a \<and> isParent b)" "\<not> (isParent a \<and> isRevision b)"
  shows "admits b s \<and> admits a (effect b s) \<and> sameSchema (effect a (effect b s)) (effect b (effect a s))"
proof (cases a)
  case (ClaimSlot k c i)
  with assms exchange_slot [of k c i s b] show ?thesis by simp
next
  case (ClaimParent c)
  with assms exchange_parent [of c s b] show ?thesis by simp
next
  case (ClaimNatural c)
  with assms exchange_natural [of c s b] show ?thesis by simp
next
  case (ClaimField fd)
  with assms exchange_field [of fd s b] show ?thesis by simp
qed

subsection \<open>The claim of a declaration\<close>

text \<open>
  What a declaration claims, from the parts of the schema that no declaration changes: its type and
  its kind. None when the declaration panics on any schema of that kind.
\<close>

definition idIndexOf :: "TableSchema \<Rightarrow> nat option" where
  "idIndexOf s = (case tsTyp s of None \<Rightarrow> None | Some t \<Rightarrow> exportedFieldIndex t ''ID'')"

definition fieldAllowed :: "string \<Rightarrow> string \<Rightarrow> redactedFieldSpec \<Rightarrow> TableSchema \<Rightarrow> bool" where
  "fieldAllowed g c spec s \<longleftrightarrow>
     g \<noteq> ''ID'' \<and> g \<noteq> ''ParentID'' \<and> mustNotReservedColumn c = None \<and> \<not> (rsLabelKey spec \<noteq> [] \<and> tsTyp s \<noteq> None) \<and>
     (case tsTyp s of
        None \<Rightarrow> True
      | Some t \<Rightarrow>
          (case exportedFieldIndex t g of
             None \<Rightarrow> False
           | Some i \<Rightarrow> mustNotCompositeField g (memberType (members t ! i)) = None))"

definition fieldClaim ::
  "(schemaField \<Rightarrow> schemaField) \<Rightarrow> string \<Rightarrow> string \<Rightarrow> redactedFieldSpec \<Rightarrow> TableSchema \<Rightarrow> claim option" where
  "fieldClaim mark g c spec s =
     (if fieldAllowed g c spec s
      then (case typedField g c spec s of Inl p \<Rightarrow> None | Inr fd \<Rightarrow> Some (ClaimField (mark fd)))
      else None)"

definition stampClaim ::
  "(reflectType \<Rightarrow> schemaPanic option) \<Rightarrow> (schemaField \<Rightarrow> schemaField) \<Rightarrow> string \<Rightarrow> string \<Rightarrow> TableSchema \<Rightarrow> claim option" where
  "stampClaim ty mark g c s =
     (if tsSecondary s \<or> (tsTyp s = None \<and> \<not> tsIsSharedBase s) then None
      else case tsTyp s of
        None \<Rightarrow> fieldClaim mark g c emptySpec s
      | Some t \<Rightarrow>
          (case typedField g c emptySpec s of
             Inl p \<Rightarrow> None
           | Inr fd \<Rightarrow> if ty (memberType (members t ! (sfPath fd ! 0))) = None then fieldClaim mark g c emptySpec s else None))"

definition slotClaim :: "nat \<Rightarrow> string \<Rightarrow> nat option \<Rightarrow> TableSchema \<Rightarrow> claim option" where
  "slotClaim k c i s = (if \<not> tsSecondary s \<and> mustNotReservedColumn c = None then Some (ClaimSlot k c i) else None)"

fun claimOf :: "schemaDecl \<Rightarrow> TableSchema \<Rightarrow> claim option" where
  "claimOf (DeclID c) s =
     (if tsDirect s \<longrightarrow> requireIDField s (idIndexOf s) = None then slotClaim 0 c (idIndexOf s) s else None)"
| "claimOf (DeclArchivedAt c) s = slotClaim 1 c None s"
| "claimOf (DeclCreatedAt c) s = slotClaim 2 c None s"
| "claimOf (DeclUpdatedAt c) s = slotClaim 3 c None s"
| "claimOf (DeclRevision c) s = slotClaim 4 c None s"
| "claimOf (DeclParentID c) s =
     (if \<not> tsSecondary s \<and> tsBaseLink s = None \<and> mustNotReservedColumn c = None then Some (ClaimParent c) else None)"
| "claimOf (DeclNaturalID c) s = (if tsIsSharedBase s then Some (ClaimNatural c) else None)"
| "claimOf (DeclField g c ls) s =
     (case ls of
        [] \<Rightarrow> fieldClaim (\<lambda>f. f) g c emptySpec s
      | [lk] \<Rightarrow> fieldClaim (\<lambda>f. f) g c (emptySpec\<lparr>rsLabelKey := lk\<rparr>) s
      | _ \<Rightarrow> None)"
| "claimOf (DeclRedacted g c spec) s =
     (if redactorDeclared (rsInSync spec) \<and> redactorDeclared (rsInAudit spec) then fieldClaim (\<lambda>f. f) g c spec s else None)"
| "claimOf (DeclStampedTime g c) s = stampClaim (mustStampedTimeType g) (\<lambda>fd. fd\<lparr>sfStamped := True\<rparr>) g c s"
| "claimOf (DeclStampedCounter g c) s =
     stampClaim (mustStampedCounterType g) (\<lambda>fd. fd\<lparr>sfStamped := True, sfStampedCounter := True\<rparr>) g c s"
| "claimOf (DeclOrphanPolicy p) s = None"
| "claimOf (DeclComposite v) s = None"

text \<open>The declarations the result is about, with the columns they name.\<close>

fun declColumn :: "schemaDecl \<Rightarrow> string" where
  "declColumn (DeclID c) = c"
| "declColumn (DeclParentID c) = c"
| "declColumn (DeclArchivedAt c) = c"
| "declColumn (DeclCreatedAt c) = c"
| "declColumn (DeclUpdatedAt c) = c"
| "declColumn (DeclRevision c) = c"
| "declColumn (DeclNaturalID c) = c"
| "declColumn (DeclField g c ls) = c"
| "declColumn (DeclRedacted g c spec) = c"
| "declColumn (DeclStampedTime g c) = c"
| "declColumn (DeclStampedCounter g c) = c"
| "declColumn (DeclOrphanPolicy p) = []"
| "declColumn (DeclComposite v) = []"

definition frameOk :: "TableSchema \<Rightarrow> bool" where
  "frameOk s \<longleftrightarrow> (tsTyp s = None \<longrightarrow> tsIdIndex s = None)"

lemma slot_free:
  assumes "c \<noteq> []" "slots s ! k = []"
    "(self, k) \<in> {(''ID'', 0), (''ArchivedAt'', 1), (''CreatedAt'', 2), (''UpdatedAt'', 3), (''Revision'', 4)}"
  shows "ensureColumnFree c self s = None \<longleftrightarrow> tsByCol s c = None \<and> c \<notin> set (slots s)"
  using assms by (auto simp: ensureColumnFree_def slots_def)

lemma slots_nth [simp]:
  "slots s ! 0 = tsIdColumn s" "slots s ! 1 = tsArchivedAt s" "slots s ! Suc 0 = tsArchivedAt s" "slots s ! 2 = tsCreatedAt s"
  "slots s ! 3 = tsUpdatedAt s" "slots s ! 4 = tsRevision s"
  by (simp_all add: slots_def)

lemma slot_claims:
  assumes "c \<noteq> []"
  shows "schema_ArchivedAt c s = Inr s' \<longleftrightarrow> (\<exists>cl. slotClaim 1 c None s = Some cl \<and> admits cl s \<and> s' = effect cl s)"
    and "schema_CreatedAt c s = Inr s' \<longleftrightarrow> (\<exists>cl. slotClaim 2 c None s = Some cl \<and> admits cl s \<and> s' = effect cl s)"
    and "schema_UpdatedAt c s = Inr s' \<longleftrightarrow> (\<exists>cl. slotClaim 3 c None s = Some cl \<and> admits cl s \<and> s' = effect cl s)"
    and "Revision c s = Inr s' \<longleftrightarrow> (\<exists>cl. slotClaim 4 c None s = Some cl \<and> admits cl s \<and> s' = effect cl s)"
    and "frameOk s \<Longrightarrow> schema_ID c s = Inr s' \<longleftrightarrow> (\<exists>cl. claimOf (DeclID c) s = Some cl \<and> admits cl s \<and> s' = effect cl s)"
proof -
  note free = slot_free [OF assms, of s]
  show "schema_ArchivedAt c s = Inr s' \<longleftrightarrow> (\<exists>cl. slotClaim 1 c None s = Some cl \<and> admits cl s \<and> s' = effect cl s)"
    using free [of 1 "''ArchivedAt''"] by (auto simp: slot_defs slotClaim_def setSlot.simps)
  show "schema_CreatedAt c s = Inr s' \<longleftrightarrow> (\<exists>cl. slotClaim 2 c None s = Some cl \<and> admits cl s \<and> s' = effect cl s)"
    using free [of 2 "''CreatedAt''"] by (auto simp: slot_defs slotClaim_def setSlot.simps)
  show "schema_UpdatedAt c s = Inr s' \<longleftrightarrow> (\<exists>cl. slotClaim 3 c None s = Some cl \<and> admits cl s \<and> s' = effect cl s)"
    using free [of 3 "''UpdatedAt''"] by (auto simp: slot_defs slotClaim_def setSlot.simps)
  show "Revision c s = Inr s' \<longleftrightarrow> (\<exists>cl. slotClaim 4 c None s = Some cl \<and> admits cl s \<and> s' = effect cl s)"
    using free [of 4 "''Revision''"] assms by (auto simp: slot_defs slotClaim_def setSlot.simps)
  show "schema_ID c s = Inr s' \<longleftrightarrow> (\<exists>cl. claimOf (DeclID c) s = Some cl \<and> admits cl s \<and> s' = effect cl s)" if "frameOk s"
    using free [of 0 "''ID''"] assms that
    by (auto simp: slot_defs slotClaim_def setSlot.simps idIndexOf_def frameOk_def split: option.splits if_splits)
qed

lemma mustFit_declared: "mustFit g a sc r = Inr r' \<Longrightarrow> redactorDeclared r' = redactorDeclared r"
  by (cases r) (auto simp: mustFit_def mustFitFixed_def split: if_splits option.splits goVal.splits)

lemma typedField_redacted:
  assumes "typedField g c spec s = Inr fd"
  shows "isRedacted fd \<longleftrightarrow> redactorDeclared (rsInSync spec) \<or> redactorDeclared (rsInAudit spec)"
proof -
  from assms obtain fd1 sc sync audit where "mustFit g ''InSync'' sc (rsInSync spec) = Inr sync"
    "mustFit g ''InAudit'' sc (rsInAudit spec) = Inr audit" "fd = fd1\<lparr>sfInSync := sync, sfInAudit := audit\<rparr>"
    unfolding typedField_def Let_def by (auto split: sum.splits)
  then show ?thesis by (auto simp: isRedacted_def dest!: mustFit_declared)
qed

lemma declareChecks_claim:
  assumes "c \<noteq> []"
  shows "(\<forall>x\<in>set (declareChecks g c spec s). x = None) \<longleftrightarrow>
    fieldAllowed g c spec s \<and> tsByGo s g = None \<and> tsByCol s c = None \<and> c \<notin> set (slots s) \<and> c \<noteq> tsParentID s \<and>
    (redactorDeclared (rsInSync spec) \<or> redactorDeclared (rsInAudit spec) \<longrightarrow> c \<noteq> tsNaturalID s)"
  using assms
  by (auto simp: declareChecks_def fieldAllowed_def mustClaimNames_def mustNotRedactNaturalKey_def slots_def
      split: option.splits if_splits)

lemma declareField_iff:
  "declareField g c spec s = Inr s' \<longleftrightarrow>
     (\<forall>x\<in>set (declareChecks g c spec s). x = None) \<and> (\<exists>fd. typedField g c spec s = Inr fd \<and> s' = appendField fd s)"
  unfolding declareField_def panic_case_Inr firstPanic_None
  by (cases "typedField g c spec s") auto

lemma declareField_claim:
  assumes "c \<noteq> []"
  shows "declareField g c spec s = Inr s' \<longleftrightarrow>
    (\<exists>cl. fieldClaim (\<lambda>f. f) g c spec s = Some cl \<and> admits cl s \<and> s' = effect cl s)"
proof (cases "typedField g c spec s")
  case (Inr fd)
  with typedField_names [OF Inr] typedField_redacted [OF Inr] show ?thesis
    unfolding declareField_iff declareChecks_claim [OF assms] fieldClaim_def by auto
qed (simp add: declareField_iff fieldClaim_def)

lemma stampedField_claim:
  assumes "c \<noteq> []" and m: "\<And>fd. sfGo (m fd) = sfGo fd \<and> sfColumn (m fd) = sfColumn fd \<and> isRedacted (m fd) = isRedacted fd"
  shows "stampedField verb ty m g c s = Inr s' \<longleftrightarrow>
    (\<exists>cl. stampClaim ty m g c s = Some cl \<and> admits cl s \<and> s' = effect cl s)"
proof (cases "typedField g c emptySpec s")
  case (Inl p)
  then have "declareField g c emptySpec s \<noteq> Inr s1" for s1 by (simp add: declareField_iff)
  then have "stampedField verb ty m g c s \<noteq> Inr s'"
    by (auto simp: stampedField_def split: sum.splits)
  with Inl show ?thesis by (auto simp: stampClaim_def fieldClaim_def split: option.splits if_splits)
next
  case (Inr fd)
  let ?ty = "case tsTyp s of None \<Rightarrow> None | Some t \<Rightarrow> ty (memberType (members t ! (sfPath fd ! 0)))"
  have last: "last (tsFields (appendField fd s)) = fd" "tsTyp (appendField fd s) = tsTyp s"
    by (simp_all add: appendField_def)
  have "stampedField verb ty m g c s = Inr s' \<longleftrightarrow>
      \<not> tsSecondary s \<and> \<not> (tsTyp s = None \<and> \<not> tsIsSharedBase s) \<and>
      declareField g c emptySpec s = Inr (appendField fd s) \<and> ?ty = None \<and> s' = markLast m (appendField fd s)"
  proof (cases "declareField g c emptySpec s")
    case (Inr s1)
    then have "s1 = appendField fd s" using \<open>typedField _ _ _ _ = Inr fd\<close> by (simp add: declareField_iff)
    with Inr show ?thesis by (cases "tsTyp s") (auto simp: stampedField_def last)
  qed (simp add: stampedField_def)
  also have "markLast m (appendField fd s) = appendField (m fd) s" using m by (simp add: markLast_append)
  finally show ?thesis
    using typedField_names [OF Inr] typedField_redacted [OF Inr] m [of fd] Inr
    unfolding declareField_iff declareChecks_claim [OF assms(1)]
    by (auto simp: stampClaim_def fieldClaim_def split: option.splits)
qed

lemma declare1_claim:
  assumes "declColumn d \<noteq> []" "frameOk s"
  shows "declare1 d s = Inr s' \<longleftrightarrow> (\<exists>cl. claimOf d s = Some cl \<and> admits cl s \<and> s' = effect cl s)"
proof (cases d)
  case (DeclField g c ls)
  then show ?thesis using assms(1) by (auto simp: schema_Field_def declareField_claim split: list.splits)
next
  case (DeclStampedTime g c)
  then show ?thesis using assms(1) by (simp add: StampedTimeField_def stampedField_claim isRedacted_def)
next
  case (DeclStampedCounter g c)
  then show ?thesis using assms(1) by (simp add: StampedCounterField_def stampedField_claim isRedacted_def)
next
  case (DeclParentID c)
  then show ?thesis using assms by (auto simp: schema_ParentID_def mustNotRedeclare_def)
next
  case (DeclNaturalID c)
  then show ?thesis using assms
    by (auto simp: NaturalID_def mustNotRedeclare_def mustNotRedactNaturalIDColumn_def isRedacted_def split: option.splits)
next
  case (DeclRedacted g c spec)
  then show ?thesis using assms(1) by (simp add: RedactedField_def declareField_claim)
next
  case (DeclID c)
  then show ?thesis using assms slot_claims(5) [of c s s'] by simp
qed (use assms slot_claims in simp_all)

subsection \<open>Permuted declarations\<close>

definition frame :: "TableSchema \<Rightarrow> reflectType option \<times> bool \<times> bool \<times> bool \<times> sharedBaseLink option" where
  "frame s = (tsTyp s, tsSecondary s, tsDirect s, tsIsSharedBase s, tsBaseLink s)"

lemma typedField_frame: "tsTyp s = tsTyp t \<Longrightarrow> typedField g c spec s = typedField g c spec t"
  by (simp add: typedField_def)

lemma claimOf_frame:
  assumes "frame s = frame t"
  shows "claimOf d s = claimOf d t"
proof -
  from assms have same: "tsTyp s = tsTyp t" "tsSecondary s = tsSecondary t" "tsDirect s = tsDirect t"
    "tsIsSharedBase s = tsIsSharedBase t" "tsBaseLink s = tsBaseLink t"
    by (simp_all add: frame_def)
  have slot: "slotClaim k c i s = slotClaim k c i t" for k c i by (simp add: slotClaim_def same)
  have field: "fieldClaim m g c spec s = fieldClaim m g c spec t" for m g c spec
    by (simp add: fieldClaim_def fieldAllowed_def same typedField_frame [OF same(1)])
  have stamp: "stampClaim ty m g c s = stampClaim ty m g c t" for ty m g c
    unfolding stampClaim_def same typedField_frame [OF same(1)] field by (rule refl)
  have iden: "idIndexOf s = idIndexOf t" by (simp add: idIndexOf_def same)
  have req: "requireIDField s i = None \<longleftrightarrow> requireIDField t i = None" for i
    by (cases i; cases "tsTyp t") (simp_all add: requireIDField_def same)
  show ?thesis by (cases d) (simp_all add: slot field stamp iden req same split: list.split)
qed

lemma frame_effect [simp]: "frame (effect cl s) = frame s"
  by (cases cl) (simp_all add: frame_def setSlot.simps appendField_def)

lemma claimOf_shape:
  assumes "claimOf d s = Some cl"
  shows "claimColumn cl = declColumn d \<and> slotIndexOk cl \<and> (isParent cl \<longrightarrow> d = DeclParentID (declColumn d)) \<and>
    (isRevision cl \<longrightarrow> d = DeclRevision (declColumn d))"
  using assms
  by (cases d) (auto simp: slotClaim_def fieldClaim_def stampClaim_def split: if_splits option.splits list.splits sum.splits
      dest!: typedField_names)

lemma frameOk_effect: "claimOf d s = Some cl \<Longrightarrow> frameOk s \<Longrightarrow> frameOk (effect cl s)"
  by (cases d) (auto simp: slotClaim_def fieldClaim_def stampClaim_def frameOk_def idIndexOf_def setSlot.simps appendField_def
      split: if_splits option.splits list.splits sum.splits)

lemma declare1_frame: "declColumn d \<noteq> [] \<Longrightarrow> declare1 d s = Inr s' \<Longrightarrow> frameOk s \<Longrightarrow> frameOk s' \<and> frame s' = frame s"
  using frameOk_effect by (auto simp: declare1_claim)

lemma sameSchema_reads:
  assumes "sameSchema s t"
  shows "frame s = frame t" "admits cl s = admits cl t" "sameSchema (effect cl s) (effect cl t)" "frameOk s = frameOk t"
proof -
  from assms obtain fs where t: "t = s\<lparr>tsFields := fs\<rparr>" "mset fs = mset (tsFields s)"
    unfolding sameSchema_def by (metis TableSchema.surjective TableSchema.update_convs(7))
  show "frame s = frame t" "frameOk s = frameOk t" by (simp_all add: t frame_def frameOk_def)
  show "admits cl s = admits cl t" by (cases cl) (simp_all add: t)
  show "sameSchema (effect cl s) (effect cl t)"
    by (cases cl) (simp_all add: t sameSchema_def setSlot.simps appendField_def)
qed

lemma sameSchema_sym: "sameSchema s t \<Longrightarrow> sameSchema t s"
  by (simp add: sameSchema_def)

lemma sameSchema_trans: "sameSchema s t \<Longrightarrow> sameSchema t u \<Longrightarrow> sameSchema s u"
  by (simp add: sameSchema_def)

lemma declare1_same:
  assumes "sameSchema s t" "declare1 d s = Inr s'" "declColumn d \<noteq> []" "frameOk s"
  shows "\<exists>t'. declare1 d t = Inr t' \<and> sameSchema s' t'"
  using assms sameSchema_reads [OF assms(1)] claimOf_frame [of s t d] by (auto simp: declare1_claim)

lemma declareAll_same:
  "sameSchema s t \<Longrightarrow> declareAll ds s = Inr s' \<Longrightarrow> \<forall>d\<in>set ds. declColumn d \<noteq> [] \<Longrightarrow> frameOk s \<Longrightarrow>
   \<exists>t'. declareAll ds t = Inr t' \<and> sameSchema s' t'"
proof (induction ds arbitrary: s t)
  case (Cons d ds)
  then obtain s1 where s1: "declare1 d s = Inr s1" "declareAll ds s1 = Inr s'" by (auto split: sum.splits)
  from declare1_same [OF Cons.prems(1) s1(1)] Cons.prems obtain t1 where "declare1 d t = Inr t1" "sameSchema s1 t1" by auto
  with Cons.IH [OF this(2) s1(2)] Cons.prems declare1_frame [OF _ s1(1)] show ?case by simp
qed auto

text \<open>Two declarations that do not meet the one pair whose order is observed.\<close>

definition exchangeable :: "schemaDecl list \<Rightarrow> bool" where
  "exchangeable ds \<longleftrightarrow>
     (\<forall>d\<in>set ds. declColumn d \<noteq> []) \<and>
     \<not> ((\<exists>d\<in>set ds. d = DeclParentID (declColumn d)) \<and> (\<exists>d\<in>set ds. d = DeclRevision (declColumn d)))"

lemma declare_swap:
  assumes "declare1 d s = Inr s1" "declare1 e s1 = Inr s2" "exchangeable [d, e]" "frameOk s"
  shows "\<exists>t1 t2. declare1 e s = Inr t1 \<and> declare1 d t1 = Inr t2 \<and> sameSchema t2 s2"
proof -
  from assms(3) have cols: "declColumn d \<noteq> []" "declColumn e \<noteq> []" by (simp_all add: exchangeable_def)
  from assms(1) cols obtain a where a: "claimOf d s = Some a" "admits a s" "s1 = effect a s"
    using assms(4) by (auto simp: declare1_claim)
  have ok1: "frameOk s1" using frameOk_effect [OF a(1) assms(4)] by (simp add: a(3))
  from assms(2) cols ok1 obtain b where b: "claimOf e s1 = Some b" "admits b s1" "s2 = effect b s1"
    by (auto simp: declare1_claim)
  have be: "claimOf e s = Some b" using b(1) claimOf_frame [of s1 s e] a(3) by simp
  from claimOf_shape [OF a(1)] claimOf_shape [OF be] assms(3) cols
  have "claimColumn a \<noteq> []" "claimColumn b \<noteq> []" "slotIndexOk a" "slotIndexOk b"
    "\<not> (isRevision a \<and> isParent b)" "\<not> (isParent a \<and> isRevision b)"
    by (auto simp: exchangeable_def)
  from admits_exchange [OF a(2) b(2) [unfolded a(3)] this]
  have x: "admits b s" "admits a (effect b s)" "sameSchema (effect a (effect b s)) (effect b (effect a s))" by auto
  have "declare1 e s = Inr (effect b s)" using cols assms(4) be x(1) by (auto simp: declare1_claim)
  moreover have "declare1 d (effect b s) = Inr (effect a (effect b s))"
    using cols frameOk_effect [OF be assms(4)] claimOf_frame [of "effect b s" s d] a(1) x(2) by (auto simp: declare1_claim)
  ultimately show ?thesis using x(3) b(3) a(3) by auto
qed

lemma declare_front:
  "declareAll (xs @ d # ys) s = Inr s' \<Longrightarrow> exchangeable (xs @ d # ys) \<Longrightarrow> frameOk s \<Longrightarrow>
   \<exists>t. declareAll (d # xs @ ys) s = Inr t \<and> sameSchema t s'"
proof (induction xs arbitrary: s)
  case (Cons x xs)
  then obtain s1 where s1: "declare1 x s = Inr s1" "declareAll (xs @ d # ys) s1 = Inr s'" by (auto split: sum.splits)
  from Cons.prems(2) have cols: "\<forall>e\<in>set (x # d # xs @ ys). declColumn e \<noteq> []"
    and ex: "exchangeable (xs @ d # ys)" "exchangeable [x, d]"
    by (auto simp: exchangeable_def)
  have ok1: "frameOk s1" using declare1_frame [OF _ s1(1) Cons.prems(3)] cols by simp
  from Cons.IH [OF s1(2) ex(1) ok1] obtain t where t: "declareAll (d # xs @ ys) s1 = Inr t" "sameSchema t s'" by blast
  then obtain s2 where s2: "declare1 d s1 = Inr s2" "declareAll (xs @ ys) s2 = Inr t" by (auto split: sum.splits)
  from declare_swap [OF s1(1) s2(1) ex(2) Cons.prems(3)] obtain t1 t2
    where sw: "declare1 d s = Inr t1" "declare1 x t1 = Inr t2" "sameSchema t2 s2" by blast
  have ok2: "frameOk s2" using declare1_frame [OF _ s2(1) ok1] cols by simp
  from declareAll_same [OF sameSchema_sym [OF sw(3)] s2(2) _ ok2] cols
  obtain t' where "declareAll (xs @ ys) t2 = Inr t'" "sameSchema t t'" by auto
  moreover from this(2) t(2) have "sameSchema t' s'" using sameSchema_sym sameSchema_trans by blast
  ultimately show ?case using sw(1,2) by simp
next
  case Nil
  then have "declareAll (d # [] @ ys) s = Inr s'" by simp
  then show ?case by (intro exI conjI) (assumption, rule sameSchema_refl)
qed

lemma declare_permuted:
  "mset ds = mset es \<Longrightarrow> declareAll ds s = Inr s' \<Longrightarrow> exchangeable ds \<Longrightarrow> frameOk s \<Longrightarrow>
   \<exists>t. declareAll es s = Inr t \<and> sameSchema t s'"
proof (induction es arbitrary: ds s s')
  case (Cons e es)
  from Cons.prems(1) have "e \<in> set ds" by (metis list.set_intros(1) set_mset_mset)
  then obtain xs ys where ds: "ds = xs @ e # ys" by (meson split_list)
  from Cons.prems(2-4) obtain t where t: "declareAll (e # xs @ ys) s = Inr t" "sameSchema t s'"
    unfolding ds using declare_front by blast
  then obtain s1 where s1: "declare1 e s = Inr s1" "declareAll (xs @ ys) s1 = Inr t" by (auto split: sum.splits)
  from Cons.prems(3) have ex: "exchangeable (xs @ ys)" "declColumn e \<noteq> []" unfolding ds exchangeable_def by auto
  have "mset (xs @ ys) = mset es" using Cons.prems(1) ds by simp
  from Cons.IH [OF this s1(2) ex(1)] declare1_frame [OF ex(2) s1(1) Cons.prems(4)] obtain u
    where "declareAll es s1 = Inr u" "sameSchema u t" by blast
  moreover from this(2) t(2) have "sameSchema u s'" by (rule sameSchema_trans)
  ultimately show ?case using s1(1) by simp
qed simp

lemma exchangeable_mset: "mset ds = mset es \<Longrightarrow> exchangeable ds = exchangeable es"
  by (auto simp: exchangeable_def dest: mset_eq_setD)

lemma construct_frameOk: "construct k table = Inr s \<Longrightarrow> frameOk s"
  by (cases k) (auto simp: frameOk_def NewTableSchema_def NewSiblingSchema_def NewDirectSchema_def NewExternalSchema_def
      NewSharedBaseSchema_def newSchema_def Let_def map_sum_def split: if_splits)

lemma build_permuted:
  assumes "mset ds = mset es" "build k table ds = Inr s" "exchangeable ds"
  shows "\<exists>t. build k table es = Inr t \<and> sameSchema t s"
  using assms declare_permuted [OF assms(1) _ assms(3) construct_frameOk]
  by (auto simp: build_def split: sum.splits)



end
