(* ===== verification/Schema_Copies.thy ===== *)
theory Schema_Copies
  imports Schema_Order
begin

text \<open>
  The copies made of a row: what redaction hides of it and that it keeps the type of each column, and
  that the stamps written back onto the entity are those that the statement writes.
\<close>

subsection \<open>Fields of an anchored schema\<close>

text \<open>A redactor that was accepted for a scalar.\<close>

fun fits :: "reflectType \<Rightarrow> Redactor \<Rightarrow> bool" where
  "fits t (RedactWith x) = (typeOfFixed x = Some t)"
| "fits t (RedactKeepLast n) = (0 < n \<and> t = TyString)"
| "fits t (RedactUsing f) = (f \<noteq> None \<and> t = TyString)"
| "fits t _ = True"

definition anchoredField :: "reflectType \<Rightarrow> schemaField \<Rightarrow> bool" where
  "anchoredField t f \<longleftrightarrow>
     (case sfVOType f of
        Some vo \<Rightarrow> \<not> sfStamped f
      | None \<Rightarrow>
          (\<exists>i. exportedFieldIndex t (sfGo f) = Some i \<and> sfPath f = [i] \<and>
             fits (effectiveScalar (memberType (members t ! i))) (sfInSync f) \<and>
             fits (effectiveScalar (memberType (members t ! i))) (sfInAudit f) \<and>
             (sfStamped f \<longrightarrow> (if sfStampedCounter f then memberType (members t ! i) \<in> {TyInt64, TyPtr TyInt64}
                               else memberType (members t ! i) = TyPtr TyTime))))"

definition anchoredSchema :: "reflectType \<Rightarrow> TableSchema \<Rightarrow> bool" where
  "anchoredSchema t s \<longleftrightarrow> tsTyp s = Some t \<and> \<not> tsIsSharedBase s \<and> (\<forall>f\<in>set (tsFields s). anchoredField t f)"

lemma anchoredField_plain:
  assumes "anchoredSchema t s" "f \<in> set (tsFields s)" "sfVOType f = None"
  obtains i where "exportedFieldIndex t (sfGo f) = Some i" "sfPath f = [i]"
    "fits (effectiveScalar (memberType (members t ! i))) (sfInSync f)"
    "fits (effectiveScalar (memberType (members t ! i))) (sfInAudit f)"
    "sfStamped f \<longrightarrow> (if sfStampedCounter f then memberType (members t ! i) \<in> {TyInt64, TyPtr TyInt64}
                               else memberType (members t ! i) = TyPtr TyTime)"
proof -
  from assms have "anchoredField t f" by (simp add: anchoredSchema_def)
  with assms(3) that show thesis by (simp only: anchoredField_def option.case) blast
qed

lemma mustFit_fits: "mustFit g a (Some t) r = Inr r' \<Longrightarrow> fits t r'"
  by (cases r) (auto simp: mustFit_def mustFitFixed_def mustStringScalar_def split: if_splits option.splits goVal.splits)

lemma applyTyping_keeps:
  "applyTyping ft f = Inr g \<Longrightarrow> sfPath g = sfPath f \<and> sfVOType g = sfVOType f \<and> sfStamped g = sfStamped f \<and>
    sfStampedCounter g = sfStampedCounter f"
  by (auto simp: applyTyping_def split: option.splits)

lemma typedField_anchored:
  assumes "typedField g c spec s = Inr fd" "tsTyp s = Some t" "exportedFieldIndex t g = Some i"
  shows "sfPath fd = [i] \<and> sfVOType fd = None \<and> \<not> sfStamped fd \<and> \<not> sfStampedCounter fd \<and>
    fits (effectiveScalar (memberType (members t ! i))) (sfInSync fd) \<and>
    fits (effectiveScalar (memberType (members t ! i))) (sfInAudit fd)"
proof -
  from assms obtain fd1 sync audit where
    "applyTyping (memberType (members t ! i)) ((plainField g c)\<lparr>sfLabelKey := rsLabelKey spec, sfPath := [i]\<rparr>) = Inr fd1"
    "mustFit g ''InSync'' (Some (effectiveScalar (memberType (members t ! i)))) (rsInSync spec) = Inr sync"
    "mustFit g ''InAudit'' (Some (effectiveScalar (memberType (members t ! i)))) (rsInAudit spec) = Inr audit"
    "fd = fd1\<lparr>sfInSync := sync, sfInAudit := audit\<rparr>"
    unfolding typedField_def Let_def by (auto split: sum.splits)
  then show ?thesis by (auto simp: plainField_def dest!: applyTyping_keeps intro: mustFit_fits)
qed

lemma anchored_append: "anchoredSchema t s \<Longrightarrow> anchoredField t fd \<Longrightarrow> anchoredSchema t (appendField fd s)"
  by (simp add: anchoredSchema_def appendField_def)

lemma declareField_index:
  "\<forall>x\<in>set (declareChecks g c spec s). x = None \<Longrightarrow> tsTyp s = Some t \<Longrightarrow> \<exists>i. exportedFieldIndex t g = Some i"
  by (auto simp: declareChecks_def split: option.splits)

lemma declareField_anchored:
  assumes "declareField g c spec s = Inr s'" "anchoredSchema t s"
  shows "anchoredSchema t s'"
proof -
  from assms(1) obtain fd where fd: "typedField g c spec s = Inr fd" "s' = appendField fd s" "sfGo fd = g"
    "\<forall>x\<in>set (declareChecks g c spec s). x = None" by (rule declareFieldE)
  from assms(2) have t: "tsTyp s = Some t" by (simp add: anchoredSchema_def)
  from declareField_index [OF fd(4) t] typedField_anchored [OF fd(1) t] show ?thesis
    unfolding fd(2) by (intro anchored_append assms(2)) (auto simp: anchoredField_def fd(3))
qed

lemma stampedField_anchored:
  assumes "stampedField verb ty m g c s = Inr s'" "anchoredSchema t s"
    and m: "\<And>fd. sfGo (m fd) = sfGo fd \<and> sfColumn (m fd) = sfColumn fd \<and> sfPath (m fd) = sfPath fd \<and>
      sfVOType (m fd) = sfVOType fd \<and> sfInSync (m fd) = sfInSync fd \<and> sfInAudit (m fd) = sfInAudit fd"
    and cnt: "\<And>fd. \<not> sfStampedCounter fd \<Longrightarrow> sfStampedCounter (m fd) = cnt"
    and ty: "\<And>ft. ty ft = None \<Longrightarrow> if cnt then ft \<in> {TyInt64, TyPtr TyInt64} else ft = TyPtr TyTime"
  shows "anchoredSchema t s'"
proof -
  from assms(1) m obtain fd where fd: "typedField g c emptySpec s = Inr fd" "s' = appendField (m fd) s" "sfGo fd = g"
    "\<forall>x\<in>set (declareChecks g c emptySpec s). x = None"
    "\<forall>t. tsTyp s = Some t \<longrightarrow> ty (memberType (members t ! (sfPath fd ! 0))) = None"
    by (elim stampedFieldE) auto
  from assms(2) have t: "tsTyp s = Some t" by (simp add: anchoredSchema_def)
  from declareField_index [OF fd(4) t] obtain i where i: "exportedFieldIndex t g = Some i" by blast
  note a = typedField_anchored [OF fd(1) t i]
  have "ty (memberType (members t ! i)) = None" using fd(5) t a by simp
  from ty [OF this] a i m [of fd] cnt [of fd] have "anchoredField t (m fd)"
    by (cases cnt) (simp_all add: anchoredField_def fd(3))
  then show ?thesis unfolding fd(2) by (rule anchored_append [OF assms(2)])
qed

lemma attachParts_anchored:
  "attachParts vo pre ps s = Inr s' \<Longrightarrow> anchoredSchema t s \<Longrightarrow> anchoredSchema t s'"
proof (induction ps arbitrary: s)
  case (Cons p ps)
  then obtain s1 where s1: "attachPart vo pre p s = Inr s1" "attachParts vo pre ps s1 = Inr s'"
    by (auto split: sum.splits)
  from s1(1) obtain fd where "s1 = appendField fd s" "sfVOType fd = Some vo" "\<not> sfStamped fd"
    by (auto simp: attachPart_def Let_def map_sum_def plainField_def split: option.splits sum.splits dest!: applyTyping_keeps)
  with Cons.prems(2) have "anchoredSchema t s1" by (simp add: anchored_append anchoredField_def)
  with Cons.IH [OF s1(2)] show ?case by simp
qed simp

lemma declare1_anchored:
  assumes "declare1 d s = Inr s'" "anchoredSchema t s"
  shows "anchoredSchema t s'"
proof (cases d)
  case (DeclField g c ls)
  with assms show ?thesis by (auto simp: schema_Field_def split: list.splits intro: declareField_anchored)
next
  case (DeclRedacted g c r)
  with assms show ?thesis by (auto simp: RedactedField_def split: if_splits intro: declareField_anchored)
next
  case (DeclStampedTime g c)
  with assms(1) have "stampedField ''StampedTimeField'' (mustStampedTimeType g) (\<lambda>fd. fd\<lparr>sfStamped := True\<rparr>) g c s = Inr s'"
    by (simp add: StampedTimeField_def)
  then show ?thesis
    by (rule stampedField_anchored [OF _ assms(2), where cnt = False]) (simp_all add: mustStampedTimeType_def)
next
  case (DeclStampedCounter g c)
  with assms(1) have "stampedField ''StampedCounterField'' (mustStampedCounterType g)
      (\<lambda>fd. fd\<lparr>sfStamped := True, sfStampedCounter := True\<rparr>) g c s = Inr s'"
    by (simp add: StampedCounterField_def)
  then show ?thesis
    by (rule stampedField_anchored [OF _ assms(2), where cnt = True]) (auto simp: mustStampedCounterType_def)
next
  case (DeclComposite v)
  with assms obtain pre s1 where "attachParts (cvType v) pre (cvParts v) s = Inr s1"
    "s' = s1\<lparr>tsComposites := tsComposites s1 @ [(cvType v, pre)]\<rparr>" by (auto elim: CompositeE)
  with attachParts_anchored assms(2) show ?thesis by (fastforce simp: anchoredSchema_def)
qed (use assms in \<open>auto simp: slot_defs schema_ParentID_def NaturalID_def setOrphanPolicy_def anchoredSchema_def\<close>)

lemma build_anchored:
  assumes "build (KindTable T) table ds = Inr s"
  shows "anchoredSchema (stripPointers T) s"
proof -
  from assms obtain s0 where s0: "NewTableSchema T table = Inr s0" "declareAll ds s0 = Inr s"
    by (auto simp: build_def split: sum.splits)
  from s0(1) have "anchoredSchema (stripPointers T) s0"
    by (auto simp: NewTableSchema_def anchoredSchema_def newSchema_def Let_def split: if_splits)
  with s0(2) show ?thesis by (rule declareAll_invariant) (rule declare1_anchored)
qed

subsection \<open>Redacted copies\<close>

fun hasScalar :: "goVal \<Rightarrow> reflectType \<Rightarrow> bool" where
  "hasScalar GNil t = True"
| "hasScalar (GPtr v) t = hasScalar v t"
| "hasScalar (GStr x) t = (t = TyString)"
| "hasScalar (GNum u n) t = (t = u)"
| "hasScalar (GID i) t = (t = TyID)"
| "hasScalar (GTime i) t = (t = TyTime)"
| "hasScalar (GOther n) t = (t \<in> {TyBool, TyBytes, TyRawMessage})"
| "hasScalar _ t = False"

lemma Apply_keeps_scalar:
  assumes "redactor_Apply sprint r v = Inr w" "fits t r" "hasScalar v t"
  shows "hasScalar w t \<and> (w = GNil \<longleftrightarrow> v = GNil)"
proof (cases "\<not> redactorActive r \<or> v = GNil")
  case False
  have fixed: "hasScalar x t \<and> x \<noteq> GNil" if "typeOfFixed x = Some t" for x using that by (cases x) auto
  from False assms fixed show ?thesis
    by (cases r) (auto simp: redactor_Apply_def Let_def split: if_splits option.splits)
qed (use assms in \<open>auto simp: redactor_Apply_def\<close>)

definition redactedTo :: "(goVal \<Rightarrow> string) \<Rightarrow> Redactor \<Rightarrow> goVal option \<Rightarrow> goVal option \<Rightarrow> bool" where
  "redactedTo sprint r x y \<longleftrightarrow>
     (case x of None \<Rightarrow> y = None | Some v \<Rightarrow> \<exists>w. redactor_Apply sprint r v = Inr w \<and> y = Some w)"

lemma redactKey_spec:
  assumes "redactKey sprint r k m = Inr m1"
  shows "redactedTo sprint r (m k) (m1 k) \<and> (\<forall>j. j \<noteq> k \<longrightarrow> m1 j = m j)"
  using assms
  by (auto simp: redactKey_def redactor_Apply_def redactedTo_def map_sum_def split: if_splits option.splits sum.splits)

lemma redactKeys_spec:
  "redactKeys sprint rks m = Inr m' \<Longrightarrow> distinct (map snd rks) \<Longrightarrow>
   (\<forall>x\<in>set rks. redactedTo sprint (fst x) (m (snd x)) (m' (snd x))) \<and> (\<forall>k. k \<notin> snd ` set rks \<longrightarrow> m' k = m k)"
proof (induction rks arbitrary: m)
  case (Cons rk rks)
  obtain r k where rk: "rk = (r, k)" by (cases rk)
  with Cons.prems obtain m1 where m1: "redactKey sprint r k m = Inr m1" "redactKeys sprint rks m1 = Inr m'"
    by (auto split: sum.splits)
  have d: "distinct (map snd rks)" "k \<notin> snd ` set rks" using Cons.prems(2) rk by auto
  from Cons.IH [OF m1(2) d(1)] have rest: "\<forall>x\<in>set rks. redactedTo sprint (fst x) (m1 (snd x)) (m' (snd x))"
    and keep: "\<forall>j. j \<notin> snd ` set rks \<longrightarrow> m' j = m1 j" by blast+
  note first = redactKey_spec [OF m1(1)]
  have "m' k = m1 k" using keep d(2) by blast
  moreover have "m1 (snd x) = m (snd x)" if "x \<in> set rks" for x using first d(2) that by (metis image_eqI)
  ultimately show ?case using rest keep first unfolding rk by simp
qed simp

text \<open>C25: on a schema anchored on a Go type, redaction keeps the type of every column it masks, for the
  payload of a write as for the audit trail: a value of the scalar type of the field is replaced by a
  value of the same type, absence stays absence and presence stays presence, and the map keeps
  exactly its keys.
\<close>

theorem redacted_copy_keeps_the_column_type:
  assumes "build (KindTable T) table ds = Inr s" "f \<in> set (tsFields s)" "sfVOType f = None"
    "TypeIn (sfPath f) (stripPointers T) = Some ft" "hasScalar v (effectiveScalar ft)"
  shows "(m (sfColumn f) = Some v \<longrightarrow> RedactSyncColumns sprint s m = Inr m' \<longrightarrow>
      dom m' = dom m \<and> (\<exists>w. m' (sfColumn f) = Some w \<and> hasScalar w (effectiveScalar ft) \<and> (w = GNil \<longleftrightarrow> v = GNil))) \<and>
    (m (sfGo f) = Some v \<longrightarrow> RedactAuditValues sprint s m = Inr m' \<longrightarrow>
      dom m' = dom m \<and> (\<exists>w. m' (sfGo f) = Some w \<and> hasScalar w (effectiveScalar ft) \<and> (w = GNil \<longleftrightarrow> v = GNil)))"
proof -
  let ?t = "stripPointers T"
  obtain i where i: "exportedFieldIndex ?t (sfGo f) = Some i" "sfPath f = [i]"
    and fit: "fits (effectiveScalar (memberType (members ?t ! i))) (sfInSync f)"
      "fits (effectiveScalar (memberType (members ?t ! i))) (sfInAudit f)"
    by (rule anchoredField_plain [OF build_anchored [OF assms(1)] assms(2,3)])
  have strip: "stripPointers (stripPointers T) = stripPointers T" by (induction T rule: stripPointers.induct) auto
  from assms(4) i(2) have ft: "ft = memberType (members ?t ! i)"
    by (auto simp: TypeIn_def Let_def strip split: if_splits)
  have d: "distinct (map sfGo (tsFields s))" "distinct (map sfColumn (tsFields s))"
    using build_wf [OF assms(1)] by (simp_all add: schemaWf_def)
  have masks: "dom m' = dom m \<and> (\<exists>w. m' (key f) = Some w \<and> hasScalar w (effectiveScalar ft) \<and> (w = GNil \<longleftrightarrow> v = GNil))"
    if "redactKeys sprint (map (\<lambda>f. (red f, key f)) (tsFields s)) m = Inr m'" "distinct (map key (tsFields s))"
      "m (key f) = Some v" "fits (effectiveScalar ft) (red f)" for red key
  proof -
    from that(2) have "distinct (map snd (map (\<lambda>f. (red f, key f)) (tsFields s)))" by (simp add: comp_def)
    from redactKeys_spec [OF that(1) this]
    have each: "\<forall>g\<in>set (tsFields s). redactedTo sprint (red g) (m (key g)) (m' (key g))"
      and other: "\<forall>k. k \<notin> key ` set (tsFields s) \<longrightarrow> m' k = m k" by (simp_all add: image_image)
    have "m' k = None \<longleftrightarrow> m k = None" for k
    proof (cases "k \<in> key ` set (tsFields s)")
      case True
      then obtain g where "g \<in> set (tsFields s)" "k = key g" by blast
      with each show ?thesis by (cases "m k") (auto simp: redactedTo_def dest!: bspec [where x = g])
    qed (use other in simp)
    then have "dom m' = dom m" by (simp add: dom_def)
    moreover from each assms(2) that(3) obtain w where "redactor_Apply sprint (red f) v = Inr w" "m' (key f) = Some w"
      by (auto simp: redactedTo_def dest!: bspec [where x = f])
    ultimately show ?thesis using Apply_keeps_scalar [OF _ that(4) assms(5)] by blast
  qed
  show ?thesis unfolding RedactSyncColumns_def RedactAuditValues_def
    using masks [of sfInSync sfColumn] masks [of sfInAudit sfGo] d fit by (simp add: ft)
qed

theorem redacted_copy_keeps_the_column_type_witness:
  "\<exists>m'. RedactSyncColumns (\<lambda>v. []) demoSchema [''account'' \<mapsto> GStr ''12345678''] = Inr m' \<and>
     (\<exists>w. m' ''account'' = Some w \<and> hasScalar w TyString) \<and> m' ''account'' = Some (GStr ''****5678'')"
proof -
  define m where "m = [''account'' \<mapsto> GStr ''12345678'']"
  define m' where "m' = projr (RedactSyncColumns (\<lambda>v. []) demoSchema m)"
  let ?f = "tsFields demoSchema ! 3"
  have "3 < length (tsFields demoSchema)" by code_simp
  then have f: "?f \<in> set (tsFields demoSchema)" by (rule nth_mem)
  have g: "sfVOType ?f = None" "sfColumn ?f = ''account''"
    "TypeIn (sfPath ?f) (stripPointers demoPerson) = Some TyString" "effectiveScalar TyString = TyString"
    by code_simp+
  have "\<not> isl (RedactSyncColumns (\<lambda>v. []) demoSchema m)" unfolding m_def by code_simp
  then have r: "RedactSyncColumns (\<lambda>v. []) demoSchema m = Inr m'" by (simp add: m'_def)
  have "m' ''account'' = Some (GStr ''****5678'')" unfolding m'_def m_def by code_simp
  with redacted_copy_keeps_the_column_type [OF demo_builds f g(1,3), of "GStr ''12345678''" m "\<lambda>v. []" m'] r g
  show ?thesis unfolding m_def by auto
qed

text \<open>Two values that a redactor leaves nothing to tell apart by.\<close>

fun sameVisible :: "(goVal \<Rightarrow> string) \<Rightarrow> Redactor \<Rightarrow> goVal \<Rightarrow> goVal \<Rightarrow> bool" where
  "sameVisible sprint (RedactWith x) v w \<longleftrightarrow> (v = GNil \<longleftrightarrow> w = GNil)"
| "sameVisible sprint (RedactKeepLast n) v w \<longleftrightarrow>
     (v = GNil \<longleftrightarrow> w = GNil) \<and>
     (let a = runeChunks (redactableString sprint v); b = runeChunks (redactableString sprint w) in
      length a = length b \<and> (int (length a) \<le> n \<or> drop (length a - nat n) a = drop (length b - nat n) b))"
| "sameVisible sprint (RedactUsing (Some f)) v w \<longleftrightarrow>
     (v = GNil \<longleftrightarrow> w = GNil) \<and> f (redactableString sprint v) = f (redactableString sprint w) \<and>
     (redactableString sprint v = [] \<longleftrightarrow> redactableString sprint w = [])"
| "sameVisible sprint r v w \<longleftrightarrow> v = w"

lemma maskKeepLast_same:
  assumes "length (runeChunks x) = length (runeChunks y)"
    "int (length (runeChunks x)) \<le> n \<or> drop (length (runeChunks x) - nat n) (runeChunks x) = drop (length (runeChunks y) - nat n) (runeChunks y)"
  shows "maskKeepLast x n = maskKeepLast y n"
proof (cases "n < 0 \<or> int (length (runeChunks x)) \<le> n")
  case False
  then have "nat (int (length (runeChunks x)) - n) = length (runeChunks x) - nat n" by linarith
  with False assms show ?thesis by (auto simp: maskKeepLast_def Let_def)
qed (use assms in \<open>auto simp: maskKeepLast_def Let_def\<close>)

lemma Apply_same:
  assumes "sameVisible sprint r v w"
  shows "redactor_Apply sprint r v = redactor_Apply sprint r w"
proof (cases r)
  case (RedactKeepLast n)
  with assms maskKeepLast_same [of "redactableString sprint v" "redactableString sprint w" n] show ?thesis
    by (auto simp: redactor_Apply_def Let_def)
next
  case (RedactUsing g)
  with assms show ?thesis by (cases g) (auto simp: redactor_Apply_def Let_def)
qed (use assms in \<open>auto simp: redactor_Apply_def\<close>)

lemma redactKeys_same:
  "distinct (map snd rks) \<Longrightarrow> \<forall>x\<in>set rks. rel_option (sameVisible sprint (fst x)) (m (snd x)) (n (snd x)) \<Longrightarrow>
   \<forall>k. k \<notin> snd ` set rks \<longrightarrow> m k = n k \<Longrightarrow> redactKeys sprint rks m = redactKeys sprint rks n"
proof (induction rks arbitrary: m n)
  case (Cons rk rks)
  obtain r k where rk: "rk = (r, k)" by (cases rk)
  from Cons.prems(1) rk have k: "k \<notin> snd ` set rks" by auto
  from Cons.prems(2) rk have vis: "rel_option (sameVisible sprint r) (m k) (n k)" by simp
  have inactive: "m k = n k" if "\<not> redactorActive r"
    using vis that by (cases "m k"; cases "n k"; cases r) (auto split: option.splits)
  have next_same: "redactKeys sprint rks m1 = redactKeys sprint rks n1"
    if "m1 k = n1 k" "\<forall>j. j \<noteq> k \<longrightarrow> m1 j = m j \<and> n1 j = n j" for m1 n1
  proof (rule Cons.IH)
    show "distinct (map snd rks)" using Cons.prems(1) by simp
    show "\<forall>x\<in>set rks. rel_option (sameVisible sprint (fst x)) (m1 (snd x)) (n1 (snd x))"
      using Cons.prems(2) that(2) k by (metis image_eqI list.set_intros(2))
    show "\<forall>j. j \<notin> snd ` set rks \<longrightarrow> m1 j = n1 j"
      using Cons.prems(3) that rk by (metis (no_types, lifting) image_insert insert_iff list.simps(15) snd_conv)
  qed
  show ?case
  proof (cases "redactorActive r")
    case False
    with inactive next_same [of m n] show ?thesis by (simp add: rk redactKey_def)
  next
    case True
    show ?thesis
    proof (cases "m k")
      case None
      with vis have "n k = None" by simp
      with None True next_same [of m n] show ?thesis by (simp add: rk redactKey_def)
    next
      case (Some v)
      with vis obtain w where w: "n k = Some w" "sameVisible sprint r v w" by (auto simp: option_rel_Some1)
      with Some True Apply_same [OF w(2)] next_same [of "m(k \<mapsto> _)" "n(k \<mapsto> _)"] show ?thesis
        by (cases "redactor_Apply sprint r w") (simp_all add: rk redactKey_def)
    qed
  qed
qed auto

lemma rel_option_cases:
  "rel_option R x y \<longleftrightarrow> (case (x, y) of (Some v, Some w) \<Rightarrow> R v w | (None, None) \<Rightarrow> True | _ \<Rightarrow> False)"
  by (cases x; cases y) simp_all

text \<open>C18: what redaction hides does not reach the copy. Two writes whose columns agree except for what
  the declared redactors mask - the whole of a replaced value, all but the last runes of a value kept by
  its end - give the same outbox payload, whatever else the map carries.
\<close>

theorem redacted_payload_hides_the_masked_part:
  assumes "build k table ds = Inr s"
    "\<forall>f\<in>set (tsFields s). rel_option (sameVisible sprint (sfInSync f)) (m (sfColumn f)) (n (sfColumn f))"
    "\<forall>c. c \<notin> sfColumn ` set (tsFields s) \<longrightarrow> m c = n c"
  shows "RedactSyncColumns sprint s m = RedactSyncColumns sprint s n"
  unfolding RedactSyncColumns_def
proof (rule redactKeys_same)
  show "distinct (map snd (map (\<lambda>f. (sfInSync f, sfColumn f)) (tsFields s)))"
    using build_wf [OF assms(1)] by (simp add: schemaWf_def comp_def)
qed (use assms(2,3) in \<open>auto simp: image_image\<close>)

theorem redacted_payload_hides_the_masked_part_witness:
  "RedactSyncColumns (\<lambda>v. []) demoSchema [''account'' \<mapsto> GStr ''12345678'', ''name'' \<mapsto> GStr ''Ana''] =
   RedactSyncColumns (\<lambda>v. []) demoSchema [''account'' \<mapsto> GStr ''99995678'', ''name'' \<mapsto> GStr ''Ana'']"
proof -
  define m where "m = [''account'' \<mapsto> GStr ''12345678'', ''name'' \<mapsto> GStr ''Ana'']"
  define n where "n = [''account'' \<mapsto> GStr ''99995678'', ''name'' \<mapsto> GStr ''Ana'']"
  have "\<forall>f\<in>set (tsFields demoSchema). rel_option (sameVisible (\<lambda>v. []) (sfInSync f)) (m (sfColumn f)) (n (sfColumn f))"
    unfolding m_def n_def rel_option_cases by code_simp
  moreover have "\<forall>c. c \<notin> sfColumn ` set (tsFields demoSchema) \<longrightarrow> m c = n c"
  proof -
    have "\<exists>f\<in>set (tsFields demoSchema). sfColumn f = ''account''" by code_simp
    then show ?thesis unfolding m_def n_def by force
  qed
  ultimately have "RedactSyncColumns (\<lambda>v. []) demoSchema m = RedactSyncColumns (\<lambda>v. []) demoSchema n"
    by (rule redacted_payload_hides_the_masked_part [OF demo_builds])
  then show ?thesis unfolding m_def n_def .
qed

subsection \<open>Stamps\<close>

lemma wantedOps_app: "wantedOps reqs want g = (case List.find (\<lambda>r. Field r = g) (rev reqs) of Some r \<Rightarrow> Some (Op r) | None \<Rightarrow> want g)"
  by (induction reqs arbitrary: want) (auto simp: find_append split: option.splits)

lemma wantedOps_distinct:
  assumes "distinct (map Field reqs)"
  shows "wantedOps reqs Map.empty g = Some op \<longleftrightarrow> \<lparr>Field = g, Op = op\<rparr> \<in> set reqs"
  using assms
proof (induction reqs rule: rev_induct)
  case (snoc r reqs)
  have "wantedOps (reqs @ [r]) Map.empty = (wantedOps reqs Map.empty)(Field r \<mapsto> Op r)"
    by (simp add: fun_eq_iff wantedOps_app)
  moreover have "r = \<lparr>Field = Field r, Op = Op r\<rparr>" by simp
  ultimately show ?case using snoc by (cases r) (auto simp: image_iff)
qed simp

text \<open>The claims of a list of fields whose names are distinct.\<close>

lemma claimRequests_spec:
  "claimRequests s fs want = Inr (claimed, rest) \<Longrightarrow> distinct (map sfGo fs) \<Longrightarrow>
   claimed = map (\<lambda>f. \<lparr>csColumn = sfColumn f, csOp = the (want (sfGo f)), csCounter = sfStampedCounter f\<rparr>)
     (filter (\<lambda>f. sfStamped f \<and> want (sfGo f) \<noteq> None) fs) \<and>
   (\<forall>g. rest g = (if \<exists>f\<in>set fs. sfStamped f \<and> sfGo f = g then None else want g)) \<and>
   (\<forall>f\<in>set fs. sfStamped f \<and> want (sfGo f) = Some StampToNull \<longrightarrow> StampedFieldAcceptsNull s (sfGo f))"
proof (induction fs arbitrary: want claimed rest)
  case (Cons f fs)
  from Cons.prems(2) have d: "distinct (map sfGo fs)" "sfGo f \<notin> sfGo ` set fs" by auto
  show ?case
  proof (cases "want (sfGo f) = None \<or> \<not> sfStamped f")
    case True
    then have "claimRequests s fs want = Inr (claimed, rest)" using Cons.prems(1) by (auto split: option.splits)
    from Cons.IH [OF this d(1)] True show ?thesis by auto
  next
    case False
    then obtain op where op: "want (sfGo f) = Some op" "sfStamped f" by auto
    from Cons.prems(1) op have nn: "\<not> (op = StampToNull \<and> \<not> StampedFieldAcceptsNull s (sfGo f))"
      by (auto split: if_splits)
    with Cons.prems(1) op obtain cs where cs: "claimRequests s fs (want(sfGo f := None)) = Inr (cs, rest)"
      "claimed = \<lparr>csColumn = sfColumn f, csOp = op, csCounter = sfStampedCounter f\<rparr> # cs"
      by (cases "claimRequests s fs (want(sfGo f := None))") (auto simp: apfst_def map_prod_def)
    have same: "(want(sfGo f := None)) (sfGo g) = want (sfGo g)" if "g \<in> set fs" for g
    proof -
      have "sfGo g \<noteq> sfGo f" using d(2) that by (metis imageI)
      then show ?thesis by simp
    qed
    have filt: "filter (\<lambda>g. sfStamped g \<and> (want(sfGo f := None)) (sfGo g) \<noteq> None) fs =
        filter (\<lambda>g. sfStamped g \<and> want (sfGo g) \<noteq> None) fs"
      by (rule filter_cong [OF refl]) (simp only: same)
    note ih = Cons.IH [OF cs(1) d(1)]
    have "cs = map (\<lambda>f. \<lparr>csColumn = sfColumn f, csOp = the (want (sfGo f)), csCounter = sfStampedCounter f\<rparr>)
        (filter (\<lambda>g. sfStamped g \<and> want (sfGo g) \<noteq> None) fs)"
      using ih same unfolding filt by auto
    moreover have "\<forall>g\<in>set fs. sfStamped g \<and> want (sfGo g) = Some StampToNull \<longrightarrow> StampedFieldAcceptsNull s (sfGo g)"
      using ih same by auto
    ultimately show ?thesis using cs(2) op nn ih by auto
  qed
qed simp

lemma leftRequests_empty: "leftRequests reqs rest = [] \<Longrightarrow> \<forall>r\<in>set reqs. rest (Field r) = None"
  by (induction reqs) (auto split: if_splits)

lemma StampRequestColumnsE:
  assumes "StampRequestColumns s reqs = Inr claimed"
  obtains rest where "claimRequests s (tsFields s) (wantedOps reqs Map.empty) = Inr (claimed, rest)"
    "\<forall>r\<in>set reqs. rest (Field r) = None"
proof -
  from assms obtain rest where r: "claimRequests s (tsFields s) (wantedOps reqs Map.empty) = Inr (claimed, rest)"
    "RefuseUnclaimedStamps s (leftRequests reqs rest) = None"
    by (auto simp: StampRequestColumns_def ClaimStampRequests_def split: sum.splits option.splits prod.splits)
  from r(2) have "leftRequests reqs rest = []" by (auto simp: RefuseUnclaimedStamps_def split: list.splits)
  with r(1) leftRequests_empty that show thesis by blast
qed

text \<open>Accepted requests name stamped fields only, and are claimed in the order of the declarations.\<close>

lemma accepted_requests:
  assumes "schemaWf s" "StampRequestColumns s reqs = Inr claimed" "distinct (map Field reqs)"
  shows "\<And>f. f \<in> set (tsFields s) \<Longrightarrow> sfGo f \<in> Field ` set reqs \<Longrightarrow> sfStamped f"
    and "claimed = map (\<lambda>f. \<lparr>csColumn = sfColumn f, csOp = the (wantedOps reqs Map.empty (sfGo f)),
      csCounter = sfStampedCounter f\<rparr>) (filter (\<lambda>f. sfGo f \<in> Field ` set reqs) (tsFields s))"
    and "\<forall>f\<in>set (tsFields s). sfStamped f \<and> wantedOps reqs Map.empty (sfGo f) = Some StampToNull \<longrightarrow>
      StampedFieldAcceptsNull s (sfGo f)"
proof -
  have d: "distinct (map sfGo (tsFields s))" using assms(1) by (simp add: schemaWf_def)
  obtain rest where rest: "claimRequests s (tsFields s) (wantedOps reqs Map.empty) = Inr (claimed, rest)"
    "\<forall>r\<in>set reqs. rest (Field r) = None"
    using StampRequestColumnsE [OF assms(2)] by blast
  note spec = claimRequests_spec [OF rest(1) d] and want = wantedOps_distinct [OF assms(3)]
  have asked: "wantedOps reqs Map.empty g \<noteq> None \<longleftrightarrow> g \<in> Field ` set reqs" for g
  proof -
    have "wantedOps reqs Map.empty g \<noteq> None \<longleftrightarrow> (\<exists>op. \<lparr>Field = g, Op = op\<rparr> \<in> set reqs)" using want by auto
    also have "\<dots> \<longleftrightarrow> g \<in> Field ` set reqs"
    proof
      assume "g \<in> Field ` set reqs"
      then obtain r where "r \<in> set reqs" "g = Field r" by blast
      moreover have "r = \<lparr>Field = Field r, Op = Op r\<rparr>" by simp
      ultimately show "\<exists>op. \<lparr>Field = g, Op = op\<rparr> \<in> set reqs" by metis
    qed force
    finally show ?thesis .
  qed
  show stamped: "sfStamped f" if "f \<in> set (tsFields s)" "sfGo f \<in> Field ` set reqs" for f
  proof -
    from that(2) rest(2) asked have "rest (sfGo f) = None" "wantedOps reqs Map.empty (sfGo f) \<noteq> None" by auto
    moreover have "rest (sfGo f) = (if \<exists>h\<in>set (tsFields s). sfStamped h \<and> sfGo h = sfGo f then None
        else wantedOps reqs Map.empty (sfGo f))" using spec by blast
    ultimately obtain g where g: "g \<in> set (tsFields s)" "sfStamped g" "sfGo g = sfGo f" by (auto split: if_splits)
    moreover have "inj_on sfGo (set (tsFields s))" using d by (simp add: distinct_map)
    ultimately show ?thesis using that(1) inj_onD by metis
  qed
  have cols: "filter (\<lambda>f. sfStamped f \<and> wantedOps reqs Map.empty (sfGo f) \<noteq> None) (tsFields s) =
      filter (\<lambda>f. sfGo f \<in> Field ` set reqs) (tsFields s)"
    by (rule filter_cong [OF refl], unfold asked) (use stamped in blast)
  show "claimed = map (\<lambda>f. \<lparr>csColumn = sfColumn f, csOp = the (wantedOps reqs Map.empty (sfGo f)),
      csCounter = sfStampedCounter f\<rparr>) (filter (\<lambda>f. sfGo f \<in> Field ` set reqs) (tsFields s))"
    using spec unfolding cols by blast
  show "\<forall>f\<in>set (tsFields s). sfStamped f \<and> wantedOps reqs Map.empty (sfGo f) = Some StampToNull \<longrightarrow>
      StampedFieldAcceptsNull s (sfGo f)"
    using spec by blast
qed

definition stampIndex :: "TableSchema \<Rightarrow> reflectType \<Rightarrow> string \<Rightarrow> nat option" where
  "stampIndex s T g = (case tsByGo s g of None \<Rightarrow> None | Some f \<Rightarrow> if sfStamped f then stampTargetIn s T f else None)"

lemma applyStamps_Cons:
  "applyStamps s T now (r # rs) vs = applyStamps s T now rs
     (case stampIndex s T (Field r) of None \<Rightarrow> vs | Some i \<Rightarrow> vs[i := applyStampTo (memberType (members T ! i)) (Op r) now (vs ! i)])"
  by (simp add: stampIndex_def split: option.split)

declare applyStamps.simps(2) [simp del]

lemma applyStamps_spec:
  assumes "\<forall>g h i. stampIndex s T g = Some i \<longrightarrow> stampIndex s T h = Some i \<longrightarrow> g = h"
  shows "distinct (map Field reqs) \<Longrightarrow>
    length (applyStamps s T now reqs vs) = length vs \<and>
    (\<forall>r\<in>set reqs. \<forall>i<length vs. stampIndex s T (Field r) = Some i \<longrightarrow>
       applyStamps s T now reqs vs ! i = applyStampTo (memberType (members T ! i)) (Op r) now (vs ! i)) \<and>
    (\<forall>i<length vs. (\<forall>r\<in>set reqs. stampIndex s T (Field r) \<noteq> Some i) \<longrightarrow> applyStamps s T now reqs vs ! i = vs ! i)"
proof (induction reqs arbitrary: vs)
  case (Cons r rs)
  define us where "us = (case stampIndex s T (Field r) of None \<Rightarrow> vs
    | Some i \<Rightarrow> vs[i := applyStampTo (memberType (members T ! i)) (Op r) now (vs ! i)])"
  have step: "applyStamps s T now (r # rs) vs = applyStamps s T now rs us" by (simp add: applyStamps_Cons us_def)
  have len: "length us = length vs" by (simp add: us_def split: option.split)
  have here: "us ! i = applyStampTo (memberType (members T ! i)) (Op r) now (vs ! i)"
    if "stampIndex s T (Field r) = Some i" "i < length vs" for i using that by (simp add: us_def)
  have there: "us ! i = vs ! i" if "stampIndex s T (Field r) \<noteq> Some i" for i
    using that by (auto simp: us_def split: option.split)
  have apart: "stampIndex s T (Field x) \<noteq> Some i" if "x \<in> set rs" "stampIndex s T (Field r) = Some i" for x i
    using assms that Cons.prems by (metis distinct.simps(2) imageI list.set_map list.simps(9))
  from Cons.prems have "distinct (map Field rs)" by simp
  note ih = Cons.IH [OF this, of us, unfolded len]
  have "applyStamps s T now rs us ! i = applyStampTo (memberType (members T ! i)) (Op x) now (vs ! i)"
    if "x \<in> set (r # rs)" "i < length vs" "stampIndex s T (Field x) = Some i" for x i
  proof (cases "x = r")
    case True
    with that ih apart here show ?thesis by auto
  next
    case False
    with that have "x \<in> set rs" by simp
    with apart that(3) have "stampIndex s T (Field r) \<noteq> Some i" by blast
    with there ih that \<open>x \<in> set rs\<close> show ?thesis by auto
  qed
  with ih there show ?case unfolding step by auto
qed simp

lemma anchored_stampIndex:
  assumes "anchoredSchema t s" "schemaWf s" "stampIndex s t g = Some i"
  shows "exportedFieldIndex t g = Some i"
proof -
  from assms(3) obtain f where f: "tsByGo s g = Some f" "sfStamped f" "stampTargetIn s t f = Some i"
    by (auto simp: stampIndex_def split: option.splits if_splits)
  from f(1) assms(2) have m: "f \<in> set (tsFields s)" "sfGo f = g"
    by (auto simp: schemaWf_def dest!: map_of_SomeD)
  have plain: "sfVOType f = None"
  proof (rule ccontr)
    assume "sfVOType f \<noteq> None"
    with assms(1) m(1) f(2) show False by (auto simp: anchoredSchema_def anchoredField_def)
  qed
  obtain j where "exportedFieldIndex t (sfGo f) = Some j" "sfPath f = [j]"
    by (rule anchoredField_plain [OF assms(1) m(1) plain])
  with f(3) m(2) assms(1) show ?thesis by (auto simp: stampTargetIn_def anchoredSchema_def split: if_splits)
qed

lemma exportedFieldIndex_inj:
  assumes "exportedFieldIndex t g = Some i" "exportedFieldIndex t h = Some i"
  shows "g = h"
proof -
  have "memberName (members t ! i) = x" if "exportedFieldIndex t x = Some i" for x
    using that nth_length_takeWhile [of "\<lambda>m. memberName m \<noteq> x" "members t"]
    by (auto simp: exportedFieldIndex_def Let_def split: if_splits)
  from this [OF assms(1)] this [OF assms(2)] show ?thesis by simp
qed

lemma exportedFieldIndex_bound: "exportedFieldIndex t g = Some i \<Longrightarrow> i < length (members t)"
  by (auto simp: exportedFieldIndex_def Let_def split: if_splits)

text \<open>What the statement puts into the column, as far as the framework knows it.\<close>

fun stampedTo :: "bool \<Rightarrow> StampOp \<Rightarrow> int \<Rightarrow> goVal \<Rightarrow> goVal" where
  "stampedTo counter StampToNull now v = GNil"
| "stampedTo counter StampToEmpty now v = (if counter then GNum TyInt64 0 else GTime zeroInstant)"
| "stampedTo counter StampFill now v = (if counter then v else GTime now)"

lemma applyStampTo_value:
  assumes "if counter then ft \<in> {TyInt64, TyPtr TyInt64} else ft = TyPtr TyTime"
    "op = StampToNull \<longrightarrow> ft \<noteq> TyInt64"
  shows "derefValue (applyStampTo ft op now v) = stampedTo counter op now (derefValue v)"
  using assms by (cases op) (auto simp: applyStampTo_def split: if_splits)

lemma stamp_of_field:
  assumes a: "anchoredSchema t s" and wf: "schemaWf s" and f: "f \<in> set (tsFields s)" "sfStamped f"
  obtains i where "sfPath f = [i]" "stampIndex s t (sfGo f) = Some i" "exportedFieldIndex t (sfGo f) = Some i"
    "if sfStampedCounter f then memberType (members t ! i) \<in> {TyInt64, TyPtr TyInt64} else memberType (members t ! i) = TyPtr TyTime"
    "StampedFieldAcceptsNull s (sfGo f) \<longrightarrow> memberType (members t ! i) \<noteq> TyInt64"
proof -
  have plain: "sfVOType f = None"
  proof (rule ccontr)
    assume "sfVOType f \<noteq> None"
    with a f show False by (auto simp: anchoredSchema_def anchoredField_def)
  qed
  obtain i where i: "exportedFieldIndex t (sfGo f) = Some i" "sfPath f = [i]"
    "if sfStampedCounter f then memberType (members t ! i) \<in> {TyInt64, TyPtr TyInt64} else memberType (members t ! i) = TyPtr TyTime"
    using f(2) by (metis anchoredField_plain [OF a f(1) plain])
  have look: "tsByGo s (sfGo f) = Some f"
    using wf f(1) by (auto simp: schemaWf_def comp_def intro!: map_of_is_SomeI)
  have "stampIndex s t (sfGo f) = Some i"
    using look f(2) a i exportedFieldIndex_bound [OF i(1)] by (simp add: stampIndex_def stampTargetIn_def anchoredSchema_def)
  moreover have "StampedFieldAcceptsNull s (sfGo f) \<longrightarrow> memberType (members t ! i) \<noteq> TyInt64"
    using look f(2) a i by (auto simp: StampedFieldAcceptsNull_def anchoredSchema_def split: if_splits)
  ultimately show thesis using that i by blast
qed

text \<open>C26: for a schema anchored on a Go type and requests that name each field once, as the entity keeps
  them: when the requests are accepted, the statement's columns are those of the requested fields, in
  the order of their declarations, each with its verb; and the entity then holds what the statement
  writes - the operation's instant, the empty value or nil, while a counter to be incremented keeps its
  old value - with every other field as it was.
\<close>

theorem stamped_entity_matches_the_statement:
  assumes "build (KindTable T) table ds = Inr s" "StampRequestColumns s reqs = Inr claimed" "distinct (map Field reqs)"
    "length vs = length (members (stripPointers T))"
    "ApplyStamps s (stripPointers T) (GPtr (GStruct vs)) reqs now = GPtr (GStruct us)"
  shows "map csColumn claimed = map sfColumn (filter (\<lambda>f. sfGo f \<in> Field ` set reqs) (tsFields s)) \<and>
    (\<forall>f\<in>set (tsFields s). \<forall>op. \<lparr>Field = sfGo f, Op = op\<rparr> \<in> set reqs \<longrightarrow>
       \<lparr>csColumn = sfColumn f, csOp = op, csCounter = sfStampedCounter f\<rparr> \<in> set claimed \<and>
       (\<exists>i. sfPath f = [i] \<and> derefValue (us ! i) = stampedTo (sfStampedCounter f) op now (derefValue (vs ! i)))) \<and>
    (\<forall>f\<in>set (tsFields s). sfVOType f = None \<longrightarrow> sfGo f \<notin> Field ` set reqs \<longrightarrow>
       ValueIn (sfPath f) (GStruct us) = ValueIn (sfPath f) (GStruct vs))"
proof -
  let ?t = "stripPointers T"
  note wf = build_wf [OF assms(1)] and anch = build_anchored [OF assms(1)]
  note acc = accepted_requests [OF wf assms(2,3)]
  have us: "us = applyStamps s ?t now reqs vs" using assms(5) by (simp add: ApplyStamps_def)
  have inj: "\<forall>g h i. stampIndex s ?t g = Some i \<longrightarrow> stampIndex s ?t h = Some i \<longrightarrow> g = h"
    using anchored_stampIndex [OF anch wf] exportedFieldIndex_inj by blast
  note app = applyStamps_spec [OF inj assms(3), where now = now and vs = vs, folded us]
  have written: "\<lparr>csColumn = sfColumn f, csOp = op, csCounter = sfStampedCounter f\<rparr> \<in> set claimed \<and>
      (\<exists>i. sfPath f = [i] \<and> derefValue (us ! i) = stampedTo (sfStampedCounter f) op now (derefValue (vs ! i)))"
    if f: "f \<in> set (tsFields s)" "\<lparr>Field = sfGo f, Op = op\<rparr> \<in> set reqs" for f op
  proof -
    have op: "wantedOps reqs Map.empty (sfGo f) = Some op" using wantedOps_distinct [OF assms(3)] f(2) by blast
    have m: "sfGo f \<in> Field ` set reqs" using f(2) by force
    obtain i where i: "sfPath f = [i]" "stampIndex s ?t (sfGo f) = Some i" "exportedFieldIndex ?t (sfGo f) = Some i"
      "if sfStampedCounter f then memberType (members ?t ! i) \<in> {TyInt64, TyPtr TyInt64} else memberType (members ?t ! i) = TyPtr TyTime"
      "StampedFieldAcceptsNull s (sfGo f) \<longrightarrow> memberType (members ?t ! i) \<noteq> TyInt64"
      by (rule stamp_of_field [OF anch wf f(1) acc(1) [OF f(1) m]])
    have bound: "i < length vs" using exportedFieldIndex_bound [OF i(3)] assms(4) by simp
    have "op = StampToNull \<longrightarrow> memberType (members ?t ! i) \<noteq> TyInt64"
      using i(5) acc(3) op f(1) acc(1) [OF f(1) m] by blast
    note val = applyStampTo_value [OF i(4) this, of now "vs ! i"]
    have "us ! i = applyStampTo (memberType (members ?t ! i)) (Op \<lparr>Field = sfGo f, Op = op\<rparr>) now (vs ! i)"
      by (rule app [THEN conjunct2, THEN conjunct1, rule_format, OF f(2) bound]) (simp add: i(2))
    with val have "derefValue (us ! i) = stampedTo (sfStampedCounter f) op now (derefValue (vs ! i))" by simp
    moreover have "\<lparr>csColumn = sfColumn f, csOp = op, csCounter = sfStampedCounter f\<rparr> \<in> set claimed"
      unfolding acc(2) set_map by (rule image_eqI [of _ _ f]) (use f(1) m op in simp_all)
    ultimately show ?thesis using i(1) by blast
  qed
  have kept: "ValueIn (sfPath f) (GStruct us) = ValueIn (sfPath f) (GStruct vs)"
    if f: "f \<in> set (tsFields s)" "sfVOType f = None" "sfGo f \<notin> Field ` set reqs" for f
  proof -
    obtain i where i: "exportedFieldIndex ?t (sfGo f) = Some i" "sfPath f = [i]"
      by (rule anchoredField_plain [OF anch f(1,2)])
    have "stampIndex s ?t (Field r) \<noteq> Some i" if "r \<in> set reqs" for r
      using anchored_stampIndex [OF anch wf] exportedFieldIndex_inj [OF i(1)] f(3) that by blast
    moreover have "i < length vs" using exportedFieldIndex_bound [OF i(1)] assms(4) by simp
    ultimately have "us ! i = vs ! i" using app [THEN conjunct2, THEN conjunct2] by blast
    with app show ?thesis by (simp add: ValueIn_def i(2))
  qed
  have "map csColumn claimed = map sfColumn (filter (\<lambda>f. sfGo f \<in> Field ` set reqs) (tsFields s))"
    unfolding acc(2) by simp
  with written kept show ?thesis by blast
qed

theorem stamped_entity_matches_the_statement_witness:
  "let reqs = [\<lparr>Field = ''Visits'', Op = StampToEmpty\<rparr>, \<lparr>Field = ''SignedAt'', Op = StampFill\<rparr>];
       vs = [GID ''a'', GStr ''Ana'', GNil, GNum TyInt64 7, GStr ''x'']
   in \<exists>claimed us. StampRequestColumns demoSchema reqs = Inr claimed \<and> map csColumn claimed = [''signed_at'', ''visits''] \<and>
      ApplyStamps demoSchema demoPerson (GPtr (GStruct vs)) reqs 99 = GPtr (GStruct us) \<and>
      derefValue (us ! 2) = GTime 99 \<and> derefValue (us ! 3) = GNum TyInt64 0 \<and> us ! 1 = GStr ''Ana''"
proof -
  define reqs where "reqs = [\<lparr>Field = ''Visits'', Op = StampToEmpty\<rparr>, \<lparr>Field = ''SignedAt'', Op = StampFill\<rparr>]"
  define vs where "vs = [GID ''a'', GStr ''Ana'', GNil, GNum TyInt64 7, GStr ''x'']"
  define us where "us = applyStamps demoSchema demoPerson 99 reqs vs"
  define claimed where "claimed = projr (StampRequestColumns demoSchema reqs)"
  have strip: "stripPointers demoPerson = demoPerson" by code_simp
  have "\<not> isl (StampRequestColumns demoSchema reqs)" unfolding reqs_def by code_simp
  then have c: "StampRequestColumns demoSchema reqs = Inr claimed" by (simp add: claimed_def)
  have d: "distinct (map Field reqs)" by (simp add: reqs_def)
  have l: "length vs = length (members (stripPointers demoPerson))" unfolding vs_def by code_simp
  have a: "ApplyStamps demoSchema (stripPointers demoPerson) (GPtr (GStruct vs)) reqs 99 = GPtr (GStruct us)"
    by (simp add: ApplyStamps_def us_def strip)
  note t = stamped_entity_matches_the_statement [OF demo_builds c d l a]
  have "3 < length (tsFields demoSchema)" by code_simp
  then have f: "tsFields demoSchema ! i \<in> set (tsFields demoSchema)" if "i \<le> 3" for i using that by (intro nth_mem) simp
  have names: "sfGo (tsFields demoSchema ! 0) = ''Name''" "sfGo (tsFields demoSchema ! 1) = ''SignedAt''"
    "sfGo (tsFields demoSchema ! 2) = ''Visits''" "sfPath (tsFields demoSchema ! 0) = [1]"
    "sfPath (tsFields demoSchema ! 1) = [2]" "sfPath (tsFields demoSchema ! 2) = [3]"
    "sfVOType (tsFields demoSchema ! 0) = None" "\<not> sfStampedCounter (tsFields demoSchema ! 1)"
    "sfStampedCounter (tsFields demoSchema ! 2)"
    by code_simp+
  have two: "derefValue (us ! 2) = GTime 99"
    using conjunct1 [OF conjunct2 [OF t], THEN bspec, OF f [of 1], THEN spec, of StampFill] names by (simp add: reqs_def)
  have three: "derefValue (us ! 3) = GNum TyInt64 0"
    using conjunct1 [OF conjunct2 [OF t], THEN bspec, OF f [of 2], THEN spec, of StampToEmpty] names by (simp add: reqs_def)
  have "ValueIn [1] (GStruct us) = ValueIn [1] (GStruct vs)"
    using conjunct2 [OF conjunct2 [OF t], THEN bspec, OF f [of 0]] names by (simp add: reqs_def)
  then have one: "us ! 1 = GStr ''Ana''" by (simp add: ValueIn_def vs_def split: if_splits)
  have "map csColumn claimed = [''signed_at'', ''visits'']"
  proof -
    have "map sfColumn (filter (\<lambda>f. sfGo f \<in> {''Visits'', ''SignedAt''}) (tsFields demoSchema)) = [''signed_at'', ''visits'']"
      by code_simp
    then show ?thesis using conjunct1 [OF t] by (simp add: reqs_def)
  qed
  with c a two three one show ?thesis unfolding strip Let_def reqs_def vs_def
    by (intro exI [of _ claimed] exI [of _ us] conjI)
qed

subsection \<open>What the guards of a composite miss\<close>

definition demoKey :: reflectType where
  "demoKey = TyStruct ''Document'' True [Member ''Number'' True False TyString]"

definition demoPart :: "(CompositeValueObject \<Rightarrow> schemaPanic + CompositeValueObject) list \<Rightarrow> CompositeValueObject" where
  "demoPart calls = fold (\<lambda>d c. projr (d c)) calls (projr (NewCompositeValueObject demoKey))"


end
