(* ===== verification/Spec2Isabelle.thy ===== *)
theory Spec2Isabelle
  imports Aggregate_Contract Rules_Contract Vocabulary_Contract Resilience_Contract Cache_Contract Auth_Contract Http_Contract Single_Flight
    Transport_Contract Integration_Contract Schema_Copies
begin

text \<open>
  Verification of omnicore, a framework for services written in Go. The development models its
  domain kernel and the infrastructure that a service depends on at run time, each function of
  the source as an executable definition of the same name, and proves what callers rely on.

  \<^bold>\<open>The program.\<close> A service defines entities and aggregates over the domain kernel
  (\<^verbatim>\<open>src/domain\<close>): an entity validates itself by rules and value objects, tracks the children of
  its aggregate, and is sealed into a token that a repository may write. Around the kernel lie
  adapters (\<^verbatim>\<open>src/infra\<close>): a resilience kernel, a cache, an HTTP client composed of layers over both, a
  message transport, and the messaging between services that consumes the transport and keeps
  ledgers in the database. \<^verbatim>\<open>src/application\<close>, \<^verbatim>\<open>src/web\<close> and \<^verbatim>\<open>src/bootstrap\<close> wire these together.

  \<^bold>\<open>How Go is read.\<close> A struct is a record, an enumeration a datatype, a map an association list or
  a function into an option. A function that mutates its receiver returns the new receiver. An
  error, and a panic that the source raises, is the left side of a sum. \<^verbatim>\<open>int\<close>, \<^verbatim>\<open>int64\<close> and
  durations are integers; where the source can leave the range, the operation is followed by
  \<open>wrap64\<close>. Strings are lists of bytes. Code outside of the repository (UUID parsing, hashes, JSON,
  clocks, random sources, brokers, databases, the upstream of an HTTP call) is an argument or a
  field of a record of services; what a theorem needs of it is a hypothesis that names the
  documented behaviour, and its witness instantiates it. Goroutines are step relations whose
  steps are the critical sections of the source.

  \<^bold>\<open>The domain kernel.\<close>
  \<^item> \<open>Wire_Names\<close> (\<^verbatim>\<open>wire_names.go\<close>, paths of \<^verbatim>\<open>notification.go\<close>): casing and rendering of field paths.
  \<^item> \<open>Notification\<close> (\<^verbatim>\<open>notification*.go\<close>, \<^verbatim>\<open>exception.go\<close>): messages, contexts and their scoped views, which
    share one list with the root, aliases and labels.
  \<^item> \<open>Value_Objects\<close> (\<^verbatim>\<open>value_object.go\<close>): enumerations and validators.
  \<^item> \<open>Entity_Model\<close>, \<open>Aggregate\<close> (\<^verbatim>\<open>managed.go\<close>, \<^verbatim>\<open>aggregate_*.go\<close>): identities, the statuses of tracked children
    and every mutator and reader of the tracker.
  \<^item> \<open>Entity_Rules\<close> (\<^verbatim>\<open>rules.go\<close>): the rules language as statements interpreted over a host, which is a
    root or a child; the locale \<open>rules_host\<close> is what the interpreter needs of it.
  \<^item> \<open>Entity_Pipeline\<close> (\<^verbatim>\<open>entity_base.go\<close>, \<^verbatim>\<open>entity.go\<close>, \<^verbatim>\<open>clone.go\<close>): the five validation passes and the tokens.
  \<^item> \<open>Aggregate_Props\<close>, \<open>Aggregate_Contract\<close>: under the locale \<open>business_identity\<close>, a full replace is the
    reference difference, the mutators keep identities distinct and loaded rows tracked, and a
    sequence of calls that breaks the promise of one active child per identity.
  \<^item> \<open>Pipeline_Props\<close>, \<open>Pipeline_Contract\<close>, \<open>Rules_Contract\<close>, \<open>Vocabulary_Contract\<close>: a token is sealed only for
    a valid entity, every value object is validated once, the barrier of the rules cuts exactly
    what is below it, snapshots and the rules window behave over a whole pass.

  \<^bold>\<open>Resilience and cache.\<close> \<open>Resilience\<close> (\<^verbatim>\<open>breaker.go\<close>, \<^verbatim>\<open>backoff.go\<close>) with \<open>Resilience_Contract\<close>: invariants,
  tripping, recovery and the probe of the breaker over all orders of its operations; bounds of the
  waits. \<open>Memory_Cache\<close> (\<^verbatim>\<open>cache.go\<close>, \<^verbatim>\<open>memory.go\<close>, \<^verbatim>\<open>redis.go\<close>) with \<open>Cache_Contract\<close>: the linked list and the index
  refine a bounded list in order of use, as an interpretation of the locale \<open>byte_cache\<close>.

  \<^bold>\<open>The HTTP client\<close> (\<^verbatim>\<open>src/infra/httpclient\<close>). \<open>Http_Client\<close>: errors and retry policies. \<open>Http_Layers\<close>: every
  layer as a function of the next one. \<open>Http_Cache\<close>, \<open>Http_Signing\<close>, \<open>Http_Auth\<close>: the layers with their
  own files. \<open>Http_Config\<close>, \<open>Http_Registry\<close>: configuration, validation and the run-time registry.
  \<open>Http_Call\<close>: one call through all of it. \<open>Http_Props\<close> and \<open>Http_Contract\<close> put the call against an upstream
  that answers anything and record every request it sees: one call repeats one request, unsafe
  methods are sent once, cache keys separate requests. \<open>Auth_Contract\<close>: no tenant is given the token
  of another. \<open>Registry_Contract\<close>: validation decides what boots, and run-time changes leave the boot
  configuration alone. \<open>Single_Flight\<close> (\<^verbatim>\<open>auth/singleflight.go\<close>): callers share one run of the token
  exchange and, unless it panics, all return.

  \<^bold>\<open>Messaging.\<close> \<open>Transport\<close> (\<^verbatim>\<open>src/infra/transport\<close>): conversion of messages, the tracker of offsets, the
  life of a consumer group over generations, the locks of a JetStream handle. \<open>Transport_Contract\<close>: a
  committed offset lies behind finished messages only. \<open>Integration\<close> (\<^verbatim>\<open>src/infra/integration\<close>): the
  producer, the ledgers, the receivers, the handling of a message and the pool of workers.
  \<open>Integration_Contract\<close>: no routed event is lost or handled twice, a key keeps its order, the pool
  drains.

  \<^bold>\<open>Bounds and termination.\<close> No definition takes fuel. Loops over a collection recurse on it; the
  retry loop recurses on the attempts that are left; the loop of the offset tracker and the other
  loops that are not structural have a termination proof. The pool of workers and the single
  flight are relations; that their executions end is a theorem.

  \<^bold>\<open>What is not modelled.\<close> Code whose content is reflection over Go types (binding of requests,
  struct scanning, field references) has no counterpart to its subject in HOL; where the modelled
  code calls it, its result is a parameter. Drivers, servers, generated protocol code, log lines,
  metrics and spans are input and output. The query side, the write side of the database, the
  web and the bootstrap packages are not modelled yet.
\<close>

end
